(* ===== verification/Olarm_Prelude.thy ===== *)
theory Olarm_Prelude
  imports Complex_Main "HOL-Library.Sublist"
begin

text \<open>
  Shared vocabulary of the development: the fact collections the component theories
  add their unfolding rules to, the type of clock readings, and the generic lemmas on
  \<open>min\<close>, \<open>max\<close>, powers of two and lists that several components use.

  Python floats are read as real numbers: the rounding of IEEE doubles is not
  modelled. Python integers are \<open>int\<close>, or \<open>nat\<close> for a counter that starts at
  zero and is only incremented or reset.
\<close>

named_theorems olarm_defs \<open>definitions of the operations, for unfolding\<close>
named_theorems clock_simps \<open>facts about clock readings\<close>
named_theorems inv_intros \<open>preservation lemmas of the invariants\<close>
named_theorems raises_intros \<open>rules that bound the exceptions of an expression\<close>

type_synonym time = real

section \<open>Arithmetic of the backoff schedule\<close>

lemma min_mult_pow_mono:
  fixes b m :: nat
  assumes "i \<le> j"
  shows "min (b * 2 ^ i) m \<le> min (b * 2 ^ j) m"
proof -
  from assms have "(2::nat) ^ i \<le> 2 ^ j"
    by (simp add: power_increasing)
  then have "b * 2 ^ i \<le> b * 2 ^ j"
    by (rule mult_le_mono2)
  then show ?thesis
    by (simp add: min.coboundedI1)
qed

lemma min_le_cap [simp]: "min (a::nat) m \<le> m"
  by simp

lemma base_le_min_mult_pow:
  fixes b m :: nat
  assumes "b \<le> m"
  shows "b \<le> min (b * 2 ^ i) m"
  using assms by simp

section \<open>Lists\<close>

lemma foldl_snoc: "foldl f s (xs @ [x]) = f (foldl f s xs) x"
  by simp

lemma length_filter_replicate [simp]:
  "length (filter P (replicate n x)) = (if P x then n else 0)"
  by (induction n) auto

end
