(* ===== verification/Const.thy ===== *)
theory Const
  imports Olarm_Prelude
begin

text \<open>
  The constants of \<^verbatim>\<open>const.py\<close> that the API layer reads: the rate limit
  configuration. Seconds that the code adds to clock readings are kept as the
  integers the source writes; the minimum gap is the float \<^verbatim>\<open>2.0\<close>.
\<close>

section \<open>Rate limit configuration\<close>

definition MIN_SCAN_INTERVAL :: nat where
  "MIN_SCAN_INTERVAL = 60"

definition API_MIN_REQUEST_GAP :: real where
  "API_MIN_REQUEST_GAP = 2.0"

definition API_BACKOFF_BASE :: nat where
  "API_BACKOFF_BASE = 60"

definition API_BACKOFF_MAX :: nat where
  "API_BACKOFF_MAX = 300"

definition API_MAX_CONSECUTIVE_429 :: nat where
  "API_MAX_CONSECUTIVE_429 = 3"

lemmas rate_limit_consts [olarm_defs] =
  MIN_SCAN_INTERVAL_def API_MIN_REQUEST_GAP_def API_BACKOFF_BASE_def
  API_BACKOFF_MAX_def API_MAX_CONSECUTIVE_429_def

lemma backoff_base_le_max: "API_BACKOFF_BASE \<le> API_BACKOFF_MAX"
  by (simp add: rate_limit_consts)

lemma min_request_gap_pos: "0 < API_MIN_REQUEST_GAP"
  by (simp add: rate_limit_consts)

end
