(* ===== verification/Clock.thy ===== *)
theory Clock
  imports Olarm_Prelude
begin

text \<open>
  The environment of the rate limiter: the monotonic clock that
  \<^verbatim>\<open>time.monotonic()\<close> reads and that \<^verbatim>\<open>asyncio.sleep\<close> waits on.
  A clock is the current reading together with a schedule of delays (\<open>drift\<close>):
  every observation of the clock first lets the next delay of the schedule pass, so
  that two readings in one function need not agree and a sleep may overshoot. With an
  empty schedule the clock is exact (\<open>steady\<close>): reading takes no time and a sleep
  lasts exactly as long as asked. The schedule is well formed when no delay is
  negative, which is what makes the clock monotonic.
\<close>

record clock =
  now :: time
  drift :: "real list"

definition wf_clock :: "clock \<Rightarrow> bool" where
  "wf_clock c = list_all (\<lambda>d. 0 \<le> d) (drift c)"

definition steady :: "clock \<Rightarrow> bool" where
  "steady c = (drift c = [])"

definition tick :: "clock \<Rightarrow> clock" where
  "tick c = (case drift c of [] \<Rightarrow> c | d # ds \<Rightarrow> c\<lparr>now := now c + d, drift := ds\<rparr>)"

definition monotonic :: "clock \<Rightarrow> time \<times> clock" where
  "monotonic c = (now (tick c), tick c)"

definition sleep :: "real \<Rightarrow> clock \<Rightarrow> clock" where
  "sleep d c = tick (c\<lparr>now := now c + max 0 d\<rparr>)"

lemmas clock_defs = wf_clock_def steady_def tick_def monotonic_def sleep_def

section \<open>The clock never runs backwards\<close>

lemma wf_tick [clock_simps, intro]: "wf_clock c \<Longrightarrow> wf_clock (tick c)"
  by (auto simp: wf_clock_def tick_def split: list.splits)

lemma now_tick [clock_simps]: "wf_clock c \<Longrightarrow> now c \<le> now (tick c)"
  by (auto simp: wf_clock_def tick_def split: list.splits)

lemma wf_sleep [clock_simps, intro]: "wf_clock c \<Longrightarrow> wf_clock (sleep d c)"
  by (auto simp: wf_clock_def sleep_def tick_def split: list.splits)

lemma now_sleep [clock_simps]: "wf_clock c \<Longrightarrow> now c + d \<le> now (sleep d c)"
  by (auto simp: wf_clock_def sleep_def tick_def split: list.splits)

lemma now_sleep_mono [clock_simps]: "wf_clock c \<Longrightarrow> now c \<le> now (sleep d c)"
  by (auto simp: wf_clock_def sleep_def tick_def split: list.splits)

lemma snd_monotonic [simp]: "snd (monotonic c) = tick c"
  by (simp add: monotonic_def)

lemma fst_monotonic [simp]: "fst (monotonic c) = now (tick c)"
  by (simp add: monotonic_def)

lemma monotonic_reading:
  "monotonic c = (t, c') \<Longrightarrow> t = now c' \<and> c' = tick c"
  by (auto simp: monotonic_def)

lemma monotonic_mono:
  "wf_clock c \<Longrightarrow> monotonic c = (t, c') \<Longrightarrow> now c \<le> t \<and> wf_clock c'"
  by (auto simp: monotonic_def clock_simps)

section \<open>The exact clock\<close>

lemma tick_steady [simp]: "steady c \<Longrightarrow> tick c = c"
  by (simp add: steady_def tick_def)

lemma sleep_steady: "steady c \<Longrightarrow> sleep d c = c\<lparr>now := now c + max 0 d\<rparr>"
  by (simp add: steady_def sleep_def tick_def)

lemma steady_sleep [simp]: "steady c \<Longrightarrow> steady (sleep d c)"
  by (simp add: steady_def sleep_def tick_def)

lemma now_sleep_steady [simp]: "steady c \<Longrightarrow> now (sleep d c) = now c + max 0 d"
  by (simp add: sleep_steady)

lemma steady_wf [simp]: "steady c \<Longrightarrow> wf_clock c"
  by (simp add: steady_def wf_clock_def)

lemma monotonic_steady [simp]: "steady c \<Longrightarrow> monotonic c = (now c, c)"
  by (simp add: monotonic_def)

end
