(* ===== verification/RateLimiter.thy ===== *)
theory RateLimiter
  imports Const Clock
begin

text \<open>
  The class \<^verbatim>\<open>OlarmRateLimiter\<close> of \<^verbatim>\<open>olarm_api.py\<close>: its four fields as a
  record, one definition per method, and the three stretches of \<^verbatim>\<open>wait_for_slot\<close>
  that lie between its suspension points as definitions of their own
  (\<open>backoff_phase\<close>, \<open>gap_phase\<close>, \<open>stamp_phase\<close>). Every method that reads the
  clock takes the clock and returns it.
\<close>

section \<open>State\<close>

record rate_limiter =
  min_gap :: real
  last_request_time :: time
  backoff_until :: time
  consecutive_429s :: nat

definition init_limiter :: "real \<Rightarrow> rate_limiter" where
  "init_limiter g =
     \<lparr>min_gap = g, last_request_time = 0, backoff_until = 0, consecutive_429s = 0\<rparr>"

definition new_limiter :: rate_limiter where
  "new_limiter = init_limiter API_MIN_REQUEST_GAP"

section \<open>Operations\<close>

definition is_backed_off :: "rate_limiter \<Rightarrow> clock \<Rightarrow> bool \<times> clock" where
  "is_backed_off rl c = (case monotonic c of (t, c') \<Rightarrow> (t < backoff_until rl, c'))"

definition backoff_remaining :: "rate_limiter \<Rightarrow> clock \<Rightarrow> real \<times> clock" where
  "backoff_remaining rl c =
     (case monotonic c of (t, c') \<Rightarrow> (max 0 (backoff_until rl - t), c'))"

definition slot_denied :: "rate_limiter \<Rightarrow> bool" where
  "slot_denied rl \<longleftrightarrow> API_MAX_CONSECUTIVE_429 \<le> consecutive_429s rl"

definition backoff_phase :: "rate_limiter \<Rightarrow> clock \<Rightarrow> clock" where
  "backoff_phase rl c =
     (case is_backed_off rl c of (backed_off, c1) \<Rightarrow>
        if backed_off
        then case backoff_remaining rl c1 of (wait_time, c2) \<Rightarrow> sleep wait_time c2
        else c1)"

definition gap_phase :: "rate_limiter \<Rightarrow> clock \<Rightarrow> clock" where
  "gap_phase rl c =
     (case monotonic c of (t, c1) \<Rightarrow>
        let elapsed = t - last_request_time rl
        in if elapsed < min_gap rl then sleep (min_gap rl - elapsed) c1 else c1)"

definition stamp_phase :: "rate_limiter \<Rightarrow> clock \<Rightarrow> rate_limiter \<times> clock" where
  "stamp_phase rl c = (case monotonic c of (t, c') \<Rightarrow> (rl\<lparr>last_request_time := t\<rparr>, c'))"

definition wait_for_slot :: "rate_limiter \<Rightarrow> clock \<Rightarrow> bool \<times> rate_limiter \<times> clock" where
  "wait_for_slot rl c =
     (if slot_denied rl then (False, rl, c)
      else case stamp_phase rl (gap_phase rl (backoff_phase rl c)) of
             (rl', c') \<Rightarrow> (True, rl', c'))"

definition record_success :: "rate_limiter \<Rightarrow> rate_limiter" where
  "record_success rl = rl\<lparr>consecutive_429s := 0\<rparr>"

definition backoff_seconds :: "nat \<Rightarrow> nat" where
  "backoff_seconds n = min (API_BACKOFF_BASE * 2 ^ (n - 1)) API_BACKOFF_MAX"

definition record_rate_limit :: "rate_limiter \<Rightarrow> clock \<Rightarrow> rate_limiter \<times> clock" where
  "record_rate_limit rl c =
     (let n = consecutive_429s rl + 1
      in case monotonic c of (t, c') \<Rightarrow>
           (rl\<lparr>consecutive_429s := n, backoff_until := t + real (backoff_seconds n)\<rparr>, c'))"

definition reset_cycle :: "rate_limiter \<Rightarrow> rate_limiter" where
  "reset_cycle rl = rl\<lparr>consecutive_429s := 0\<rparr>"

lemmas limiter_defs [olarm_defs] =
  init_limiter_def new_limiter_def is_backed_off_def backoff_remaining_def slot_denied_def
  backoff_phase_def gap_phase_def stamp_phase_def wait_for_slot_def record_success_def
  record_rate_limit_def reset_cycle_def

section \<open>The backoff schedule\<close>

lemma backoff_seconds_values:
  "backoff_seconds 1 = 60" "backoff_seconds 2 = 120" "backoff_seconds 3 = 240"
  "backoff_seconds 4 = 300"
  by (simp_all add: backoff_seconds_def rate_limit_consts)

lemma backoff_seconds_le_max: "backoff_seconds n \<le> API_BACKOFF_MAX"
  by (simp add: backoff_seconds_def)

lemma backoff_seconds_mono: "m \<le> n \<Longrightarrow> backoff_seconds m \<le> backoff_seconds n"
  unfolding backoff_seconds_def by (rule min_mult_pow_mono) simp

section \<open>What \<^verbatim>\<open>wait_for_slot\<close> promises\<close>

text \<open>
  The earliest moment at which a request that asks for a slot at time \<open>t\<close> may go out:
  not before the backoff window has passed and not before the minimum gap since the
  last request has passed. This is the contract of \<^verbatim>\<open>wait_for_slot\<close>; the
  lemmas below relate the three phases of the method to it.
\<close>

definition earliest_slot :: "rate_limiter \<Rightarrow> time \<Rightarrow> time" where
  "earliest_slot rl t = max (max t (backoff_until rl)) (last_request_time rl + min_gap rl)"

lemma backoff_phase_steady:
  "steady c \<Longrightarrow> backoff_phase rl c = c\<lparr>now := max (now c) (backoff_until rl)\<rparr>"
  by (auto simp: limiter_defs sleep_steady max_def)

lemma gap_phase_steady:
  "steady c \<Longrightarrow>
   gap_phase rl c = c\<lparr>now := max (now c) (last_request_time rl + min_gap rl)\<rparr>"
  by (auto simp: limiter_defs sleep_steady max_def Let_def)

lemma backoff_phase_wf [clock_simps]: "wf_clock c \<Longrightarrow> wf_clock (backoff_phase rl c)"
  by (auto simp: limiter_defs monotonic_def clock_simps)

lemma gap_phase_wf [clock_simps]: "wf_clock c \<Longrightarrow> wf_clock (gap_phase rl c)"
  by (auto simp: limiter_defs monotonic_def clock_simps Let_def)

lemma backoff_phase_mono:
  assumes "wf_clock c"
  shows "now c \<le> now (backoff_phase rl c)"
proof -
  let ?c2 = "tick (tick c)"
  have steps: "now c \<le> now (tick c)" "now (tick c) \<le> now ?c2" "wf_clock ?c2"
    using assms by (simp_all add: clock_simps)
  then have "now c \<le> now (sleep d ?c2)" for d
    using now_sleep_mono [of ?c2 d] by simp
  with steps show ?thesis
    by (auto simp: limiter_defs monotonic_def)
qed

lemma backoff_phase_until:
  assumes "wf_clock c"
  shows "backoff_until rl \<le> now (backoff_phase rl c)"
proof -
  let ?c2 = "tick (tick c)"
  have steps: "now c \<le> now (tick c)" "now (tick c) \<le> now ?c2" "wf_clock ?c2"
    using assms by (simp_all add: clock_simps)
  from steps(3) have "now ?c2 + d \<le> now (sleep d ?c2)" for d
    by (rule now_sleep)
  from this [of "max 0 (backoff_until rl - now ?c2)"] steps show ?thesis
    by (auto simp: limiter_defs monotonic_def)
qed

lemma gap_phase_mono:
  assumes "wf_clock c"
  shows "now c \<le> now (gap_phase rl c)"
proof -
  let ?c1 = "tick c"
  have steps: "now c \<le> now ?c1" "wf_clock ?c1"
    using assms by (simp_all add: clock_simps)
  then have "now c \<le> now (sleep d ?c1)" for d
    using now_sleep_mono [of ?c1 d] by simp
  with steps show ?thesis
    by (auto simp: limiter_defs monotonic_def Let_def)
qed

lemma gap_phase_gap:
  assumes "wf_clock c"
  shows "last_request_time rl + min_gap rl \<le> now (gap_phase rl c)"
proof -
  let ?c1 = "tick c"
  have steps: "now c \<le> now ?c1" "wf_clock ?c1"
    using assms by (simp_all add: clock_simps)
  from steps(2) have "now ?c1 + d \<le> now (sleep d ?c1)" for d
    by (rule now_sleep)
  from this [of "min_gap rl - (now ?c1 - last_request_time rl)"] steps show ?thesis
    by (auto simp: limiter_defs monotonic_def Let_def)
qed

lemma wait_for_slot_denied: "slot_denied rl \<Longrightarrow> wait_for_slot rl c = (False, rl, c)"
  by (simp add: wait_for_slot_def)

lemma wait_for_slot_granted:
  assumes "\<not> slot_denied rl"
  shows "wait_for_slot rl c =
    (True, rl\<lparr>last_request_time := now (tick (gap_phase rl (backoff_phase rl c)))\<rparr>,
     tick (gap_phase rl (backoff_phase rl c)))"
  using assms by (simp add: wait_for_slot_def stamp_phase_def monotonic_def)

lemma wait_for_slot_result: "fst (wait_for_slot rl c) \<longleftrightarrow> \<not> slot_denied rl"
  by (simp add: wait_for_slot_def split: prod.splits)

lemma wait_for_slot_clock:
  assumes "wf_clock c"
  shows "wf_clock (snd (snd (wait_for_slot rl c)))"
    and "now c \<le> now (snd (snd (wait_for_slot rl c)))"
proof -
  let ?c1 = "backoff_phase rl c" and ?c2 = "gap_phase rl (backoff_phase rl c)"
  have wf: "wf_clock ?c1" "wf_clock ?c2"
    using assms by (simp_all add: clock_simps)
  then show "wf_clock (snd (snd (wait_for_slot rl c)))"
    using assms
    by (cases "slot_denied rl")
       (simp_all add: wait_for_slot_denied wait_for_slot_granted clock_simps)
  have "now c \<le> now ?c1" "now ?c1 \<le> now ?c2" "now ?c2 \<le> now (tick ?c2)"
    using assms wf backoff_phase_mono [of c rl] gap_phase_mono [of ?c1 rl] now_tick [of ?c2]
    by simp_all
  then show "now c \<le> now (snd (snd (wait_for_slot rl c)))"
    by (cases "slot_denied rl") (simp_all add: wait_for_slot_denied wait_for_slot_granted)
qed

lemma granted_after_backoff:
  assumes "wf_clock c" and "\<not> slot_denied rl"
  shows "backoff_until rl \<le> now (snd (snd (wait_for_slot rl c)))"
proof -
  let ?c1 = "backoff_phase rl c"
  let ?c2 = "gap_phase rl ?c1"
  have wf: "wf_clock ?c1" "wf_clock ?c2"
    using assms(1) by (simp_all add: clock_simps)
  have "backoff_until rl \<le> now ?c1"
    using assms(1) by (rule backoff_phase_until)
  moreover have "now ?c1 \<le> now ?c2"
    using wf(1) by (rule gap_phase_mono)
  moreover have "now ?c2 \<le> now (tick ?c2)"
    using wf(2) by (rule now_tick)
  ultimately show ?thesis
    using assms(2) by (simp add: wait_for_slot_granted)
qed

lemma granted_after_gap:
  assumes "wf_clock c" and "\<not> slot_denied rl"
  shows "last_request_time rl + min_gap rl \<le> now (snd (snd (wait_for_slot rl c)))"
proof -
  let ?c1 = "backoff_phase rl c"
  let ?c2 = "gap_phase rl ?c1"
  have wf: "wf_clock ?c1" "wf_clock ?c2"
    using assms(1) by (simp_all add: clock_simps)
  have "last_request_time rl + min_gap rl \<le> now ?c2"
    using wf(1) by (rule gap_phase_gap)
  moreover have "now ?c2 \<le> now (tick ?c2)"
    using wf(2) by (rule now_tick)
  ultimately show ?thesis
    using assms(2) by (simp add: wait_for_slot_granted)
qed

lemma granted_not_before_earliest:
  assumes "wf_clock c" and "\<not> slot_denied rl"
  shows "earliest_slot rl (now c) \<le> now (snd (snd (wait_for_slot rl c)))"
  using wait_for_slot_clock(2) [OF assms(1), of rl] granted_after_backoff [OF assms]
    granted_after_gap [OF assms]
  by (simp add: earliest_slot_def)

lemma record_rate_limit_backoff:
  assumes "record_rate_limit rl c = (rl', c')"
  shows "consecutive_429s rl' = Suc (consecutive_429s rl)"
    and "backoff_until rl' - now c' = real (backoff_seconds (consecutive_429s rl'))"
  using assms by (auto simp: limiter_defs monotonic_def Let_def)

section \<open>The limiter as a state machine\<close>

text \<open>
  A caller drives the limiter by calling its four methods in some order. A state of the
  machine is the limiter together with the clock; an event is one call. \<open>hits_after\<close>
  is the specification of the counter: the number of rate limit records since the last
  success or cycle reset.
\<close>

datatype limiter_event = WaitForSlot | RecordSuccess | RecordRateLimit | ResetCycle

type_synonym limiter_state = "rate_limiter \<times> clock"

fun limiter_step :: "limiter_state \<Rightarrow> limiter_event \<Rightarrow> limiter_state" where
  "limiter_step (rl, c) WaitForSlot = snd (wait_for_slot rl c)"
| "limiter_step (rl, c) RecordSuccess = (record_success rl, c)"
| "limiter_step (rl, c) RecordRateLimit = record_rate_limit rl c"
| "limiter_step (rl, c) ResetCycle = (reset_cycle rl, c)"

definition limiter_run :: "limiter_state \<Rightarrow> limiter_event list \<Rightarrow> limiter_state" where
  "limiter_run = foldl limiter_step"

fun hits_after :: "nat \<Rightarrow> limiter_event list \<Rightarrow> nat" where
  "hits_after n [] = n"
| "hits_after n (RecordRateLimit # es) = hits_after (Suc n) es"
| "hits_after n (WaitForSlot # es) = hits_after n es"
| "hits_after n (e # es) = hits_after 0 es"

definition limiter_inv :: "limiter_state \<Rightarrow> bool" where
  "limiter_inv s \<longleftrightarrow>
     wf_clock (snd s) \<and> last_request_time (fst s) \<le> now (snd s) \<and>
     backoff_until (fst s) \<le> now (snd s) + real API_BACKOFF_MAX"

lemma limiter_run_Nil [simp]: "limiter_run s [] = s"
  by (simp add: limiter_run_def)

lemma limiter_run_Cons [simp]: "limiter_run s (e # es) = limiter_run (limiter_step s e) es"
  by (simp add: limiter_run_def)

lemma limiter_run_append: "limiter_run s (es @ fs) = limiter_run (limiter_run s es) fs"
  by (simp add: limiter_run_def)

lemma hits_after_replicate [simp]: "hits_after n (replicate k RecordRateLimit) = n + k"
  by (induction k arbitrary: n) auto

lemma step_counter:
  "consecutive_429s (fst (limiter_step s e)) = hits_after (consecutive_429s (fst s)) [e]"
  by (cases s; cases e) (auto simp: limiter_defs monotonic_def Let_def)

lemma run_counter:
  "consecutive_429s (fst (limiter_run s es)) = hits_after (consecutive_429s (fst s)) es"
proof (induction es arbitrary: s)
  case Nil
  show ?case by simp
next
  case (Cons e es)
  show ?case
    using Cons.IH [of "limiter_step s e"] step_counter [of s e]
    by (cases e) simp_all
qed

lemma step_min_gap [simp]: "min_gap (fst (limiter_step s e)) = min_gap (fst s)"
  by (cases s; cases e) (auto simp: limiter_defs monotonic_def Let_def)

lemma run_min_gap [simp]: "min_gap (fst (limiter_run s es)) = min_gap (fst s)"
  by (induction es arbitrary: s) auto

section \<open>Invariant\<close>

lemma wait_for_slot_inv [inv_intros]:
  assumes "limiter_inv (rl, c)"
  shows "limiter_inv (snd (wait_for_slot rl c))"
proof (cases "slot_denied rl")
  case True
  with assms show ?thesis by (simp add: wait_for_slot_denied)
next
  case False
  from assms have "wf_clock c" by (simp add: limiter_inv_def)
  from wait_for_slot_clock [OF this, of rl] assms False show ?thesis
    by (simp add: limiter_inv_def wait_for_slot_granted)
qed

lemma record_rate_limit_inv [inv_intros]:
  assumes "limiter_inv (rl, c)"
  shows "limiter_inv (record_rate_limit rl c)"
proof -
  from assms have "wf_clock c" by (simp add: limiter_inv_def)
  then have "now c \<le> now (tick c)" "wf_clock (tick c)"
    by (simp_all add: clock_simps)
  with assms backoff_seconds_le_max [of "Suc (consecutive_429s rl)"] show ?thesis
    by (auto simp: limiter_inv_def limiter_defs monotonic_def Let_def)
qed

lemma record_success_inv [inv_intros]:
  "limiter_inv (rl, c) \<Longrightarrow> limiter_inv (record_success rl, c)"
  by (simp add: limiter_inv_def record_success_def)

lemma reset_cycle_inv [inv_intros]:
  "limiter_inv (rl, c) \<Longrightarrow> limiter_inv (reset_cycle rl, c)"
  by (simp add: limiter_inv_def reset_cycle_def)

lemma limiter_step_inv: "limiter_inv s \<Longrightarrow> limiter_inv (limiter_step s e)"
  by (cases s; cases e) (simp_all add: inv_intros)

lemma limiter_inv_init: "wf_clock c \<Longrightarrow> 0 \<le> now c \<Longrightarrow> limiter_inv (new_limiter, c)"
  by (simp add: limiter_inv_def limiter_defs)

lemma limiter_run_inv: "limiter_inv s \<Longrightarrow> limiter_inv (limiter_run s es)"
  by (induction es arbitrary: s) (auto simp: limiter_step_inv)

lemma limiter_step_wf: "wf_clock (snd s) \<Longrightarrow> wf_clock (snd (limiter_step s e))"
  by (cases s; cases e)
     (auto simp: wait_for_slot_clock record_rate_limit_def monotonic_def Let_def clock_simps)

lemma limiter_run_wf: "wf_clock (snd s) \<Longrightarrow> wf_clock (snd (limiter_run s es))"
  by (induction es arbitrary: s) (auto simp: limiter_step_wf)

section \<open>Properties of the limiter\<close>

text \<open>
  Claim C1. Whenever \<^verbatim>\<open>wait_for_slot\<close> grants a slot, whatever the delays between
  the readings of the clock and however long the sleeps overshoot, the request goes out
  no earlier than the minimum gap after the previous request, no earlier than the end
  of the backoff window and no earlier than the call; the time recorded as the last
  request is the reading of the clock on return, and no other field changes.
\<close>

theorem slot_respects_gap_and_backoff:
  assumes "wf_clock c" and "wait_for_slot rl c = (True, rl', c')"
  shows "last_request_time rl + min_gap rl \<le> last_request_time rl' \<and>
         backoff_until rl \<le> last_request_time rl' \<and>
         now c \<le> last_request_time rl' \<and>
         last_request_time rl' = now c' \<and>
         rl' = rl\<lparr>last_request_time := now c'\<rparr>"
proof -
  from assms(2) have granted: "\<not> slot_denied rl"
    by (auto simp: wait_for_slot_def)
  with assms(2) have "rl' = rl\<lparr>last_request_time := now c'\<rparr>"
    by (auto simp: wait_for_slot_granted)
  moreover from assms(2) wait_for_slot_clock(2) [OF assms(1), of rl]
    granted_after_backoff [OF assms(1) granted] granted_after_gap [OF assms(1) granted]
  have "now c \<le> now c'" "backoff_until rl \<le> now c'"
    "last_request_time rl + min_gap rl \<le> now c'"
    by simp_all
  ultimately show ?thesis
    by simp
qed

theorem slot_respects_gap_and_backoff_witness:
  "wf_clock \<lparr>now = 21 / 2, drift = [1 / 10, 1 / 5, 3 / 10]\<rparr> \<and>
   wait_for_slot (new_limiter\<lparr>last_request_time := 10\<rparr>)
       \<lparr>now = 21 / 2, drift = [1 / 10, 1 / 5, 3 / 10]\<rparr>
     = (True, new_limiter\<lparr>last_request_time := 123 / 10\<rparr>, \<lparr>now = 123 / 10, drift = []\<rparr>) \<and>
   last_request_time (new_limiter\<lparr>last_request_time := 10\<rparr>)
     + min_gap (new_limiter\<lparr>last_request_time := 10\<rparr>)
     \<le> last_request_time (new_limiter\<lparr>last_request_time := 123 / 10\<rparr>)"
proof -
  let ?c = "\<lparr>now = 21 / 2, drift = [1 / 10, 1 / 5, 3 / 10]\<rparr>"
  let ?rl = "new_limiter\<lparr>last_request_time := 10\<rparr>"
  have wf: "wf_clock ?c"
    by (simp add: wf_clock_def)
  have run: "wait_for_slot ?rl ?c
      = (True, new_limiter\<lparr>last_request_time := 123 / 10\<rparr>, \<lparr>now = 123 / 10, drift = []\<rparr>)"
    by (simp add: limiter_defs clock_defs rate_limit_consts)
  from slot_respects_gap_and_backoff [OF wf run] wf run show ?thesis
    by simp
qed

text \<open>
  Claim C2. After any sequence of calls in which at least
  \<^verbatim>\<open>API_MAX_CONSECUTIVE_429\<close> rate limit records follow the last success or cycle
  reset, \<^verbatim>\<open>wait_for_slot\<close> returns \<^verbatim>\<open>False\<close> at once: it does not sleep, does not
  read the clock and leaves the limiter, the time of the last request included, as it
  was.
\<close>

theorem denied_after_three:
  assumes "limiter_run (rl, c) es = (rl', c')"
    and "API_MAX_CONSECUTIVE_429 \<le> hits_after (consecutive_429s rl) es"
  shows "wait_for_slot rl' c' = (False, rl', c')"
proof -
  from assms(1) have "consecutive_429s rl' = hits_after (consecutive_429s rl) es"
    using run_counter [of "(rl, c)" es] by simp
  with assms(2) have "slot_denied rl'"
    by (simp add: slot_denied_def)
  then show ?thesis by (rule wait_for_slot_denied)
qed

theorem denied_after_three_witness:
  "limiter_run (new_limiter, \<lparr>now = 100, drift = []\<rparr>) (replicate 3 RecordRateLimit)
     = (new_limiter\<lparr>consecutive_429s := 3, backoff_until := 340\<rparr>, \<lparr>now = 100, drift = []\<rparr>) \<and>
   API_MAX_CONSECUTIVE_429 \<le> hits_after (consecutive_429s new_limiter) (replicate 3 RecordRateLimit) \<and>
   wait_for_slot (new_limiter\<lparr>consecutive_429s := 3, backoff_until := 340\<rparr>) \<lparr>now = 100, drift = []\<rparr>
     = (False, new_limiter\<lparr>consecutive_429s := 3, backoff_until := 340\<rparr>, \<lparr>now = 100, drift = []\<rparr>)"
proof -
  let ?c = "\<lparr>now = 100, drift = []\<rparr>"
  have run: "limiter_run (new_limiter, ?c) (replicate 3 RecordRateLimit)
     = (new_limiter\<lparr>consecutive_429s := 3, backoff_until := 340\<rparr>, ?c)"
    by (simp add: numeral_3_eq_3 limiter_defs clock_defs rate_limit_consts backoff_seconds_def)
  have hits: "API_MAX_CONSECUTIVE_429 \<le> hits_after (consecutive_429s new_limiter) (replicate 3 RecordRateLimit)"
    by (simp add: limiter_defs rate_limit_consts)
  from denied_after_three [OF run hits] run hits show ?thesis
    by simp
qed

text \<open>
  Claim C3. After \<open>N \<ge> 1\<close> consecutive rate limit records that follow a success, a
  cycle reset or the creation of the limiter, the backoff window ends
  \<open>min (60 * 2 ^ (N - 1)) 300\<close> seconds after the clock reading of the last record, and
  the counter is \<open>N\<close>.
\<close>

theorem backoff_after_n_rate_limits:
  assumes "limiter_run (rl, c) (replicate (Suc k) RecordRateLimit) = (rl', c')"
    and "consecutive_429s rl = 0"
  shows "backoff_until rl' - now c' = real (min (60 * 2 ^ k) 300) \<and>
         consecutive_429s rl' = Suc k"
proof -
  obtain rl1 c1 where mid: "limiter_run (rl, c) (replicate k RecordRateLimit) = (rl1, c1)"
    by (cases "limiter_run (rl, c) (replicate k RecordRateLimit)")
  then have "consecutive_429s rl1 = k"
    using run_counter [of "(rl, c)" "replicate k RecordRateLimit"] assms(2) by simp
  moreover have "replicate (Suc k) RecordRateLimit = replicate k RecordRateLimit @ [RecordRateLimit]"
    by (simp add: replicate_append_same)
  with assms(1) mid have "record_rate_limit rl1 c1 = (rl', c')"
    by (simp add: limiter_run_append del: replicate_Suc)
  ultimately show ?thesis
    using record_rate_limit_backoff [of rl1 c1 rl' c']
    by (simp add: backoff_seconds_def rate_limit_consts)
qed

theorem backoff_after_n_rate_limits_witness:
  "limiter_run (new_limiter, \<lparr>now = 100, drift = [1, 2]\<rparr>) (replicate (Suc 1) RecordRateLimit)
     = (new_limiter\<lparr>consecutive_429s := 2, backoff_until := 223\<rparr>, \<lparr>now = 103, drift = []\<rparr>) \<and>
   consecutive_429s new_limiter = 0 \<and>
   backoff_until (new_limiter\<lparr>consecutive_429s := 2, backoff_until := 223\<rparr>)
     - now \<lparr>now = 103, drift = []\<rparr> = real (min (60 * 2 ^ 1) 300)"
proof -
  have run: "limiter_run (new_limiter, \<lparr>now = 100, drift = [1, 2]\<rparr>) (replicate (Suc 1) RecordRateLimit)
     = (new_limiter\<lparr>consecutive_429s := 2, backoff_until := 223\<rparr>, \<lparr>now = 103, drift = []\<rparr>)"
    by (simp add: limiter_defs clock_defs rate_limit_consts backoff_seconds_def)
  have zero: "consecutive_429s new_limiter = 0"
    by (simp add: limiter_defs)
  from backoff_after_n_rate_limits [OF run zero] run zero show ?thesis
    by simp
qed

text \<open>
  Claim C4. With an exact clock \<^verbatim>\<open>wait_for_slot\<close> implements its contract exactly:
  a granted call returns at \<open>earliest_slot\<close>, the maximum of the time of the call, the
  end of the backoff window and the previous request time plus the minimum gap, and
  records that time.
\<close>

theorem exact_clock_slot:
  assumes "\<not> slot_denied rl" and "steady c"
  shows "wait_for_slot rl c =
    (True, rl\<lparr>last_request_time := earliest_slot rl (now c)\<rparr>,
     c\<lparr>now := earliest_slot rl (now c)\<rparr>)"
  using assms
  by (simp add: wait_for_slot_granted backoff_phase_steady gap_phase_steady
      earliest_slot_def steady_def)

theorem exact_clock_slot_witness:
  "\<not> slot_denied (new_limiter\<lparr>last_request_time := 10, backoff_until := 15\<rparr>) \<and>
   steady \<lparr>now = 11, drift = []\<rparr> \<and>
   wait_for_slot (new_limiter\<lparr>last_request_time := 10, backoff_until := 15\<rparr>) \<lparr>now = 11, drift = []\<rparr>
     = (True, new_limiter\<lparr>last_request_time := 15, backoff_until := 15\<rparr>, \<lparr>now = 15, drift = []\<rparr>)"
proof -
  let ?rl = "new_limiter\<lparr>last_request_time := 10, backoff_until := 15\<rparr>"
  have granted: "\<not> slot_denied ?rl"
    by (simp add: limiter_defs rate_limit_consts)
  have st: "steady \<lparr>now = 11, drift = []\<rparr>"
    by (simp add: steady_def)
  from exact_clock_slot [OF granted st] granted st show ?thesis
    by (simp add: earliest_slot_def new_limiter_def init_limiter_def rate_limit_consts)
qed

text \<open>
  Claim C5. The invariant of the limiter holds in every state that a sequence of calls,
  one after the other, reaches from a fresh limiter and a clock whose reading is not
  negative (as the readings of \<^verbatim>\<open>time.monotonic\<close> are): the clock is well formed,
  the last request does not lie in the future, and the backoff window ends at most
  \<^verbatim>\<open>API_BACKOFF_MAX\<close> seconds from now.
\<close>

theorem limiter_invariant:
  assumes "wf_clock c" and "0 \<le> now c"
  shows "limiter_inv (limiter_run (new_limiter, c) es)"
  using assms by (intro limiter_run_inv limiter_inv_init)

theorem limiter_invariant_witness:
  "wf_clock \<lparr>now = 5, drift = [1, 0, 2]\<rparr> \<and> 0 \<le> now \<lparr>now = 5, drift = [1, 0, 2]\<rparr> \<and>
   limiter_inv (limiter_run (new_limiter, \<lparr>now = 5, drift = [1, 0, 2]\<rparr>)
     [WaitForSlot, RecordRateLimit, ResetCycle, WaitForSlot, RecordSuccess])"
proof -
  have wf: "wf_clock \<lparr>now = 5, drift = [1, 0, 2]\<rparr>"
    by (simp add: wf_clock_def)
  have pos: "0 \<le> now \<lparr>now = 5, drift = [1, 0, 2]\<rparr>"
    by simp
  from limiter_invariant [OF wf pos] wf pos show ?thesis
    by blast
qed

text \<open>
  Claim C6. A success record reopens the limiter: after any sequence of calls that ends
  with \<^verbatim>\<open>record_success\<close> the counter is 0 and the next \<^verbatim>\<open>wait_for_slot\<close> is
  granted, however many rate limit records came before.
\<close>

theorem success_reopens:
  assumes "limiter_run (rl, c) (es @ [RecordSuccess]) = (rl', c')"
  shows "consecutive_429s rl' = 0 \<and> fst (wait_for_slot rl' c')"
proof -
  from assms have "rl' = record_success (fst (limiter_run (rl, c) es))"
    by (cases "limiter_run (rl, c) es") (simp add: limiter_run_append)
  then show ?thesis
    by (simp add: wait_for_slot_result slot_denied_def record_success_def rate_limit_consts)
qed

theorem success_reopens_witness:
  "limiter_run (new_limiter, \<lparr>now = 100, drift = []\<rparr>)
       (replicate 3 RecordRateLimit @ [RecordSuccess])
     = (new_limiter\<lparr>backoff_until := 340\<rparr>, \<lparr>now = 100, drift = []\<rparr>) \<and>
   consecutive_429s (new_limiter\<lparr>backoff_until := 340\<rparr>) = 0 \<and>
   fst (wait_for_slot (new_limiter\<lparr>backoff_until := 340\<rparr>) \<lparr>now = 100, drift = []\<rparr>)"
proof -
  have run: "limiter_run (new_limiter, \<lparr>now = 100, drift = []\<rparr>)
       (replicate 3 RecordRateLimit @ [RecordSuccess])
     = (new_limiter\<lparr>backoff_until := 340\<rparr>, \<lparr>now = 100, drift = []\<rparr>)"
    by (simp add: numeral_3_eq_3 limiter_defs clock_defs rate_limit_consts backoff_seconds_def)
  from success_reopens [OF run] run show ?thesis
    by simp
qed

text \<open>
  Claim C7. \<^verbatim>\<open>reset_cycle\<close> clears the counter and nothing else: the call after a
  cycle reset is always granted, but it still waits out the backoff window that was
  running, so the request goes out no earlier than \<^verbatim>\<open>backoff_until\<close>.
\<close>

theorem reset_keeps_backoff:
  assumes "wf_clock c" and "wait_for_slot (reset_cycle rl) c = (ok, rl', c')"
  shows "ok \<and> backoff_until rl' = backoff_until rl \<and> backoff_until rl \<le> now c' \<and>
         consecutive_429s rl' = 0"
proof -
  have granted: "\<not> slot_denied (reset_cycle rl)"
    by (simp add: slot_denied_def reset_cycle_def rate_limit_consts)
  from granted_after_backoff [OF assms(1) granted] assms(2)
  have "backoff_until (reset_cycle rl) \<le> now c'"
    by simp
  then show ?thesis
    using assms(2) granted
    by (auto simp: wait_for_slot_granted reset_cycle_def)
qed

theorem reset_keeps_backoff_witness:
  "wf_clock \<lparr>now = 100, drift = []\<rparr> \<and>
   wait_for_slot (reset_cycle (new_limiter\<lparr>consecutive_429s := 3, backoff_until := 340\<rparr>))
       \<lparr>now = 100, drift = []\<rparr>
     = (True, new_limiter\<lparr>last_request_time := 340, backoff_until := 340\<rparr>, \<lparr>now = 340, drift = []\<rparr>) \<and>
   backoff_until (new_limiter\<lparr>consecutive_429s := 3, backoff_until := 340\<rparr>)
     \<le> now \<lparr>now = 340, drift = []\<rparr>"
proof -
  have wf: "wf_clock \<lparr>now = 100, drift = []\<rparr>"
    by (simp add: wf_clock_def)
  have run: "wait_for_slot (reset_cycle (new_limiter\<lparr>consecutive_429s := 3, backoff_until := 340\<rparr>))
       \<lparr>now = 100, drift = []\<rparr>
     = (True, new_limiter\<lparr>last_request_time := 340, backoff_until := 340\<rparr>, \<lparr>now = 340, drift = []\<rparr>)"
    by (simp add: limiter_defs clock_defs rate_limit_consts)
  from reset_keeps_backoff [OF wf run] wf run show ?thesis
    by simp
qed

text \<open>
  Claim C8. A granted call returns in bounded time: from a state that satisfies the
  invariant, with an exact clock and a non-negative minimum gap, \<^verbatim>\<open>wait_for_slot\<close>
  returns at most \<open>max API_BACKOFF_MAX min_gap\<close> seconds after it was called.
\<close>

theorem bounded_wait:
  assumes "limiter_inv (rl, c)" and "steady c" and "0 \<le> min_gap rl"
    and "wait_for_slot rl c = (True, rl', c')"
  shows "now c' \<le> now c + max (real API_BACKOFF_MAX) (min_gap rl)"
proof -
  from assms(4) have granted: "\<not> slot_denied rl"
    by (auto simp: wait_for_slot_def)
  from assms(4) granted assms(2) have "now c' = earliest_slot rl (now c)"
    by (auto simp: wait_for_slot_granted backoff_phase_steady gap_phase_steady
        earliest_slot_def steady_def)
  with assms(1,3) show ?thesis
    by (auto simp: limiter_inv_def earliest_slot_def)
qed

theorem bounded_wait_witness:
  "limiter_inv (new_limiter\<lparr>last_request_time := 99, backoff_until := 340\<rparr>, \<lparr>now = 100, drift = []\<rparr>) \<and>
   steady \<lparr>now = 100, drift = []\<rparr> \<and>
   0 \<le> min_gap (new_limiter\<lparr>last_request_time := 99, backoff_until := 340\<rparr>) \<and>
   wait_for_slot (new_limiter\<lparr>last_request_time := 99, backoff_until := 340\<rparr>) \<lparr>now = 100, drift = []\<rparr>
     = (True, new_limiter\<lparr>last_request_time := 340, backoff_until := 340\<rparr>, \<lparr>now = 340, drift = []\<rparr>) \<and>
   now \<lparr>now = 340, drift = []\<rparr> \<le> now \<lparr>now = 100, drift = []\<rparr>
     + max (real API_BACKOFF_MAX) (min_gap (new_limiter\<lparr>last_request_time := 99, backoff_until := 340\<rparr>))"
proof -
  let ?rl = "new_limiter\<lparr>last_request_time := 99, backoff_until := 340\<rparr>"
  let ?c = "\<lparr>now = 100, drift = []\<rparr>"
  have inv: "limiter_inv (?rl, ?c)"
    by (simp add: limiter_inv_def wf_clock_def limiter_defs rate_limit_consts)
  have st: "steady ?c" by (simp add: steady_def)
  have gap: "0 \<le> min_gap ?rl" by (simp add: limiter_defs rate_limit_consts)
  have run: "wait_for_slot ?rl ?c
     = (True, new_limiter\<lparr>last_request_time := 340, backoff_until := 340\<rparr>, \<lparr>now = 340, drift = []\<rparr>)"
    by (simp add: limiter_defs clock_defs rate_limit_consts)
  from bounded_wait [OF inv st gap run] inv st gap run show ?thesis
    by simp
qed

end
