(* ===== verification/PyJson.thy ===== *)
theory PyJson
  imports Olarm_Prelude "HOL-Library.AList"
begin

text \<open>
  The Python values that the API layer handles, and the built-in operations the source
  applies to them. A decoded JSON document is a value of the datatype \<open>pyval\<close> built
  from its first six constructors; an object keeps its items in order, as a Python dict
  does. Two more constructors stand for values that the code produces but never
  inspects: \<open>PTime s o\<close> is the text that \<^verbatim>\<open>strftime("%a %d %b %Y %X")\<close> gives for
  the local time of Unix second \<open>s\<close> shifted by \<open>o\<close> seconds, and \<open>PExc n\<close> is an
  exception object of class \<open>n\<close>. Each operation that can raise returns
  \<open>py_error + 'a\<close>, with the exception class that Python raises on the left.

  Bounds of this model: JSON numbers are integers (no floats); strings are lists of
  characters below code point 256 and \<open>lower\<close> folds ASCII letters only, which
  agrees with \<^verbatim>\<open>str.lower\<close> on whether the result equals or contains an ASCII
  literal for such strings; the thresholds of the time library are those of one
  platform (section \<open>The time library\<close>); \<open>py_repr\<close> quotes a string without
  escaping, which is Python's \<^verbatim>\<open>repr\<close> for strings without quotes, backslashes
  and control characters; the operations are those of Python on JSON values
  (\<open>is_json\<close>) and treat \<open>PTime\<close> and \<open>PExc\<close> as opaque objects.
\<close>

section \<open>Strings\<close>

definition ascii_lower :: "char \<Rightarrow> char" where
  "ascii_lower c =
     (case map_of (zip ''ABCDEFGHIJKLMNOPQRSTUVWXYZ'' ''abcdefghijklmnopqrstuvwxyz'') c of
        Some l \<Rightarrow> l | None \<Rightarrow> c)"

definition lower :: "string \<Rightarrow> string" where
  "lower s = map ascii_lower s"

definition contains :: "string \<Rightarrow> string \<Rightarrow> bool" where
  "contains sub s = sublist sub s"

fun join :: "string \<Rightarrow> string list \<Rightarrow> string" where
  "join sep [] = []"
| "join sep [x] = x"
| "join sep (x # y # ys) = x @ sep @ join sep (y # ys)"

definition is_space :: "char \<Rightarrow> bool" where
  "is_space c \<longleftrightarrow> c \<in> set [CHR '' '', CHR 0x09, CHR 0x0A, CHR 0x0B, CHR 0x0C, CHR 0x0D]"

definition strip :: "string \<Rightarrow> string" where
  "strip s = rev (dropWhile is_space (rev (dropWhile is_space s)))"

lemmas string_defs = ascii_lower_def lower_def contains_def is_space_def strip_def

lemma contains_Nil [simp]: "contains [] s"
  by (simp add: contains_def)

lemma contains_Cons [simp]:
  "contains sub (c # s) \<longleftrightarrow> prefix sub (c # s) \<or> contains sub s"
  by (simp add: contains_def sublist_Cons_right)

lemma contains_empty [simp]: "contains (c # sub) [] = False"
  by (simp add: contains_def)

lemma contains_iff: "contains sub s \<longleftrightarrow> (\<exists>ps ss. s = ps @ sub @ ss)"
  by (simp add: contains_def sublist_def)

lemma lower_idem [simp]: "lower (lower s) = lower s"
  by (induction s) (simp_all add: lower_def ascii_lower_def split: option.splits if_splits)

lemma length_lower [simp]: "length (lower s) = length s"
  by (simp add: lower_def)

lemma lower_append [simp]: "lower (s @ t) = lower s @ lower t"
  by (simp add: lower_def)

lemma lower_Nil [simp]: "lower [] = []"
  by (simp add: lower_def)

lemma lower_eq_Nil [simp]: "lower s = [] \<longleftrightarrow> s = []"
  by (simp add: lower_def)

lemma contains_lower_mono: "contains sub s \<Longrightarrow> contains (lower sub) (lower s)"
  unfolding contains_iff by (metis lower_append)

section \<open>Decimal numerals\<close>

definition digit_char :: "nat \<Rightarrow> char" where
  "digit_char d = ''0123456789'' ! d"

definition digit_val :: "char \<Rightarrow> nat option" where
  "digit_val c = map_of (zip ''0123456789'' [0, 1, 2, 3, 4, 5, 6, 7, 8, 9]) c"

fun digits_of :: "nat \<Rightarrow> string" where
  "digits_of n =
     (if n < 10 then [digit_char n] else digits_of (n div 10) @ [digit_char (n mod 10)])"

declare digits_of.simps [simp del]

definition string_of_int :: "int \<Rightarrow> string" where
  "string_of_int i = (if i < 0 then CHR ''-'' # digits_of (nat (- i)) else digits_of (nat i))"

lemma string_of_int_digit:
  "string_of_int 0 = ''0''" "string_of_int 1 = ''1''" "string_of_int 2 = ''2''"
  "string_of_int 3 = ''3''" "string_of_int 4 = ''4''" "string_of_int 5 = ''5''"
  "string_of_int 6 = ''6''" "string_of_int 7 = ''7''" "string_of_int 8 = ''8''"
  "string_of_int 9 = ''9''"
  by (simp_all add: string_of_int_def digits_of.simps digit_char_def)

fun parse_nat :: "nat \<Rightarrow> string \<Rightarrow> nat option" where
  "parse_nat acc [] = Some acc"
| "parse_nat acc (c # cs) =
     (case digit_val c of Some d \<Rightarrow> parse_nat (10 * acc + d) cs | None \<Rightarrow> None)"

definition parse_digits :: "string \<Rightarrow> nat option" where
  "parse_digits s =
     (if s = [] \<or> hd s = CHR ''_'' \<or> last s = CHR ''_'' \<or> contains ''__'' s then None
      else parse_nat 0 (filter (\<lambda>c. c \<noteq> CHR ''_'') s))"

definition parse_int :: "string \<Rightarrow> int option" where
  "parse_int s =
     (case strip s of
        [] \<Rightarrow> None
      | c # ds \<Rightarrow>
          if c = CHR ''-'' then map_option (\<lambda>n. - int n) (parse_digits ds)
          else if c = CHR ''+'' then map_option int (parse_digits ds)
          else map_option int (parse_digits (c # ds)))"

lemmas numeral_defs = digit_char_def digit_val_def string_of_int_def parse_digits_def parse_int_def

definition is_digit :: "char \<Rightarrow> bool" where
  "is_digit c \<longleftrightarrow> digit_val c \<noteq> None"

lemma digit_cases: "d < 10 \<Longrightarrow> d \<in> {0, 1, 2, 3, 4, 5, 6, 7, 8, 9::nat}"
  by auto

lemma digit_val_digit_char [simp]: "d < 10 \<Longrightarrow> digit_val (digit_char d) = Some d"
  by (drule digit_cases) (auto simp: digit_val_def digit_char_def)

lemma is_digit_digit_char [simp]: "d < 10 \<Longrightarrow> is_digit (digit_char d)"
  by (simp add: is_digit_def)

lemma is_digit_not_special:
  assumes "is_digit c"
  shows "\<not> is_space c" "c \<noteq> CHR ''_''" "c \<noteq> CHR ''-''" "c \<noteq> CHR ''+''"
  using assms by (auto simp: is_digit_def digit_val_def is_space_def)

lemma digits_of_digits: "c \<in> set (digits_of n) \<Longrightarrow> is_digit c"
proof (induction n rule: digits_of.induct)
  case (1 n)
  show ?case
  proof (cases "n < 10")
    case True
    with "1.prems" show ?thesis
      by (subst (asm) digits_of.simps) auto
  next
    case False
    with "1.prems" "1.IH" show ?thesis
      by (subst (asm) digits_of.simps) auto
  qed
qed

lemma digits_of_nonempty [simp]: "digits_of n \<noteq> []"
  by (subst digits_of.simps) simp

lemma digits_of_ends: "is_digit (hd (digits_of n))" "is_digit (last (digits_of n))"
  by (auto intro!: digits_of_digits [of _ n])

lemma parse_nat_append:
  "parse_nat acc (xs @ ys) = (case parse_nat acc xs of None \<Rightarrow> None | Some a \<Rightarrow> parse_nat a ys)"
  by (induction xs arbitrary: acc) (auto split: option.splits)

lemma parse_nat_digits_of [simp]: "parse_nat 0 (digits_of n) = Some n"
proof (induction n rule: digits_of.induct)
  case (1 n)
  show ?case
  proof (cases "n < 10")
    case True
    then show ?thesis by (subst digits_of.simps) simp
  next
    case False
    with "1.IH" show ?thesis
      by (subst digits_of.simps) (simp add: parse_nat_append)
  qed
qed

lemma dropWhile_id: "s = [] \<or> \<not> P (hd s) \<Longrightarrow> dropWhile P s = s"
  by (cases s) auto

lemma strip_id:
  assumes "s \<noteq> []" and "\<not> is_space (hd s)" and "\<not> is_space (last s)"
  shows "strip s = s"
proof -
  from assms have "dropWhile is_space s = s"
    by (simp add: dropWhile_id)
  moreover from assms have "dropWhile is_space (rev s) = rev s"
    by (simp add: dropWhile_id hd_rev)
  ultimately show ?thesis by (simp add: strip_def)
qed

lemma contains_set: "contains sub s \<Longrightarrow> set sub \<subseteq> set s"
  by (auto simp: contains_iff)

lemma parse_digits_digits_of [simp]: "parse_digits (digits_of n) = Some n"
proof -
  have "CHR ''_'' \<notin> set (digits_of n)"
    using digits_of_digits is_digit_not_special(2) by blast
  then have "filter (\<lambda>c. c \<noteq> CHR ''_'') (digits_of n) = digits_of n"
    and "\<not> contains ''__'' (digits_of n)"
    using contains_set [of "''__''" "digits_of n"] by (auto simp: filter_id_conv)
  then show ?thesis
    using is_digit_not_special(2) [OF digits_of_ends(1), of n]
      is_digit_not_special(2) [OF digits_of_ends(2), of n]
    by (simp add: parse_digits_def)
qed

lemma parse_int_string_of_int: "parse_int (string_of_int i) = Some i"
proof (cases "i < 0")
  case True
  let ?ds = "digits_of (nat (- i))"
  have "\<not> is_space (last ?ds)"
    by (rule is_digit_not_special(1)) (rule digits_of_ends)
  then have "strip (CHR ''-'' # ?ds) = CHR ''-'' # ?ds"
    by (intro strip_id) (simp_all add: is_space_def)
  with True show ?thesis
    by (simp add: parse_int_def string_of_int_def)
next
  case False
  let ?ds = "digits_of (nat i)"
  have ends: "is_digit (hd ?ds)" "is_digit (last ?ds)"
    by (rule digits_of_ends)+
  then have "strip ?ds = ?ds"
    by (intro strip_id) (simp_all add: is_digit_not_special(1))
  moreover obtain c ds where cons: "?ds = c # ds"
    by (cases ?ds) simp_all
  moreover from cons ends(1) have "c \<noteq> CHR ''-''" "c \<noteq> CHR ''+''"
    using is_digit_not_special(3,4) by auto
  ultimately show ?thesis
    using False parse_digits_digits_of [of "nat i"]
    by (simp add: parse_int_def string_of_int_def)
qed

lemma parse_int_examples:
    "parse_int ''  -1_203 '' = Some (-1203)"
    "parse_int ''12a'' = None" "parse_int ''1__2'' = None" "parse_int ''+7'' = Some 7"
  by (simp_all add: parse_int_def strip_def is_space_def parse_digits_def digit_val_def)

section \<open>Values and exceptions\<close>

datatype pyval =
    PNone
  | PBool bool
  | PInt int
  | PStr string
  | PList "pyval list"
  | PDict "(string \<times> pyval) list"
  | PTime int int
  | PExc string

datatype py_error =
    KeyError | IndexError | TypeError | ValueError | AttributeError | UnboundLocalError
  | OSError | OverflowError | JSONDecodeError

type_synonym 'a py = "py_error + 'a"

definition py_bind :: "'a py \<Rightarrow> ('a \<Rightarrow> 'b py) \<Rightarrow> 'b py" where
  "py_bind m f = (case m of Inl e \<Rightarrow> Inl e | Inr v \<Rightarrow> f v)"

fun py_repr :: "pyval \<Rightarrow> string" where
  "py_repr PNone = ''None''"
| "py_repr (PBool b) = (if b then ''True'' else ''False'')"
| "py_repr (PInt i) = string_of_int i"
| "py_repr (PStr s) = [CHR 0x27] @ s @ [CHR 0x27]"
| "py_repr (PList xs) = ''['' @ join '', '' (map py_repr xs) @ '']''"
| "py_repr (PDict kvs) =
     ''{'' @ join '', '' (map (\<lambda>(k, v). [CHR 0x27] @ k @ [CHR 0x27] @ '': '' @ py_repr v) kvs) @ ''}''"
| "py_repr (PTime s off) = ''<time '' @ string_of_int s @ ''+'' @ string_of_int off @ ''>''"
| "py_repr (PExc n) = n @ ''()''"

fun py_str :: "pyval \<Rightarrow> string" where
  "py_str (PStr s) = s"
| "py_str v = py_repr v"

fun py_truthy :: "pyval \<Rightarrow> bool" where
  "py_truthy PNone = False"
| "py_truthy (PBool b) = b"
| "py_truthy (PInt i) = (i \<noteq> 0)"
| "py_truthy (PStr s) = (s \<noteq> [])"
| "py_truthy (PList xs) = (xs \<noteq> [])"
| "py_truthy (PDict kvs) = (kvs \<noteq> [])"
| "py_truthy (PTime s off) = True"
| "py_truthy (PExc n) = True"

fun py_len :: "pyval \<Rightarrow> nat py" where
  "py_len (PStr s) = Inr (length s)"
| "py_len (PList xs) = Inr (length xs)"
| "py_len (PDict kvs) = Inr (length kvs)"
| "py_len _ = Inl TypeError"

fun py_key :: "pyval \<Rightarrow> string \<Rightarrow> pyval py" where
  "py_key (PDict kvs) k = (case map_of kvs k of Some v \<Rightarrow> Inr v | None \<Rightarrow> Inl KeyError)"
| "py_key _ k = Inl TypeError"

fun py_index :: "pyval \<Rightarrow> nat \<Rightarrow> pyval py" where
  "py_index (PList xs) i = (if i < length xs then Inr (xs ! i) else Inl IndexError)"
| "py_index (PStr s) i = (if i < length s then Inr (PStr [s ! i]) else Inl IndexError)"
| "py_index (PDict kvs) i = Inl KeyError"
| "py_index _ i = Inl TypeError"

fun py_get :: "pyval \<Rightarrow> string \<Rightarrow> pyval \<Rightarrow> pyval py" where
  "py_get (PDict kvs) k d = Inr (case map_of kvs k of Some v \<Rightarrow> v | None \<Rightarrow> d)"
| "py_get _ k d = Inl AttributeError"

fun py_setitem :: "pyval \<Rightarrow> string \<Rightarrow> pyval \<Rightarrow> pyval py" where
  "py_setitem (PDict kvs) k v = Inr (PDict (AList.update k v kvs))"
| "py_setitem _ k v = Inl TypeError"

fun py_items :: "pyval \<Rightarrow> (string \<times> pyval) list py" where
  "py_items (PDict kvs) = Inr kvs"
| "py_items _ = Inl AttributeError"

fun py_in :: "string \<Rightarrow> pyval \<Rightarrow> bool py" where
  "py_in k (PDict kvs) = Inr (k \<in> fst ` set kvs)"
| "py_in k (PList xs) = Inr (PStr k \<in> set xs)"
| "py_in k (PStr s) = Inr (contains k s)"
| "py_in k _ = Inl TypeError"

fun py_int :: "pyval \<Rightarrow> int py" where
  "py_int (PInt i) = Inr i"
| "py_int (PBool b) = Inr (if b then 1 else 0)"
| "py_int (PStr s) = (case parse_int s of Some i \<Rightarrow> Inr i | None \<Rightarrow> Inl ValueError)"
| "py_int _ = Inl TypeError"

fun py_range :: "pyval \<Rightarrow> nat list py" where
  "py_range (PInt n) = Inr [0..<nat n]"
| "py_range (PBool b) = Inr [0..<(if b then 1 else 0)]"
| "py_range _ = Inl TypeError"

fun py_eq_str :: "pyval \<Rightarrow> string \<Rightarrow> bool" where
  "py_eq_str (PStr s) lit = (s = lit)"
| "py_eq_str _ lit = False"

fun py_eq_int :: "pyval \<Rightarrow> int \<Rightarrow> bool" where
  "py_eq_int (PInt i) n = (i = n)"
| "py_eq_int (PBool b) n = ((if b then 1 else 0) = n)"
| "py_eq_int _ n = False"

fun is_dict :: "pyval \<Rightarrow> bool" where
  "is_dict (PDict kvs) = True"
| "is_dict _ = False"

fun is_list :: "pyval \<Rightarrow> bool" where
  "is_list (PList xs) = True"
| "is_list _ = False"

fun py_iter :: "pyval \<Rightarrow> pyval list py" where
  "py_iter (PList xs) = Inr xs"
| "py_iter (PDict kvs) = Inr (map (\<lambda>kv. PStr (fst kv)) kvs)"
| "py_iter (PStr s) = Inr (map (\<lambda>c. PStr [c]) s)"
| "py_iter _ = Inl TypeError"

fun is_json :: "pyval \<Rightarrow> bool" where
  "is_json (PList xs) = list_all is_json xs"
| "is_json (PDict kvs) = (distinct (map fst kvs) \<and> list_all (\<lambda>kv. is_json (snd kv)) kvs)"
| "is_json (PTime s off) = False"
| "is_json (PExc n) = False"
| "is_json _ = True"

definition py_or :: "pyval \<Rightarrow> pyval \<Rightarrow> pyval" where
  "py_or x d = (if py_truthy x then x else d)"

lemmas py_or_def [olarm_defs]

section \<open>The time library\<close>

text \<open>
  The source turns a Unix time into a display text by
  \<^verbatim>\<open>datetime.strptime(time.ctime(t), "%a %b  %d %X %Y")\<close> and \<^verbatim>\<open>strftime\<close>, in one
  place after adding a \<^verbatim>\<open>timedelta\<close>. Each of the three calls can raise, at
  thresholds of the platform; the constants are those of CPython on Linux with a 64 bit
  \<^verbatim>\<open>time_t\<close>, glibc and the time zone UTC:
  \<^item> \<^verbatim>\<open>time.ctime\<close> raises \<^verbatim>\<open>OverflowError\<close> when the second does not fit
    \<^verbatim>\<open>time_t\<close>, and \<^verbatim>\<open>OSError\<close> when the year does not fit the C \<^verbatim>\<open>int\<close> of
    \<^verbatim>\<open>struct tm\<close>;
  \<^item> \<^verbatim>\<open>strptime\<close> with \<^verbatim>\<open>%Y\<close> raises \<^verbatim>\<open>ValueError\<close> unless the year has four
    digits, that is, lies between 1000 and 9999;
  \<^item> \<^verbatim>\<open>datetime + timedelta\<close> raises \<^verbatim>\<open>OverflowError\<close> when the sum leaves the
    years 1 to 9999.
  A time is the Unix second it denotes: \<^verbatim>\<open>ctime\<close> drops the fraction of a float
  towards minus infinity.
\<close>

definition TIME_T_MIN :: int where
  "TIME_T_MIN = - (2 ^ 63)"

definition TIME_T_MAX :: int where
  "TIME_T_MAX = 2 ^ 63 - 1"

definition LOCALTIME_MIN :: int where
  "LOCALTIME_MIN = - 67768040609740800"

definition LOCALTIME_MAX :: int where
  "LOCALTIME_MAX = 67768036191676799"

definition DISPLAY_MIN :: int where
  "DISPLAY_MIN = - 30610224000"

definition DISPLAY_MAX :: int where
  "DISPLAY_MAX = 253402300799"

definition DATETIME_MIN :: int where
  "DATETIME_MIN = - 62135596800"

lemmas time_consts =
  TIME_T_MIN_def TIME_T_MAX_def LOCALTIME_MIN_def LOCALTIME_MAX_def DISPLAY_MIN_def
  DISPLAY_MAX_def DATETIME_MIN_def

definition py_ctime :: "int \<Rightarrow> int py" where
  "py_ctime secs =
     (if secs < TIME_T_MIN \<or> TIME_T_MAX < secs then Inl OverflowError
      else if secs < LOCALTIME_MIN \<or> LOCALTIME_MAX < secs then Inl OSError
      else Inr secs)"

definition py_strptime :: "int \<Rightarrow> int py" where
  "py_strptime secs =
     (if secs < DISPLAY_MIN \<or> DISPLAY_MAX < secs then Inl ValueError else Inr secs)"

definition py_timedelta :: "int \<Rightarrow> int \<Rightarrow> int py" where
  "py_timedelta secs delta =
     (if secs + delta < DATETIME_MIN \<or> DISPLAY_MAX < secs + delta then Inl OverflowError
      else Inr (secs + delta))"

definition display_time :: "int \<Rightarrow> int \<Rightarrow> pyval py" where
  "display_time offset secs =
     py_bind (py_ctime secs) (\<lambda>shown.
     py_bind (py_strptime shown) (\<lambda>parsed.
     py_bind (if offset = 0 then Inr parsed else py_timedelta parsed offset) (\<lambda>shifted.
       Inr (PTime secs offset))))"

definition convertible :: "int \<Rightarrow> int \<Rightarrow> bool" where
  "convertible offset secs \<longleftrightarrow>
     LOCALTIME_MIN \<le> secs \<and> secs \<le> LOCALTIME_MAX \<and>
     (offset = 0 \<or> secs < DISPLAY_MIN \<or> DISPLAY_MAX < secs \<or>
      DATETIME_MIN \<le> secs + offset \<and> secs + offset \<le> DISPLAY_MAX)"

lemmas time_defs =
  py_ctime_def py_strptime_def py_timedelta_def display_time_def convertible_def

section \<open>Characteristic equations\<close>

lemma py_bind_simps [simp]:
  "py_bind (Inl e) f = Inl e" "py_bind (Inr v) f = f v"
  by (simp_all add: py_bind_def)

lemma py_bind_assoc: "py_bind (py_bind m f) g = py_bind m (\<lambda>v. py_bind (f v) g)"
  by (cases m) simp_all

lemma py_bind_eq_Inr:
  "py_bind m f = Inr r \<longleftrightarrow> (\<exists>v. m = Inr v \<and> f v = Inr r)"
  by (cases m) simp_all

lemma py_bind_eq_Inl:
  "py_bind m f = Inl e \<longleftrightarrow> m = Inl e \<or> (\<exists>v. m = Inr v \<and> f v = Inl e)"
  by (cases m) auto

lemma py_int_string_of_int [simp]: "py_int (PStr (string_of_int i)) = Inr i"
  by (simp add: parse_int_string_of_int)

lemma py_int_py_str_JInt: "py_int (PStr (py_str (PInt i))) = Inr i"
  by (simp add: parse_int_string_of_int)

lemma py_get_key:
  "py_get d k dflt =
     (case py_key d k of
        Inr v \<Rightarrow> Inr v
      | Inl e \<Rightarrow> if is_dict d then Inr dflt else Inl AttributeError)"
  by (cases d) (simp_all split: option.splits)

lemma py_key_setitem:
  assumes "py_setitem d k v = Inr d'"
  shows "py_key d' k' = (if k' = k then Inr v else py_key d k')"
  using assms by (cases d) (auto simp: update_conv')

lemma py_setitem_is_dict: "py_setitem d k v = Inr d' \<Longrightarrow> is_dict d \<and> is_dict d'"
  by (cases d) auto

lemma py_setitem_total: "is_dict d \<Longrightarrow> \<exists>d'. py_setitem d k v = Inr d'"
  by (cases d) auto

lemma py_eq_str_iff [simp]: "py_eq_str v lit \<longleftrightarrow> v = PStr lit"
  by (cases v) auto

lemma py_str_lower_eq_letter:
  assumes "lit \<in> {''a'', ''b'', ''ok''}"
  shows "lower (py_str v) = lit \<longleftrightarrow> (\<exists>s. v = PStr s \<and> lower s = lit)"
proof (cases v)
  case (PInt i)
  have "hd (string_of_int i) = CHR ''-'' \<or> is_digit (hd (string_of_int i))"
    by (simp add: string_of_int_def digits_of_ends)
  moreover have "string_of_int i \<noteq> []"
    by (simp add: string_of_int_def)
  ultimately have "ascii_lower (hd (string_of_int i)) \<notin> {CHR ''a'', CHR ''b'', CHR ''o''}"
    by (auto simp: ascii_lower_def is_digit_def digit_val_def split: if_splits)
  with \<open>string_of_int i \<noteq> []\<close> assms PInt show ?thesis
    by (cases "string_of_int i") (auto simp: lower_def)
next
  case (PList xs)
  with assms show ?thesis by (auto simp: lower_def ascii_lower_def)
next
  case (PDict kvs)
  with assms show ?thesis by (auto simp: lower_def ascii_lower_def)
qed (use assms in \<open>auto simp: lower_def ascii_lower_def\<close>)

lemma py_setitem_eq_Inl: "py_setitem d k v = Inl e \<longleftrightarrow> \<not> is_dict d \<and> e = TypeError"
  by (cases d) auto

section \<open>The exceptions of the built-ins\<close>

lemma py_len_error: "py_len v = Inl e \<Longrightarrow> e = TypeError"
  by (cases v) simp_all

lemma py_key_error: "py_key d k = Inl e \<Longrightarrow> e = KeyError \<and> is_dict d \<or> e = TypeError \<and> \<not> is_dict d"
  by (cases d) (auto split: option.splits)

lemma py_index_error: "py_index v i = Inl e \<Longrightarrow> e \<in> {IndexError, KeyError, TypeError}"
  by (cases v) (auto split: if_splits)

lemma py_int_error: "py_int v = Inl e \<Longrightarrow> e \<in> {TypeError, ValueError}"
  by (cases v) (auto split: option.splits)

lemma py_get_error: "py_get d k dflt = Inl e \<Longrightarrow> e = AttributeError \<and> \<not> is_dict d"
  by (cases d) simp_all

lemma py_range_error: "py_range v = Inl e \<Longrightarrow> e = TypeError"
  by (cases v) simp_all

lemma py_items_error: "py_items v = Inl e \<Longrightarrow> e = AttributeError \<and> \<not> is_dict v"
  by (cases v) simp_all

lemma py_in_error: "py_in k v = Inl e \<Longrightarrow> e = TypeError"
  by (cases v) simp_all

lemmas py_errors =
  py_len_error py_key_error py_index_error py_int_error py_get_error py_range_error
  py_items_error py_in_error

section \<open>Which exceptions an expression can raise\<close>

definition raises :: "'a py \<Rightarrow> py_error set \<Rightarrow> bool" where
  "raises m S = (case m of Inl e \<Rightarrow> e \<in> S | Inr v \<Rightarrow> True)"

lemma raises_Inr [simp, raises_intros]: "raises (Inr v) S"
  by (simp add: raises_def)

lemma raises_Inl [simp]: "raises (Inl e) S \<longleftrightarrow> e \<in> S"
  by (simp add: raises_def)

lemma raises_total: "raises m {} \<longleftrightarrow> \<not> isl m"
  by (cases m) simp_all

lemma raises_mono: "raises m S \<Longrightarrow> S \<subseteq> T \<Longrightarrow> raises m T"
  by (cases m) auto

lemma raisesD: "raises m S \<Longrightarrow> m = Inl e \<Longrightarrow> e \<in> S"
  by simp

lemma raises_bind [raises_intros]:
  assumes "raises m S" and "\<And>v. m = Inr v \<Longrightarrow> raises (f v) S"
  shows "raises (py_bind m f) S"
  using assms by (cases m) simp_all

lemma raises_if [raises_intros]:
  "(c \<Longrightarrow> raises a S) \<Longrightarrow> (\<not> c \<Longrightarrow> raises b S) \<Longrightarrow> raises (if c then a else b) S"
  by simp

lemma raises_py_len [raises_intros]: "TypeError \<in> S \<Longrightarrow> raises (py_len v) S"
  by (cases v) simp_all

lemma raises_py_key [raises_intros]:
  "KeyError \<in> S \<Longrightarrow> TypeError \<in> S \<Longrightarrow> raises (py_key d k) S"
  by (cases d) (simp_all split: option.splits)

lemma raises_py_index [raises_intros]:
  "IndexError \<in> S \<Longrightarrow> KeyError \<in> S \<Longrightarrow> TypeError \<in> S \<Longrightarrow> raises (py_index v i) S"
  by (cases v) simp_all

lemma raises_py_int [raises_intros]:
  "TypeError \<in> S \<Longrightarrow> ValueError \<in> S \<Longrightarrow> raises (py_int v) S"
  by (cases v) (simp_all split: option.splits)

lemma raises_py_get: "AttributeError \<in> S \<Longrightarrow> raises (py_get d k dflt) S"
  by (cases d) simp_all

lemma raises_py_get_dict [raises_intros]: "is_dict d \<Longrightarrow> raises (py_get d k dflt) S"
  by (cases d) simp_all

lemma raises_py_key_dict: "is_dict d \<Longrightarrow> KeyError \<in> S \<Longrightarrow> raises (py_key d k) S"
  by (cases d) (simp_all split: option.splits)

lemma raises_py_range [raises_intros]: "TypeError \<in> S \<Longrightarrow> raises (py_range v) S"
  by (cases v) simp_all

lemma raises_py_items_dict [raises_intros]: "is_dict d \<Longrightarrow> raises (py_items d) S"
  by (cases d) simp_all

lemma raises_py_in_dict [raises_intros]: "is_dict d \<Longrightarrow> raises (py_in k d) S"
  by (cases d) simp_all

section \<open>The exceptions of the time library\<close>

lemma display_time_cases:
  "display_time offset secs =
     (if secs < TIME_T_MIN \<or> TIME_T_MAX < secs then Inl OverflowError
      else if secs < LOCALTIME_MIN \<or> LOCALTIME_MAX < secs then Inl OSError
      else if secs < DISPLAY_MIN \<or> DISPLAY_MAX < secs then Inl ValueError
      else if offset \<noteq> 0 \<and> (secs + offset < DATETIME_MIN \<or> DISPLAY_MAX < secs + offset)
      then Inl OverflowError
      else Inr (PTime secs offset))"
  by (simp add: time_defs)

lemma display_time_convertible:
  "convertible offset secs \<longleftrightarrow> raises (display_time offset secs) {ValueError}"
  by (auto simp: display_time_cases convertible_def time_consts)

lemma raises_display_time [raises_intros]:
  "convertible offset secs \<Longrightarrow> ValueError \<in> S \<Longrightarrow> raises (display_time offset secs) S"
  by (auto simp: display_time_convertible intro: raises_mono)

lemma display_time_beyond:
  assumes "secs < LOCALTIME_MIN \<or> LOCALTIME_MAX < secs"
  shows "display_time offset secs = Inl OSError \<or> display_time offset secs = Inl OverflowError"
  using assms by (auto simp: display_time_cases)

lemma display_time_Inr:
  "display_time offset secs = Inr v \<Longrightarrow> v = PTime secs offset \<and> DISPLAY_MIN \<le> secs \<and> secs \<le> DISPLAY_MAX"
  by (auto simp: display_time_cases split: if_splits)

end
