(* ===== verification/HaTables.thy ===== *)
theory HaTables
  imports PyJson
begin

text \<open>
  The tables and the two helper classes of \<^verbatim>\<open>const.py\<close>. The values of the tables are
  members of Home Assistant's enumerations \<^verbatim>\<open>AlarmControlPanelState\<close> and
  \<^verbatim>\<open>BinarySensorDeviceClass\<close>; only the members that the tables use are constructors
  here. A Python dictionary literal is an association list in the order of the source.
\<close>

section \<open>Home Assistant's enumerations\<close>

datatype alarm_state = DISARMED | ARMING | ARMED_NIGHT | ARMED_HOME | ARMED_AWAY | TRIGGERED

datatype device_class = MOTION | DOOR | WINDOW | PROBLEM | SAFETY | PLUG | POWER

section \<open>Tables\<close>

definition STATE_ALARM_ARMING :: alarm_state where
  "STATE_ALARM_ARMING = ARMING"

definition OLARM_STATE_TO_HA :: "(string \<times> alarm_state) list" where
  "OLARM_STATE_TO_HA =
     [(''disarm'', DISARMED), (''notready'', DISARMED), (''countdown'', ARMING),
      (''sleep'', ARMED_NIGHT), (''stay'', ARMED_HOME), (''arm'', ARMED_AWAY),
      (''alarm'', TRIGGERED), (''fire'', TRIGGERED), (''emergency'', TRIGGERED)]"

definition OLARM_CHANGE_TO_HA :: "(pyval \<times> alarm_state option) list" where
  "OLARM_CHANGE_TO_HA =
     [(PStr ''area-disarm'', Some DISARMED), (PStr ''area-stay'', Some ARMED_HOME),
      (PStr ''area-sleep'', Some ARMED_NIGHT), (PStr ''area-arm'', Some ARMED_AWAY),
      (PNone, None), (PStr ''null'', None)]"

definition OLARM_ZONE_TYPE_TO_HA :: "(pyval \<times> device_class) list" where
  "OLARM_ZONE_TYPE_TO_HA =
     [(PStr [], MOTION), (PInt 0, MOTION), (PInt 10, DOOR), (PInt 11, WINDOW),
      (PInt 20, MOTION), (PInt 21, MOTION), (PInt 90, PROBLEM), (PInt 50, SAFETY),
      (PInt 51, SAFETY), (PInt 1000, PLUG), (PInt 1001, POWER)]"

lemmas table_defs [olarm_defs] =
  STATE_ALARM_ARMING_def OLARM_STATE_TO_HA_def OLARM_CHANGE_TO_HA_def OLARM_ZONE_TYPE_TO_HA_def

section \<open>\<^verbatim>\<open>TempEntry\<close> and \<^verbatim>\<open>BypassZone\<close>\<close>

record temp_entry =
  scan_interval :: int
  entry_api_key :: string

definition TempEntry :: "int \<Rightarrow> string \<Rightarrow> temp_entry" where
  "TempEntry interval key = \<lparr>scan_interval = interval, entry_api_key = key\<rparr>"

definition TempEntry_data :: "temp_entry \<Rightarrow> pyval" where
  "TempEntry_data e =
     PDict [(''scan_interval'', PInt (scan_interval e)), (''api_key'', PStr (entry_api_key e))]"

record bypass_zone_arg =
  bz_zone :: int

definition BypassZone :: "int \<Rightarrow> bypass_zone_arg" where
  "BypassZone z = \<lparr>bz_zone = z\<rparr>"

definition BypassZone_data :: "bypass_zone_arg \<Rightarrow> pyval" where
  "BypassZone_data z = PDict [(''zone_num'', PInt (bz_zone z))]"

section \<open>Facts about the tables\<close>

lemma tables_are_dicts:
  "distinct (map fst OLARM_STATE_TO_HA)" "distinct (map fst OLARM_CHANGE_TO_HA)"
  "distinct (map fst OLARM_ZONE_TYPE_TO_HA)"
  by (simp_all add: table_defs)

lemma BypassZone_zone_num [simp]: "py_key (BypassZone_data (BypassZone z)) ''zone_num'' = Inr (PInt z)"
  by (simp add: BypassZone_data_def BypassZone_def)

end
