(* ===== verification/RequestClient.thy ===== *)
theory RequestClient
  imports RateLimiter PyJson
begin

text \<open>
  The request methods of \<^verbatim>\<open>OlarmApi\<close>. One call of a method asks the limiter for a
  slot, makes at most one HTTP request and classifies the response. The network is the
  environment: the outcome of the request is an argument of the method (\<open>http_outcome\<close>),
  and the request that went out, if any, is part of its result. A method returns its
  Python result or the exception that escapes it (\<open>py_error + 'a\<close>), together with the
  limiter and the clock as it leaves them.

  \<open>ConnectorError\<close> is the outcome in which the HTTP call raises the exception class
  that the methods catch as \<^verbatim>\<open>APIClientConnectorError\<close>. \<open>resp_json\<close> is what
  \<^verbatim>\<open>response.json()\<close> does: it returns the parsed document, raises
  \<^verbatim>\<open>ContentTypeError\<close> (which the methods catch), or raises a decoding error on a
  malformed body (which they do not). Log calls are modelled only where evaluating their
  arguments can raise. The clause for \<^verbatim>\<open>APINotFoundError\<close> in
  \<^verbatim>\<open>get_changed_by_json\<close> is left out: nothing in the sources raises it.
\<close>

section \<open>The HTTP exchange\<close>

datatype json_result = Parsed pyval | ContentTypeError | Malformed

record http_response =
  resp_status :: int
  resp_text :: string
  resp_json :: json_result

datatype http_outcome = ConnectorError | Response http_response

record http_request =
  req_method :: string
  req_url :: string
  req_headers :: "(string \<times> string) list"
  req_data :: "pyval option"

type_synonym 'r call = "('r py \<times> http_request option) \<times> rate_limiter \<times> clock"

section \<open>The API object\<close>

text \<open>
  The fields that \<^verbatim>\<open>OlarmApi.__init__\<close> sets. \<open>limiter_ref\<close> is the field
  \<^verbatim>\<open>_rate_limiter\<close>: a reference to a limiter object, not a limiter. The methods
  below take the limiter that the reference points to as an argument and return it as
  they leave it; theory \<open>SharedLimiter\<close> has the constructor and the store in which
  the reference is resolved.
\<close>

record olarm_api =
  device_id :: string
  api_key :: string
  data :: "pyval list"
  bypass_data :: "pyval list"
  panel_data :: "pyval list"
  devices :: pyval
  device_name :: string
  entry :: pyval
  headers :: "(string \<times> string) list"
  limiter_ref :: nat

definition default_device_name :: string where
  "default_device_name = ''Olarm Sensors''"

definition device_url :: "olarm_api \<Rightarrow> string" where
  "device_url api = ''https://apiv4.olarm.co/api/v4/devices/'' @ device_id api"

definition actions_url :: "olarm_api \<Rightarrow> string" where
  "actions_url api = ''https://apiv4.olarm.co/api/v4/devices/'' @ device_id api @ ''/actions''"

definition devices_url :: string where
  "devices_url = ''https://apiv4.olarm.co/api/v4/devices''"

definition get_request :: "string \<Rightarrow> olarm_api \<Rightarrow> http_request" where
  "get_request url api =
     \<lparr>req_method = ''GET'', req_url = url, req_headers = headers api, req_data = None\<rparr>"

definition post_request :: "string \<Rightarrow> olarm_api \<Rightarrow> pyval \<Rightarrow> http_request" where
  "post_request url api post_data =
     \<lparr>req_method = ''POST'', req_url = url, req_headers = headers api,
      req_data = Some post_data\<rparr>"

section \<open>\<^verbatim>\<open>get_device_json\<close>\<close>

definition error_dict :: "pyval \<Rightarrow> pyval" where
  "error_dict v = PDict [(''error'', v)]"

definition rate_limited_error :: pyval where
  "rate_limited_error =
     error_dict (PStr (''Rate limited '' @ [CHR 0xE2, CHR 0x80, CHR 0x94]
       @ '' too many consecutive 429 responses''))"

definition get_device_json :: "olarm_api \<Rightarrow> http_outcome \<Rightarrow> rate_limiter \<Rightarrow> clock \<Rightarrow> pyval call" where
  "get_device_json api out rl c =
     (case wait_for_slot rl c of (allowed, rl1, c1) \<Rightarrow>
        if \<not> allowed then ((Inr rate_limited_error, None), rl1, c1)
        else
          let req = Some (get_request (device_url api) api) in
          case out of
            ConnectorError \<Rightarrow>
              ((Inr (error_dict (PExc ''APIClientConnectorError'')), req), rl1, c1)
          | Response r \<Rightarrow>
              if resp_status r = 429 then
                case record_rate_limit rl1 c1 of (rl2, c2) \<Rightarrow>
                  ((Inr (error_dict (PStr (resp_text r))), req), rl2, c2)
              else
                case resp_json r of
                  Parsed resp \<Rightarrow>
                    (case py_setitem resp ''error'' PNone of
                       Inl e \<Rightarrow> ((Inl e, req), rl1, c1)
                     | Inr resp' \<Rightarrow> ((Inr resp', req), record_success rl1, c1))
                | Malformed \<Rightarrow> ((Inl JSONDecodeError, req), rl1, c1)
                | ContentTypeError \<Rightarrow>
                    let body = resp_text r; err = Inr (error_dict (PStr body)) in
                    if contains ''forbidden'' (lower body) then ((err, req), rl1, c1)
                    else if resp_status r = 502 then ((err, req), rl1, c1)
                    else if contains ''too many requests'' (lower body) then
                      case record_rate_limit rl1 c1 of (rl2, c2) \<Rightarrow> ((err, req), rl2, c2)
                    else ((err, req), rl1, c1))"

section \<open>\<^verbatim>\<open>send_action\<close>\<close>

definition action_status :: "pyval \<Rightarrow> bool py" where
  "action_status resp =
     py_bind (py_key resp ''actionStatus'') (\<lambda>st.
       if lower (py_str st) \<noteq> ''ok'' then
         py_bind (py_key resp ''actionCmd'') (\<lambda>_.
         py_bind (py_key resp ''deviceName'') (\<lambda>_.
         py_bind (py_key resp ''actionMsg'') (\<lambda>_. Inr False)))
       else Inr True)"

definition send_action :: "olarm_api \<Rightarrow> pyval \<Rightarrow> http_outcome \<Rightarrow> rate_limiter \<Rightarrow> clock \<Rightarrow> bool call" where
  "send_action api post_data out rl c =
     (case wait_for_slot rl c of (allowed, rl1, c1) \<Rightarrow>
        if \<not> allowed then ((Inr False, None), rl1, c1)
        else
          let req = Some (post_request (actions_url api) api post_data) in
          case out of
            ConnectorError \<Rightarrow> ((Inr False, req), rl1, c1)
          | Response r \<Rightarrow>
              if resp_status r = 429 then
                case record_rate_limit rl1 c1 of (rl2, c2) \<Rightarrow> ((Inr False, req), rl2, c2)
              else
                case resp_json r of
                  Parsed resp \<Rightarrow> ((action_status resp, req), record_success rl1, c1)
                | Malformed \<Rightarrow> ((Inl JSONDecodeError, req), rl1, c1)
                | ContentTypeError \<Rightarrow>
                    (case (if contains ''too many requests'' (lower (resp_text r))
                           then record_rate_limit rl1 c1 else (rl1, c1)) of
                       (rl2, c2) \<Rightarrow>
                         ((py_bind (py_key post_data ''actionNum'') (\<lambda>_. Inr False), req),
                          rl2, c2)))"

section \<open>\<^verbatim>\<open>get_changed_by_json\<close>\<close>

definition default_change :: pyval where
  "default_change =
     PDict [(''userFullname'', PStr ''No User''), (''actionCreated'', PInt 0),
            (''actionCmd'', PNone)]"

definition non_arm_commands :: "string list" where
  "non_arm_commands = [''zone-bypass'', ''pgm-open'', ''pgm-close'', ''pgm-pulse'', ''ukey-activate'']"

definition change_matches :: "pyval \<Rightarrow> pyval \<Rightarrow> pyval \<Rightarrow> bool py" where
  "change_matches return_data area change =
     py_bind (py_key change ''actionCmd'') (\<lambda>cmd.
       if cmd \<in> PStr ` set non_arm_commands then Inr False
       else
         py_bind (py_key change ''actionNum'') (\<lambda>num.
         py_bind (py_int num) (\<lambda>n.
         py_bind (py_int area) (\<lambda>a.
           if n \<noteq> a then Inr False
           else
             py_bind (py_key return_data ''actionCreated'') (\<lambda>held.
             py_bind (py_int held) (\<lambda>h.
             py_bind (py_key change ''actionCreated'') (\<lambda>created.
             py_bind (py_int created) (\<lambda>t. Inr (h < t)))))))))"

fun select_change :: "pyval \<Rightarrow> pyval \<Rightarrow> pyval list \<Rightarrow> pyval py" where
  "select_change return_data area [] = Inr return_data"
| "select_change return_data area (change # changes) =
     py_bind (change_matches return_data area change) (\<lambda>m.
       select_change (if m then change else return_data) area changes)"

definition stamp_change :: "pyval \<Rightarrow> pyval py" where
  "stamp_change return_data =
     (case py_bind (py_bind (py_key return_data ''actionCreated'') py_int) (\<lambda>s.
             py_bind (display_time 0 s) (py_setitem return_data ''actionCreated'')) of
        Inl TypeError \<Rightarrow> Inr return_data
      | r \<Rightarrow> r)"

definition get_changed_by_json ::
  "olarm_api \<Rightarrow> pyval \<Rightarrow> http_outcome \<Rightarrow> rate_limiter \<Rightarrow> clock \<Rightarrow> pyval call" where
  "get_changed_by_json api area out rl c =
     (case wait_for_slot rl c of (allowed, rl1, c1) \<Rightarrow>
        if \<not> allowed then ((Inr default_change, None), rl1, c1)
        else
          let req = Some (get_request (actions_url api) api) in
          case out of
            ConnectorError \<Rightarrow> ((Inr default_change, req), rl1, c1)
          | Response r \<Rightarrow>
              if resp_status r = 404 then ((Inr default_change, req), record_success rl1, c1)
              else if resp_status r = 429 then
                case record_rate_limit rl1 c1 of (rl2, c2) \<Rightarrow>
                  ((Inr default_change, req), rl2, c2)
              else
                case resp_json r of
                  Parsed changes \<Rightarrow>
                    ((py_bind (py_bind (py_iter changes) (select_change default_change area))
                        stamp_change, req),
                     record_success rl1, c1)
                | Malformed \<Rightarrow> ((Inl JSONDecodeError, req), rl1, c1)
                | ContentTypeError \<Rightarrow> ((stamp_change default_change, req), rl1, c1))"

section \<open>\<^verbatim>\<open>check_credentials\<close>\<close>

definition check_credentials :: "olarm_api \<Rightarrow> http_outcome \<Rightarrow> rate_limiter \<Rightarrow> clock \<Rightarrow> pyval call" where
  "check_credentials api out rl c =
     (case get_device_json api out rl c of ((res, req), rl1, c1) \<Rightarrow>
        ((case py_bind res (\<lambda>resp.
                 py_bind (py_key resp ''error'') (\<lambda>e.
                   py_setitem resp ''auth_success'' (PBool (e = PNone)))) of
            Inl KeyError \<Rightarrow>
              Inr (PDict [(''auth_success'', PBool False), (''error'', PExc ''KeyError'')])
          | Inl IndexError \<Rightarrow>
              Inr (PDict [(''auth_success'', PBool False), (''error'', PExc ''IndexError'')])
          | r \<Rightarrow> r,
          req), rl1, c1))"

section \<open>\<^verbatim>\<open>get_all_devices\<close>\<close>

definition get_all_devices ::
  "olarm_api \<Rightarrow> http_outcome \<Rightarrow> rate_limiter \<Rightarrow> clock \<Rightarrow> olarm_api \<times> pyval call" where
  "get_all_devices api out rl c =
     (case wait_for_slot rl c of (allowed, rl1, c1) \<Rightarrow>
        if \<not> allowed then (api, (Inr (PList []), None), rl1, c1)
        else
          let req = Some (get_request devices_url api) in
          case out of
            ConnectorError \<Rightarrow> (api, (Inr (PList []), req), rl1, c1)
          | Response r \<Rightarrow>
              if resp_status r = 429 then
                case record_rate_limit rl1 c1 of (rl2, c2) \<Rightarrow>
                  (api, (Inr (PList []), req), rl2, c2)
              else
                case resp_json r of
                  Parsed olarm_resp \<Rightarrow>
                    (case py_key olarm_resp ''data'' of
                       Inl e \<Rightarrow> (api, (Inl e, req), rl1, c1)
                     | Inr d \<Rightarrow> (api\<lparr>devices := d\<rparr>, (Inr d, req), record_success rl1, c1))
                | Malformed \<Rightarrow> (api, (Inl JSONDecodeError, req), rl1, c1)
                | ContentTypeError \<Rightarrow>
                    if contains ''Forbidden'' (resp_text r) then
                      (api, (Inr (PList []), req), rl1, c1)
                    else if contains ''Too Many Requests'' (resp_text r) then
                      case record_rate_limit rl1 c1 of (rl2, c2) \<Rightarrow>
                        (api, (Inr (PList []), req), rl2, c2)
                    else (api, (Inr (PList []), req), rl1, c1))"

section \<open>Actions\<close>

definition action_payload :: "string \<Rightarrow> pyval \<Rightarrow> pyval" where
  "action_payload cmd num = PDict [(''actionCmd'', PStr cmd), (''actionNum'', num)]"

definition update_pgm :: "olarm_api \<Rightarrow> pyval \<Rightarrow> http_outcome \<Rightarrow> rate_limiter \<Rightarrow> clock \<Rightarrow> bool call" where
  "update_pgm api pgm_data = send_action api pgm_data"

definition update_ukey :: "olarm_api \<Rightarrow> pyval \<Rightarrow> http_outcome \<Rightarrow> rate_limiter \<Rightarrow> clock \<Rightarrow> bool call" where
  "update_ukey api ukey_data = send_action api ukey_data"

definition arm_area :: "olarm_api \<Rightarrow> pyval \<Rightarrow> http_outcome \<Rightarrow> rate_limiter \<Rightarrow> clock \<Rightarrow> bool call" where
  "arm_area api area = send_action api (action_payload ''area-arm'' area)"

definition sleep_area :: "olarm_api \<Rightarrow> pyval \<Rightarrow> http_outcome \<Rightarrow> rate_limiter \<Rightarrow> clock \<Rightarrow> bool call" where
  "sleep_area api area = send_action api (action_payload ''area-sleep'' area)"

definition stay_area :: "olarm_api \<Rightarrow> pyval \<Rightarrow> http_outcome \<Rightarrow> rate_limiter \<Rightarrow> clock \<Rightarrow> bool call" where
  "stay_area api area = send_action api (action_payload ''area-stay'' area)"

definition disarm_area :: "olarm_api \<Rightarrow> pyval \<Rightarrow> http_outcome \<Rightarrow> rate_limiter \<Rightarrow> clock \<Rightarrow> bool call" where
  "disarm_area api area = send_action api (action_payload ''area-disarm'' area)"

definition bypass_zone :: "olarm_api \<Rightarrow> pyval \<Rightarrow> http_outcome \<Rightarrow> rate_limiter \<Rightarrow> clock \<Rightarrow> bool call" where
  "bypass_zone api zone_data out rl c =
     (case py_key zone_data ''zone_num'' of
        Inl e \<Rightarrow> ((Inl e, None), rl, c)
      | Inr num \<Rightarrow> send_action api (action_payload ''zone-bypass'' num) out rl c)"

definition bypass_zone_with_service ::
  "olarm_api \<Rightarrow> pyval \<Rightarrow> http_outcome \<Rightarrow> rate_limiter \<Rightarrow> clock \<Rightarrow> unit call" where
  "bypass_zone_with_service api zone_data out rl c =
     (case py_key zone_data ''zone_num'' of
        Inl e \<Rightarrow> ((Inl e, None), rl, c)
      | Inr num \<Rightarrow>
          (case send_action api (action_payload ''zone-bypass'' num) out rl c of
             ((res, req), rl', c') \<Rightarrow> ((map_sum id (\<lambda>_. ()) res, req), rl', c')))"

section \<open>\<^verbatim>\<open>OlarmSetupApi\<close>\<close>

record olarm_setup_api =
  setup_data :: pyval
  setup_headers :: "(string \<times> string) list"

definition OlarmSetupApi_init :: "string \<Rightarrow> olarm_setup_api" where
  "OlarmSetupApi_init key =
     \<lparr>setup_data = PList [], setup_headers = [(''Authorization'', ''Bearer '' @ key)]\<rparr>"

definition get_olarm_devices ::
  "olarm_setup_api \<Rightarrow> http_outcome \<Rightarrow> olarm_setup_api \<times> pyval py \<times> http_request" where
  "get_olarm_devices sapi out =
     (let req = \<lparr>req_method = ''GET'', req_url = devices_url,
                  req_headers = setup_headers sapi, req_data = None\<rparr> in
      case out of
        ConnectorError \<Rightarrow> (sapi, Inr (PList []), req)
      | Response r \<Rightarrow>
          case resp_json r of
            Parsed olarm_resp \<Rightarrow>
              (case py_key olarm_resp ''data'' of
                 Inl e \<Rightarrow> (sapi, Inl e, req)
               | Inr d \<Rightarrow> (sapi\<lparr>setup_data := d\<rparr>, Inr d, req))
          | Malformed \<Rightarrow> (sapi, Inl JSONDecodeError, req)
          | ContentTypeError \<Rightarrow> (sapi, Inr (PList []), req))"

lemmas client_defs [olarm_defs] =
  get_device_json_def send_action_def get_changed_by_json_def check_credentials_def
  get_all_devices_def update_pgm_def update_ukey_def arm_area_def sleep_area_def
  stay_area_def disarm_area_def bypass_zone_def bypass_zone_with_service_def
  get_olarm_devices_def

lemmas action_defs =
  update_pgm_def update_ukey_def arm_area_def sleep_area_def stay_area_def disarm_area_def
  bypass_zone_def bypass_zone_with_service_def

lemmas request_defs =
  device_url_def actions_url_def devices_url_def get_request_def post_request_def
  error_dict_def rate_limited_error_def default_change_def action_payload_def

section \<open>What a response means for the limiter\<close>

datatype verdict = Untouched | Succeeded | Limited

fun verdict_events :: "verdict \<Rightarrow> limiter_event list" where
  "verdict_events Untouched = []"
| "verdict_events Succeeded = [RecordSuccess]"
| "verdict_events Limited = [RecordRateLimit]"

definition call_events :: "rate_limiter \<Rightarrow> verdict \<Rightarrow> limiter_event list" where
  "call_events rl v = (if slot_denied rl then [WaitForSlot] else WaitForSlot # verdict_events v)"

definition text_verdict :: "bool \<Rightarrow> verdict" where
  "text_verdict limited = (if limited then Limited else Untouched)"

definition classify_device_json :: "http_outcome \<Rightarrow> verdict" where
  "classify_device_json out =
     (case out of
        ConnectorError \<Rightarrow> Untouched
      | Response r \<Rightarrow>
          if resp_status r = 429 then Limited
          else case resp_json r of
              Parsed resp \<Rightarrow> if is_dict resp then Succeeded else Untouched
            | Malformed \<Rightarrow> Untouched
            | ContentTypeError \<Rightarrow>
                text_verdict (\<not> contains ''forbidden'' (lower (resp_text r)) \<and> resp_status r \<noteq> 502
                  \<and> contains ''too many requests'' (lower (resp_text r))))"

definition classify_send_action :: "http_outcome \<Rightarrow> verdict" where
  "classify_send_action out =
     (case out of
        ConnectorError \<Rightarrow> Untouched
      | Response r \<Rightarrow>
          if resp_status r = 429 then Limited
          else case resp_json r of
              Parsed resp \<Rightarrow> Succeeded
            | Malformed \<Rightarrow> Untouched
            | ContentTypeError \<Rightarrow>
                text_verdict (contains ''too many requests'' (lower (resp_text r))))"

definition classify_changed_by :: "http_outcome \<Rightarrow> verdict" where
  "classify_changed_by out =
     (case out of
        ConnectorError \<Rightarrow> Untouched
      | Response r \<Rightarrow>
          if resp_status r = 404 then Succeeded
          else if resp_status r = 429 then Limited
          else case resp_json r of Parsed changes \<Rightarrow> Succeeded | _ \<Rightarrow> Untouched)"

definition classify_all_devices :: "http_outcome \<Rightarrow> verdict" where
  "classify_all_devices out =
     (case out of
        ConnectorError \<Rightarrow> Untouched
      | Response r \<Rightarrow>
          if resp_status r = 429 then Limited
          else case resp_json r of
              Parsed olarm_resp \<Rightarrow>
                (case py_key olarm_resp ''data'' of Inr d \<Rightarrow> Succeeded | Inl e \<Rightarrow> Untouched)
            | Malformed \<Rightarrow> Untouched
            | ContentTypeError \<Rightarrow>
                text_verdict (\<not> contains ''Forbidden'' (resp_text r)
                  \<and> contains ''Too Many Requests'' (resp_text r)))"

lemmas classify_defs =
  classify_device_json_def classify_send_action_def classify_changed_by_def
  classify_all_devices_def text_verdict_def

lemma run_call_events:
  "limiter_run (rl, c) (call_events rl v) =
     (if slot_denied rl then (rl, c)
      else limiter_run (snd (wait_for_slot rl c)) (verdict_events v))"
  by (simp add: call_events_def wait_for_slot_denied)

lemma wait_for_slot_cases:
  obtains (denied) "slot_denied rl" "wait_for_slot rl c = (False, rl, c)"
  | (granted) rl1 c1 where "\<not> slot_denied rl" "wait_for_slot rl c = (True, rl1, c1)"
  by (cases "slot_denied rl") (auto simp: wait_for_slot_denied wait_for_slot_granted)

lemma get_device_json_limiter:
  "snd (get_device_json api out rl c) = limiter_run (rl, c) (call_events rl (classify_device_json out))"
proof (cases rl c rule: wait_for_slot_cases)
  case denied
  then show ?thesis
    by (simp add: get_device_json_def run_call_events)
next
  case (granted rl1 c1)
  then show ?thesis
    by (cases "record_rate_limit rl1 c1")
       (auto simp: get_device_json_def run_call_events classify_defs Let_def
             dest: py_setitem_is_dict simp: py_setitem_eq_Inl
             split: http_outcome.splits json_result.splits sum.splits)
qed

lemma send_action_limiter:
  "snd (send_action api pd out rl c) = limiter_run (rl, c) (call_events rl (classify_send_action out))"
proof (cases rl c rule: wait_for_slot_cases)
  case denied
  then show ?thesis
    by (simp add: send_action_def run_call_events)
next
  case (granted rl1 c1)
  then show ?thesis
    by (cases "record_rate_limit rl1 c1")
       (auto simp: send_action_def run_call_events classify_defs Let_def
             split: http_outcome.splits json_result.splits sum.splits)
qed

lemma get_changed_by_json_limiter:
  "snd (get_changed_by_json api area out rl c)
     = limiter_run (rl, c) (call_events rl (classify_changed_by out))"
proof (cases rl c rule: wait_for_slot_cases)
  case denied
  then show ?thesis
    by (simp add: get_changed_by_json_def run_call_events)
next
  case (granted rl1 c1)
  then show ?thesis
    by (cases "record_rate_limit rl1 c1")
       (auto simp: get_changed_by_json_def run_call_events classify_defs Let_def
             split: http_outcome.splits json_result.splits sum.splits)
qed

lemma get_all_devices_limiter:
  "snd (snd (get_all_devices api out rl c))
     = limiter_run (rl, c) (call_events rl (classify_all_devices out))"
proof (cases rl c rule: wait_for_slot_cases)
  case denied
  then show ?thesis
    by (simp add: get_all_devices_def run_call_events)
next
  case (granted rl1 c1)
  then show ?thesis
    by (cases "record_rate_limit rl1 c1")
       (auto simp: get_all_devices_def run_call_events classify_defs Let_def
             split: http_outcome.splits json_result.splits sum.splits)
qed

lemma check_credentials_limiter:
  "snd (check_credentials api out rl c) = snd (get_device_json api out rl c)"
  by (simp add: check_credentials_def split: prod.splits)

section \<open>Sample values\<close>

definition demo_api :: olarm_api where
  "demo_api =
     \<lparr>device_id = ''device-1'', api_key = ''key-1'', data = [], bypass_data = [],
      panel_data = [], devices = PList [], device_name = default_device_name, entry = PNone,
      headers = [(''Authorization'', ''Bearer key-1''), (''User-Agent'', ''Home Assistant'')],
      limiter_ref = 0\<rparr>"

definition throttled :: http_outcome where
  "throttled = Response \<lparr>resp_status = 429, resp_text = ''Too Many Requests'',
     resp_json = ContentTypeError\<rparr>"

section \<open>Properties of the request methods\<close>

lemma granted_call:
  assumes "\<not> slot_denied rl"
  obtains rl1 c1 where "wait_for_slot rl c = (True, rl1, c1)"
  using assms by (simp add: wait_for_slot_granted)

text \<open>
  Claim C11. A call that the limiter denies makes no HTTP request, returns the safe
  value of its method and leaves the limiter and the clock as they were; a call that
  is granted sends exactly the one request of its method.
\<close>

theorem denied_sends_nothing:
  "(slot_denied rl \<longrightarrow>
      get_device_json api out rl c = ((Inr rate_limited_error, None), rl, c) \<and>
      get_changed_by_json api area out rl c = ((Inr default_change, None), rl, c) \<and>
      send_action api post_data out rl c = ((Inr False, None), rl, c) \<and>
      get_all_devices api out rl c = (api, (Inr (PList []), None), rl, c)) \<and>
   (\<not> slot_denied rl \<longrightarrow>
      snd (fst (get_device_json api out rl c)) = Some (get_request (device_url api) api) \<and>
      snd (fst (get_changed_by_json api area out rl c)) = Some (get_request (actions_url api) api) \<and>
      snd (fst (send_action api post_data out rl c))
        = Some (post_request (actions_url api) api post_data) \<and>
      snd (fst (snd (get_all_devices api out rl c))) = Some (get_request devices_url api))"
proof (cases rl c rule: wait_for_slot_cases)
  case denied
  then show ?thesis
    by (simp add: client_defs)
next
  case (granted rl1 c1)
  then show ?thesis
    by (cases "record_rate_limit rl1 c1")
       (simp add: client_defs Let_def split: http_outcome.splits json_result.splits sum.splits)
qed

theorem denied_sends_nothing_witness:
  "slot_denied (new_limiter\<lparr>consecutive_429s := 3\<rparr>) \<and>
   send_action demo_api (action_payload ''area-arm'' (PInt 1)) throttled
       (new_limiter\<lparr>consecutive_429s := 3\<rparr>) \<lparr>now = 100, drift = []\<rparr>
     = ((Inr False, None), new_limiter\<lparr>consecutive_429s := 3\<rparr>, \<lparr>now = 100, drift = []\<rparr>)"
  using denied_sends_nothing [of "new_limiter\<lparr>consecutive_429s := 3\<rparr>"]
  by (simp add: slot_denied_def new_limiter_def init_limiter_def rate_limit_consts)

lemma send_action_request:
  "snd (fst (send_action api post_data out rl c)) =
     (if slot_denied rl then None else Some (post_request (actions_url api) api post_data))"
proof (cases rl c rule: wait_for_slot_cases)
  case denied
  then show ?thesis
    by (simp add: send_action_def)
next
  case (granted rl1 c1)
  then show ?thesis
    by (cases "record_rate_limit rl1 c1")
       (simp add: send_action_def Let_def split: http_outcome.splits json_result.splits)
qed

lemma send_action_result:
  "fst (fst (send_action api post_data out rl c)) =
     (if slot_denied rl then Inr False
      else case out of
        ConnectorError \<Rightarrow> Inr False
      | Response r \<Rightarrow>
          if resp_status r = 429 then Inr False
          else case resp_json r of
            Parsed resp \<Rightarrow> action_status resp
          | Malformed \<Rightarrow> Inl JSONDecodeError
          | ContentTypeError \<Rightarrow> py_bind (py_key post_data ''actionNum'') (\<lambda>_. Inr False))"
proof (cases rl c rule: wait_for_slot_cases)
  case denied
  then show ?thesis
    by (simp add: send_action_def)
next
  case (granted rl1 c1)
  then show ?thesis
    by (cases "record_rate_limit rl1 c1")
       (simp add: send_action_def Let_def split: http_outcome.splits json_result.splits)
qed

text \<open>
  Claim C12. \<^verbatim>\<open>send_action\<close> reports success exactly when the limiter granted the
  slot, the response was not a 429, its body was a JSON document and the string form of
  the document's \<^verbatim>\<open>actionStatus\<close> is \<^verbatim>\<open>ok\<close> in any letter case.
\<close>

theorem send_action_true_iff:
  "fst (fst (send_action api post_data out rl c)) = Inr True \<longleftrightarrow>
     \<not> slot_denied rl \<and>
     (\<exists>r resp st. out = Response r \<and> resp_status r \<noteq> 429 \<and> resp_json r = Parsed resp \<and>
        py_key resp ''actionStatus'' = Inr st \<and> lower (py_str st) = ''ok'')"
  by (auto simp: send_action_result action_status_def py_bind_eq_Inr
           split: http_outcome.splits json_result.splits if_splits)

text \<open>
  Claim C13. \<^verbatim>\<open>send_action\<close> raises \<^verbatim>\<open>KeyError\<close> when the vendor reports a
  failed action in a document that lacks \<^verbatim>\<open>actionCmd\<close>: the arguments of the error
  log are evaluated outside any handler that catches it.
\<close>

theorem send_action_raises_KeyError:
  assumes "\<not> slot_denied rl" and "resp_status r \<noteq> 429"
    and "resp_json r = Parsed (PDict kvs)"
    and "map_of kvs ''actionStatus'' = Some st" and "lower (py_str st) \<noteq> ''ok''"
    and "map_of kvs ''actionCmd'' = None"
  shows "fst (fst (send_action api post_data (Response r) rl c)) = Inl KeyError"
  using assms by (simp add: send_action_result action_status_def)

definition failed_action :: http_response where
  "failed_action =
     \<lparr>resp_status = 200, resp_text = [],
      resp_json = Parsed (PDict [(''actionStatus'', PStr ''error'')])\<rparr>"

theorem send_action_raises_KeyError_witness:
  "fst (fst (send_action demo_api (action_payload ''area-arm'' (PInt 1))
       (Response failed_action) new_limiter \<lparr>now = 100, drift = []\<rparr>)) = Inl KeyError"
  using send_action_raises_KeyError [of new_limiter failed_action
      "[(''actionStatus'', PStr ''error'')]" "PStr ''error''"]
  by (simp add: failed_action_def slot_denied_def new_limiter_def init_limiter_def
        rate_limit_consts lower_def ascii_lower_def)

lemma call_limiter_counter:
  "consecutive_429s (fst (limiter_run (rl, c) (call_events rl v))) =
     (if slot_denied rl then consecutive_429s rl
      else case v of Untouched \<Rightarrow> consecutive_429s rl | Succeeded \<Rightarrow> 0
           | Limited \<Rightarrow> consecutive_429s rl + 1)"
  by (cases v) (simp_all add: call_events_def run_counter)

text \<open>
  Claim C15. The device list and the device state classify a text body differently:
  \<^verbatim>\<open>get_device_json\<close> lower-cases the body before it looks for the throttling
  message, \<^verbatim>\<open>get_all_devices\<close> does not. A body that carries the message in another
  letter case counts as a rate limit for the one and leaves the limiter untouched for
  the other.
\<close>

theorem list_devices_case_sensitive:
  assumes "\<not> slot_denied rl" and "resp_status r \<noteq> 429" and "resp_status r \<noteq> 502"
    and "resp_json r = ContentTypeError"
    and "contains ''too many requests'' (lower (resp_text r))"
    and "\<not> contains ''forbidden'' (lower (resp_text r))"
    and "\<not> contains ''Too Many Requests'' (resp_text r)"
  shows "consecutive_429s (fst (snd (get_device_json api (Response r) rl c)))
           = consecutive_429s rl + 1 \<and>
         consecutive_429s (fst (snd (snd (get_all_devices api (Response r) rl c))))
           = consecutive_429s rl"
  using assms
  by (simp add: get_device_json_limiter get_all_devices_limiter call_limiter_counter
        classify_defs)

definition mixed_case_throttle :: http_response where
  "mixed_case_throttle =
     \<lparr>resp_status = 200, resp_text = ''Too many requests'', resp_json = ContentTypeError\<rparr>"

theorem list_devices_case_sensitive_witness:
  "consecutive_429s (fst (snd (get_device_json demo_api (Response mixed_case_throttle)
       new_limiter \<lparr>now = 100, drift = []\<rparr>))) = 1 \<and>
   consecutive_429s (fst (snd (snd (get_all_devices demo_api (Response mixed_case_throttle)
       new_limiter \<lparr>now = 100, drift = []\<rparr>)))) = 0"
  using list_devices_case_sensitive [of new_limiter mixed_case_throttle demo_api
      "\<lparr>now = 100, drift = []\<rparr>"]
  by (simp add: mixed_case_throttle_def slot_denied_def new_limiter_def init_limiter_def
        rate_limit_consts lower_def ascii_lower_def)

section \<open>The latest change of an area\<close>

definition created :: "pyval \<Rightarrow> int" where
  "created v = (case py_bind (py_key v ''actionCreated'') py_int of Inr t \<Rightarrow> t | Inl e \<Rightarrow> 0)"

definition eligible :: "pyval \<Rightarrow> pyval \<Rightarrow> bool" where
  "eligible area change \<longleftrightarrow>
     (case py_key change ''actionCmd'' of
        Inl e \<Rightarrow> False
      | Inr cmd \<Rightarrow> cmd \<notin> PStr ` set non_arm_commands \<and>
          (case (py_bind (py_key change ''actionNum'') py_int, py_int area) of
             (Inr n, Inr a) \<Rightarrow> n = a
           | _ \<Rightarrow> False))"

lemma change_matches_True:
  assumes "change_matches d area ch = Inr True"
  shows "eligible area ch \<and> created d < created ch"
  using assms
  by (auto simp: change_matches_def eligible_def created_def py_bind_eq_Inr
           split: if_splits)

lemma change_matches_False:
  assumes "change_matches d area ch = Inr False" and "eligible area ch"
  shows "created ch \<le> created d"
  using assms
  by (auto simp: change_matches_def eligible_def created_def py_bind_eq_Inr
           split: if_splits sum.splits)

text \<open>
  Claim C16. The loop of \<^verbatim>\<open>get_changed_by_json\<close> selects the latest change of the
  area: when it ends without raising, its result is the record it started from or an
  eligible entry of the list (one whose command is not a bypass, PGM or utility key
  action and whose \<^verbatim>\<open>actionNum\<close> is the area), and no eligible entry of the list
  is later than the result.
\<close>

theorem latest_change_selected:
  assumes "select_change d area changes = Inr res"
  shows "(res = d \<or> res \<in> set changes \<and> eligible area res) \<and> created d \<le> created res \<and>
         (\<forall>ch \<in> set changes. eligible area ch \<longrightarrow> created ch \<le> created res)"
  using assms
proof (induction changes arbitrary: d)
  case Nil
  then show ?case by simp
next
  case (Cons ch changes)
  from Cons.prems obtain m where m: "change_matches d area ch = Inr m"
    and rest: "select_change (if m then ch else d) area changes = Inr res"
    by (auto simp: py_bind_eq_Inr)
  note IH = Cons.IH [OF rest]
  show ?case
  proof (cases m)
    case True
    with m have "eligible area ch" "created d < created ch"
      by (simp_all add: change_matches_True)
    with IH True show ?thesis
      by auto
  next
    case False
    with m have "eligible area ch \<Longrightarrow> created ch \<le> created d"
      by (simp add: change_matches_False)
    with IH False show ?thesis
      by auto
  qed
qed

definition demo_changes :: "pyval list" where
  "demo_changes =
     [PDict [(''actionCmd'', PStr ''area-arm''), (''actionNum'', PInt 1),
             (''actionCreated'', PInt 1700000000), (''userFullname'', PStr ''Ann'')],
      PDict [(''actionCmd'', PStr ''zone-bypass''), (''actionNum'', PInt 1),
             (''actionCreated'', PInt 1700000900), (''userFullname'', PStr ''Bob'')],
      PDict [(''actionCmd'', PStr ''area-disarm''), (''actionNum'', PStr ''1''),
             (''actionCreated'', PInt 1700000500), (''userFullname'', PStr ''Cat'')]]"

lemma demo_changes_selected:
  "select_change default_change (PInt 1) demo_changes = Inr (demo_changes ! 2)"
  by (simp add: demo_changes_def default_change_def change_matches_def non_arm_commands_def
        parse_int_def strip_def is_space_def parse_digits_def digit_val_def)

theorem latest_change_selected_witness:
  "select_change default_change (PInt 1) demo_changes = Inr (demo_changes ! 2) \<and>
   created default_change \<le> created (demo_changes ! 2)"
  using latest_change_selected [OF demo_changes_selected] demo_changes_selected
  by blast

section \<open>\<^verbatim>\<open>check_credentials\<close>\<close>

lemma get_device_json_result:
  "fst (fst (get_device_json api out rl c)) =
     (if slot_denied rl then Inr rate_limited_error
      else case out of
        ConnectorError \<Rightarrow> Inr (error_dict (PExc ''APIClientConnectorError''))
      | Response r \<Rightarrow>
          if resp_status r = 429 then Inr (error_dict (PStr (resp_text r)))
          else case resp_json r of
            Parsed resp \<Rightarrow> py_setitem resp ''error'' PNone
          | Malformed \<Rightarrow> Inl JSONDecodeError
          | ContentTypeError \<Rightarrow> Inr (error_dict (PStr (resp_text r))))"
proof (cases rl c rule: wait_for_slot_cases)
  case denied
  then show ?thesis
    by (simp add: get_device_json_def)
next
  case (granted rl1 c1)
  then show ?thesis
    by (cases "record_rate_limit rl1 c1")
       (simp add: get_device_json_def Let_def
          split: http_outcome.splits json_result.splits sum.splits)
qed

lemma check_credentials_result:
  "fst (fst (check_credentials api out rl c)) =
     (case py_bind (fst (fst (get_device_json api out rl c))) (\<lambda>resp.
             py_bind (py_key resp ''error'') (\<lambda>e.
               py_setitem resp ''auth_success'' (PBool (e = PNone)))) of
        Inl KeyError \<Rightarrow>
          Inr (PDict [(''auth_success'', PBool False), (''error'', PExc ''KeyError'')])
      | Inl IndexError \<Rightarrow>
          Inr (PDict [(''auth_success'', PBool False), (''error'', PExc ''IndexError'')])
      | r \<Rightarrow> r)"
  by (simp add: check_credentials_def split: prod.splits)

lemma mark_credentials:
  "py_bind (py_setitem resp ''error'' PNone) (\<lambda>resp.
       py_bind (py_key resp ''error'') (\<lambda>e.
         py_setitem resp ''auth_success'' (PBool (e = PNone)))) =
     (case resp of
        PDict kvs \<Rightarrow>
          Inr (PDict (AList.update ''auth_success'' (PBool True)
                 (AList.update ''error'' PNone kvs)))
      | _ \<Rightarrow> Inl TypeError)"
  by (cases resp) (simp_all add: update_conv')

text \<open>
  Claim C17. \<^verbatim>\<open>check_credentials\<close> reports \<^verbatim>\<open>auth_success\<close> exactly when the
  limiter granted the slot and the vendor answered with a JSON object under a status
  other than 429; every other outcome that returns reports a failure.
\<close>

theorem credentials_accepted_iff:
  "py_bind (fst (fst (check_credentials api out rl c))) (\<lambda>v. py_key v ''auth_success'')
     = Inr (PBool True) \<longleftrightarrow>
   \<not> slot_denied rl \<and>
   (\<exists>r resp. out = Response r \<and> resp_status r \<noteq> 429 \<and> resp_json r = Parsed resp \<and>
      is_dict resp)"
  by (auto simp: check_credentials_result get_device_json_result request_defs
        mark_credentials update_conv'
        split: http_outcome.splits json_result.splits pyval.splits)

section \<open>The time of the last change\<close>

lemma get_changed_by_json_result:
  "fst (fst (get_changed_by_json api area out rl c)) =
     (if slot_denied rl then Inr default_change
      else case out of
        ConnectorError \<Rightarrow> Inr default_change
      | Response r \<Rightarrow>
          if resp_status r = 404 \<or> resp_status r = 429 then Inr default_change
          else case resp_json r of
            Parsed changes \<Rightarrow>
              py_bind (py_bind (py_iter changes) (select_change default_change area))
                stamp_change
          | Malformed \<Rightarrow> Inl JSONDecodeError
          | ContentTypeError \<Rightarrow> stamp_change default_change)"
proof (cases rl c rule: wait_for_slot_cases)
  case denied
  then show ?thesis
    by (simp add: get_changed_by_json_def)
next
  case (granted rl1 c1)
  then show ?thesis
    by (cases "record_rate_limit rl1 c1")
       (simp add: get_changed_by_json_def Let_def split: http_outcome.splits json_result.splits)
qed

lemma stamp_change_cases:
  assumes "py_key return_data ''actionCreated'' = Inr (PInt s)"
  shows "stamp_change return_data =
     py_bind (display_time 0 s) (py_setitem return_data ''actionCreated'')"
proof (cases "display_time 0 s")
  case (Inl e)
  then have "e \<noteq> TypeError"
    by (auto simp: display_time_cases split: if_splits)
  with Inl assms show ?thesis
    by (cases e) (simp_all add: stamp_change_def)
next
  case (Inr v)
  from assms have "is_dict return_data"
    by (cases return_data) simp_all
  then obtain d where "py_setitem return_data ''actionCreated'' v = Inr d"
    using py_setitem_total by blast
  with Inr assms show ?thesis
    by (simp add: stamp_change_def)
qed

text \<open>
  Claim C34. \<^verbatim>\<open>get_changed_by_json\<close> raises \<^verbatim>\<open>ValueError\<close> when the change it has
  selected carries a time whose year has more than four digits, as a time in
  milliseconds has: \<^verbatim>\<open>strptime\<close> rejects the text of \<^verbatim>\<open>time.ctime\<close>, and the
  handler around the conversion catches \<^verbatim>\<open>TypeError\<close> only. The limiter has
  recorded the success before.
\<close>

theorem change_stamp_raises:
  assumes "\<not> slot_denied rl" and "resp_status r \<noteq> 404" and "resp_status r \<noteq> 429"
    and "resp_json r = Parsed changes"
    and "py_bind (py_iter changes) (select_change default_change area) = Inr chosen"
    and "py_key chosen ''actionCreated'' = Inr (PInt s)"
    and "DISPLAY_MAX < s" and "s \<le> LOCALTIME_MAX"
  shows "fst (fst (get_changed_by_json api area (Response r) rl c)) = Inl ValueError \<and>
         consecutive_429s (fst (snd (get_changed_by_json api area (Response r) rl c))) = 0"
proof -
  from assms(7,8) have "display_time 0 s = Inl ValueError"
    by (simp add: display_time_cases time_consts)
  with assms(1-6) show ?thesis
    by (simp add: get_changed_by_json_result stamp_change_cases get_changed_by_json_limiter
          call_limiter_counter classify_defs)
qed

definition millisecond_change :: http_response where
  "millisecond_change =
     \<lparr>resp_status = 200, resp_text = [],
      resp_json = Parsed (PList [PDict [(''actionCmd'', PStr ''area-arm''),
        (''actionNum'', PInt 1), (''actionCreated'', PInt 1700000000000),
        (''userFullname'', PStr ''Ann'')]])\<rparr>"

theorem change_stamp_raises_witness:
  "fst (fst (get_changed_by_json demo_api (PInt 1) (Response millisecond_change) new_limiter
       \<lparr>now = 100, drift = []\<rparr>)) = Inl ValueError"
  using change_stamp_raises [of new_limiter millisecond_change _ "PInt 1"
      "PDict [(''actionCmd'', PStr ''area-arm''), (''actionNum'', PInt 1),
              (''actionCreated'', PInt 1700000000000), (''userFullname'', PStr ''Ann'')]"
      1700000000000 demo_api "\<lparr>now = 100, drift = []\<rparr>"]
  by (simp add: millisecond_change_def slot_denied_def new_limiter_def init_limiter_def
        rate_limit_consts default_change_def change_matches_def non_arm_commands_def
        time_consts)

end
