(* ===== verification/ClientSession.thy ===== *)
theory ClientSession
  imports RequestClient
begin

text \<open>
  Sequences of calls. A client is a device object of \<^verbatim>\<open>OlarmApi\<close> together with
  the limiter of its API key and the clock; \<open>client_step\<close> runs one request method
  on it, from its first line to its return, or starts a new polling cycle: the calls of
  a session do not overlap (theory \<open>Interleaving\<close> has those that do). The lemmas relate a session to the run of limiter
  events it causes and derive what holds for every session: the spacing of the requests
  and the bounds on the limiter's state.
\<close>

section \<open>The client as a state machine\<close>

datatype client_call =
    GetDeviceJson http_outcome
  | CheckCredentials http_outcome
  | GetChangedBy pyval http_outcome
  | SendAction pyval http_outcome
  | GetAllDevices http_outcome
  | NewCycle

type_synonym client_state = "olarm_api \<times> limiter_state"

fun client_step :: "client_state \<Rightarrow> client_call \<Rightarrow> client_state" where
  "client_step (api, rl, c) (GetDeviceJson out) = (api, snd (get_device_json api out rl c))"
| "client_step (api, rl, c) (CheckCredentials out) = (api, snd (check_credentials api out rl c))"
| "client_step (api, rl, c) (GetChangedBy area out) =
     (api, snd (get_changed_by_json api area out rl c))"
| "client_step (api, rl, c) (SendAction post_data out) =
     (api, snd (send_action api post_data out rl c))"
| "client_step (api, rl, c) (GetAllDevices out) =
     (fst (get_all_devices api out rl c), snd (snd (get_all_devices api out rl c)))"
| "client_step (api, rl, c) NewCycle = (api, reset_cycle rl, c)"

fun call_trace :: "rate_limiter \<Rightarrow> client_call \<Rightarrow> limiter_event list" where
  "call_trace rl (GetDeviceJson out) = call_events rl (classify_device_json out)"
| "call_trace rl (CheckCredentials out) = call_events rl (classify_device_json out)"
| "call_trace rl (GetChangedBy area out) = call_events rl (classify_changed_by out)"
| "call_trace rl (SendAction post_data out) = call_events rl (classify_send_action out)"
| "call_trace rl (GetAllDevices out) = call_events rl (classify_all_devices out)"
| "call_trace rl NewCycle = [ResetCycle]"

definition sends_request :: "rate_limiter \<Rightarrow> client_call \<Rightarrow> bool" where
  "sends_request rl call \<longleftrightarrow> call \<noteq> NewCycle \<and> \<not> slot_denied rl"

fun request_times :: "client_state \<Rightarrow> client_call list \<Rightarrow> time list" where
  "request_times s [] = []"
| "request_times s (call # calls) =
     (if sends_request (fst (snd s)) call
      then last_request_time (fst (snd (client_step s call))) # request_times (client_step s call) calls
      else request_times (client_step s call) calls)"

inductive client_reach :: "client_state \<Rightarrow> client_state \<Rightarrow> bool" for s0 where
  reach_start: "client_reach s0 s0"
| reach_call: "client_reach s0 s \<Longrightarrow> client_reach s0 (client_step s call)"

definition client_inv :: "limiter_state \<Rightarrow> bool" where
  "client_inv s \<longleftrightarrow>
     wf_clock (snd s) \<and> consecutive_429s (fst s) \<le> API_MAX_CONSECUTIVE_429 \<and>
     last_request_time (fst s) \<le> now (snd s) \<and>
     backoff_until (fst s) \<le> now (snd s) + real (backoff_seconds API_MAX_CONSECUTIVE_429)"

lemma client_step_trace:
  "snd (client_step (api, rl, c) call) = limiter_run (rl, c) (call_trace rl call)"
  by (cases call)
     (simp_all add: get_device_json_limiter check_credentials_limiter send_action_limiter
        get_changed_by_json_limiter get_all_devices_limiter reset_cycle_def record_success_def)

lemma verdict_step_inv:
  assumes "client_inv (rl, c)" and "consecutive_429s rl < API_MAX_CONSECUTIVE_429"
  shows "client_inv (limiter_run (rl, c) (verdict_events v))"
proof (cases v)
  case Limited
  from assms(1) have "now c \<le> now (tick c)" "wf_clock (tick c)"
    by (simp_all add: client_inv_def clock_simps)
  moreover from assms(2)
  have "backoff_seconds (Suc (consecutive_429s rl)) \<le> backoff_seconds API_MAX_CONSECUTIVE_429"
    by (intro backoff_seconds_mono) simp
  ultimately show ?thesis
    using assms Limited
    by (auto simp: client_inv_def record_rate_limit_def monotonic_def Let_def)
qed (use assms in \<open>auto simp: client_inv_def record_success_def\<close>)

lemma wait_for_slot_client_inv:
  assumes "client_inv (rl, c)"
  shows "client_inv (snd (wait_for_slot rl c))"
proof (cases "slot_denied rl")
  case True
  with assms show ?thesis by (simp add: wait_for_slot_denied)
next
  case False
  from assms have "wf_clock c" by (simp add: client_inv_def)
  from wait_for_slot_clock [OF this, of rl] assms False show ?thesis
    by (simp add: client_inv_def wait_for_slot_granted)
qed

lemma call_events_inv:
  assumes "client_inv (rl, c)"
  shows "client_inv (limiter_run (rl, c) (call_events rl v))"
proof (cases "slot_denied rl")
  case True
  with assms show ?thesis by (simp add: run_call_events)
next
  case False
  then have "consecutive_429s (fst (snd (wait_for_slot rl c))) < API_MAX_CONSECUTIVE_429"
    by (simp add: wait_for_slot_granted slot_denied_def)
  with wait_for_slot_client_inv [OF assms] False show ?thesis
    using verdict_step_inv [of "fst (snd (wait_for_slot rl c))" "snd (snd (wait_for_slot rl c))" v]
    by (simp add: run_call_events)
qed

lemma client_step_inv:
  "client_inv (snd s) \<Longrightarrow> client_inv (snd (client_step s call))"
proof (cases s)
  case (fields api rl c)
  assume "client_inv (snd s)"
  with fields show ?thesis
    unfolding fields client_step_trace
    by (cases call) (auto simp: call_events_inv, auto simp: client_inv_def reset_cycle_def)
qed

lemma verdict_events_last_request [simp]:
  "last_request_time (fst (limiter_run s (verdict_events v))) = last_request_time (fst s)"
  by (cases s; cases v) (auto simp: record_success_def record_rate_limit_def monotonic_def Let_def)

lemma client_step_wf: "wf_clock (snd (snd s)) \<Longrightarrow> wf_clock (snd (snd (client_step s call)))"
  by (cases s) (simp add: client_step_trace limiter_run_wf del: client_step.simps)

lemma client_step_min_gap [simp]:
  "min_gap (fst (snd (client_step s call))) = min_gap (fst (snd s))"
  by (cases s) (simp add: client_step_trace del: client_step.simps)

lemma client_step_idle:
  assumes "\<not> sends_request (fst (snd s)) call"
  shows "last_request_time (fst (snd (client_step s call))) = last_request_time (fst (snd s))"
proof (cases s)
  case (fields api rl c)
  with assms show ?thesis
    unfolding fields client_step_trace
    by (cases call) (auto simp: sends_request_def run_call_events reset_cycle_def)
qed

lemma client_step_sends:
  assumes "sends_request (fst (snd s)) call" and "wf_clock (snd (snd s))"
  shows "last_request_time (fst (snd s)) + min_gap (fst (snd s))
           \<le> last_request_time (fst (snd (client_step s call)))"
proof (cases s)
  case (fields api rl c)
  with assms have granted: "\<not> slot_denied rl" and wf: "wf_clock c"
    by (simp_all add: sends_request_def)
  from granted_not_before_earliest [OF wf granted]
  have "last_request_time rl + min_gap rl \<le> last_request_time (fst (snd (wait_for_slot rl c)))"
    using granted by (simp add: wait_for_slot_granted earliest_slot_def)
  with assms(1) granted show ?thesis
    unfolding fields client_step_trace
    by (cases call) (auto simp: run_call_events sends_request_def)
qed

text \<open>
  Claim C9. Consecutive requests of one client are at least the minimum gap apart: in
  any sequence of calls of the request methods and cycle resets in which each call ends
  before the next begins, with any responses and any clock drift, the times at which
  the requests go out, preceded by the time of the last request before the sequence,
  are pairwise successively separated by \<^verbatim>\<open>min_gap\<close>.
\<close>

theorem requests_spaced:
  assumes "wf_clock (snd (snd s))"
  shows "successively (\<lambda>t t'. t + min_gap (fst (snd s)) \<le> t')
           (last_request_time (fst (snd s)) # request_times s calls)"
  using assms
proof (induction calls arbitrary: s)
  case Nil
  show ?case by simp
next
  case (Cons call calls)
  let ?s' = "client_step s call"
  from Cons.prems have wf': "wf_clock (snd (snd ?s'))"
    by (rule client_step_wf)
  note IH = Cons.IH [OF wf']
  show ?case
  proof (cases "sends_request (fst (snd s)) call")
    case True
    with client_step_sends [OF True Cons.prems] IH show ?thesis
      by (simp del: client_step.simps)
  next
    case False
    with client_step_idle [OF False] IH show ?thesis
      by (simp del: client_step.simps)
  qed
qed

lemma demo_run:
  "request_times (demo_api, new_limiter, \<lparr>now = 100, drift = []\<rparr>)
     [GetDeviceJson throttled, NewCycle, GetDeviceJson ConnectorError] = [100, 160]"
  by (simp add: sends_request_def throttled_def client_defs limiter_defs clock_defs
      rate_limit_consts backoff_seconds_def Let_def)

theorem requests_spaced_witness:
  "wf_clock (snd (snd (demo_api, new_limiter, \<lparr>now = 100, drift = []\<rparr>))) \<and>
   successively (\<lambda>t t'. t + min_gap (fst (snd (demo_api, new_limiter, \<lparr>now = 100, drift = []\<rparr>))) \<le> t')
     (last_request_time (fst (snd (demo_api, new_limiter, \<lparr>now = 100, drift = []\<rparr>)))
      # request_times (demo_api, new_limiter, \<lparr>now = 100, drift = []\<rparr>)
          [GetDeviceJson throttled, NewCycle, GetDeviceJson ConnectorError])"
proof -
  have wf: "wf_clock (snd (snd (demo_api, new_limiter, \<lparr>now = 100, drift = []\<rparr>)))"
    by (simp add: wf_clock_def)
  from requests_spaced [OF wf] wf show ?thesis
    by blast
qed

lemma reach_inv: "client_reach s0 s \<Longrightarrow> client_inv (snd s0) \<Longrightarrow> client_inv (snd s)"
  by (induction rule: client_reach.induct) (auto simp: client_step_inv)

lemma client_inv_init: "wf_clock c \<Longrightarrow> 0 \<le> now c \<Longrightarrow> client_inv (new_limiter, c)"
  by (simp add: client_inv_def limiter_defs)

text \<open>
  Claim C10. In every state that a client reaches from a fresh limiter by calls of the
  request methods and cycle resets, one after the other and whatever the responses, the
  counter of consecutive 429 responses is at most \<^verbatim>\<open>API_MAX_CONSECUTIVE_429\<close> and
  the backoff window ends at most 240 seconds from now: calls that do not overlap never
  reach the cap \<^verbatim>\<open>API_BACKOFF_MAX\<close> of 300 seconds.
\<close>

theorem client_backoff_bounded:
  assumes "client_reach (api0, new_limiter, c0) s" and "wf_clock c0" and "0 \<le> now c0"
  shows "consecutive_429s (fst (snd s)) \<le> API_MAX_CONSECUTIVE_429 \<and>
         backoff_until (fst (snd s)) \<le> now (snd (snd s)) + 240 \<and>
         last_request_time (fst (snd s)) \<le> now (snd (snd s))"
proof -
  from assms(2,3) have "client_inv (snd (api0, new_limiter, c0))"
    by (simp add: client_inv_init)
  with assms(1) have "client_inv (snd s)"
    by (rule reach_inv)
  then show ?thesis
    by (simp add: client_inv_def backoff_seconds_def rate_limit_consts)
qed

theorem client_backoff_bounded_witness:
  "client_reach (demo_api, new_limiter, \<lparr>now = 100, drift = []\<rparr>)
     (client_step (demo_api, new_limiter, \<lparr>now = 100, drift = []\<rparr>) (GetDeviceJson throttled)) \<and>
   wf_clock \<lparr>now = 100, drift = []\<rparr> \<and> 0 \<le> now \<lparr>now = 100, drift = []\<rparr> \<and>
   consecutive_429s (fst (snd
     (client_step (demo_api, new_limiter, \<lparr>now = 100, drift = []\<rparr>) (GetDeviceJson throttled))))
     \<le> API_MAX_CONSECUTIVE_429"
proof -
  let ?s0 = "(demo_api, new_limiter, \<lparr>now = 100, drift = []\<rparr>)"
  have reach: "client_reach ?s0 (client_step ?s0 (GetDeviceJson throttled))"
    by (intro client_reach.intros)
  have wf: "wf_clock \<lparr>now = 100, drift = []\<rparr>"
    by (simp add: wf_clock_def)
  have pos: "0 \<le> now \<lparr>now = 100, drift = []\<rparr>"
    by simp
  from client_backoff_bounded [OF reach wf pos] reach wf pos show ?thesis
    by blast
qed

section \<open>The client refines the limiter\<close>

fun client_trace :: "client_state \<Rightarrow> client_call list \<Rightarrow> limiter_event list" where
  "client_trace s [] = []"
| "client_trace s (call # calls) =
     call_trace (fst (snd s)) call @ client_trace (client_step s call) calls"

text \<open>
  Claim C14. Seen from the limiter, a client whose calls do not overlap is a run of
  limiter events: the limiter and the clock after any sequence of calls are those after
  the sequence's trace, in which every request method contributes \<^verbatim>\<open>wait_for_slot\<close>, followed when the slot
  was granted by at most one of \<^verbatim>\<open>record_success\<close> and \<^verbatim>\<open>record_rate_limit\<close>.
\<close>

theorem client_refines_limiter:
  "snd (foldl client_step s calls) = limiter_run (snd s) (client_trace s calls)"
proof (induction calls arbitrary: s)
  case Nil
  show ?case by simp
next
  case (Cons call calls)
  obtain api rl c where s: "s = (api, rl, c)"
    by (cases s)
  have "snd (client_step s call) = limiter_run (snd s) (call_trace (fst (snd s)) call)"
    unfolding s by (simp add: client_step_trace del: client_step.simps)
  with Cons.IH [of "client_step s call"] show ?case
    by (simp add: limiter_run_append del: client_step.simps)
qed

end
