(* ===== verification/SharedLimiter.thy ===== *)
theory SharedLimiter
  imports ClientSession
begin

text \<open>
  The constructor of \<^verbatim>\<open>OlarmApi\<close> and the class attribute \<^verbatim>\<open>_rate_limiters\<close>, with
  the limiter objects kept in an explicit store: the attribute maps an API key to the
  address of a limiter, a device holds an address, and a method call reads the limiter
  at the address of its device and writes it back there. Whether two devices share a
  limiter is therefore decided by the constructor alone.

  A world is the store, the devices created so far and the clock; its events are
  constructor calls and method calls on a device. A method call is one step: the
  calls of this theory do not overlap. Theory \<open>Interleaving\<close> has the calls that
  do.
\<close>

section \<open>The limiter objects and the class attribute\<close>

text \<open>
  \<open>rate_limiters\<close> is the dictionary \<^verbatim>\<open>OlarmApi._rate_limiters\<close>, \<open>objects\<close> the
  \<^verbatim>\<open>OlarmRateLimiter\<close> objects in the order of their creation; the address of an
  object is its position. \<open>on_limiter\<close> is a method call through
  \<^verbatim>\<open>self._rate_limiter\<close>.
\<close>

record limiter_store =
  rate_limiters :: "string \<rightharpoonup> nat"
  objects :: "rate_limiter list"

definition no_limiters :: limiter_store where
  "no_limiters = \<lparr>rate_limiters = Map.empty, objects = []\<rparr>"

definition OlarmApi_init ::
  "string \<Rightarrow> string \<Rightarrow> string \<Rightarrow> pyval \<Rightarrow> limiter_store \<Rightarrow> olarm_api \<times> limiter_store" where
  "OlarmApi_init dev key nm ent st =
     (let st1 = (if rate_limiters st key = None
                 then st\<lparr>rate_limiters := (rate_limiters st)(key \<mapsto> length (objects st)),
                         objects := objects st @ [new_limiter]\<rparr>
                 else st)
      in (\<lparr>device_id = dev, api_key = key, data = [], bypass_data = [], panel_data = [],
           devices = PList [], device_name = nm, entry = ent,
           headers = [(''Authorization'', ''Bearer '' @ key),
                      (''User-Agent'', ''Home Assistant'')],
           limiter_ref = the (rate_limiters st1 key)\<rparr>, st1))"

definition on_limiter ::
  "olarm_api \<Rightarrow> client_call \<Rightarrow> limiter_store \<Rightarrow> clock \<Rightarrow> olarm_api \<times> limiter_store \<times> clock" where
  "on_limiter api call st c =
     (case client_step (api, objects st ! limiter_ref api, c) call of
        (api', rl', c') \<Rightarrow> (api', st\<lparr>objects := (objects st)[limiter_ref api := rl']\<rparr>, c'))"

section \<open>Devices and their calls\<close>

datatype world_event =
    Create string string string pyval
  | Invoke nat client_call

record world =
  store :: limiter_store
  instances :: "olarm_api list"
  wall :: clock

definition fresh_world :: "clock \<Rightarrow> world" where
  "fresh_world c = \<lparr>store = no_limiters, instances = [], wall = c\<rparr>"

fun world_step :: "world \<Rightarrow> world_event \<Rightarrow> world" where
  "world_step w (Create dev key nm ent) =
     (case OlarmApi_init dev key nm ent (store w) of
        (api, st) \<Rightarrow> w\<lparr>store := st, instances := instances w @ [api]\<rparr>)"
| "world_step w (Invoke i call) =
     (if i < length (instances w)
      then case on_limiter (instances w ! i) call (store w) (wall w) of
             (api, st, c) \<Rightarrow> \<lparr>store = st, instances = (instances w)[i := api], wall = c\<rparr>
      else w)"

text \<open>
  The times at which the devices of key \<open>k\<close> send a request in a sequence of events:
  a call sends a request when the limiter grants the slot, at the time that
  \<^verbatim>\<open>wait_for_slot\<close> has written to the limiter of the calling device.
\<close>

definition limiter_at :: "world \<Rightarrow> olarm_api \<Rightarrow> rate_limiter" where
  "limiter_at w api = objects (store w) ! limiter_ref api"

fun request_of :: "string \<Rightarrow> world \<Rightarrow> world_event \<Rightarrow> time list" where
  "request_of k w (Create dev key nm ent) = []"
| "request_of k w (Invoke i call) =
     (if i < length (instances w) \<and> api_key (instances w ! i) = k
         \<and> sends_request (limiter_at w (instances w ! i)) call
      then [last_request_time (limiter_at (world_step w (Invoke i call)) (instances w ! i))]
      else [])"

fun key_times :: "string \<Rightarrow> world \<Rightarrow> world_event list \<Rightarrow> time list" where
  "key_times k w [] = []"
| "key_times k w (ev # evs) = request_of k w ev @ key_times k (world_step w ev) evs"

definition key_last :: "string \<Rightarrow> world \<Rightarrow> time" where
  "key_last k w =
     (case rate_limiters (store w) k of None \<Rightarrow> 0
      | Some a \<Rightarrow> last_request_time (objects (store w) ! a))"

definition world_inv :: "world \<Rightarrow> bool" where
  "world_inv w \<longleftrightarrow>
     wf_clock (wall w) \<and>
     (\<forall>api \<in> set (instances w).
        rate_limiters (store w) (api_key api) = Some (limiter_ref api)) \<and>
     (\<forall>k a. rate_limiters (store w) k = Some a \<longrightarrow> a < length (objects (store w))) \<and>
     (\<forall>k k' a. rate_limiters (store w) k = Some a \<longrightarrow> rate_limiters (store w) k' = Some a
        \<longrightarrow> k = k') \<and>
     (\<forall>rl \<in> set (objects (store w)). min_gap rl = API_MIN_REQUEST_GAP)"

lemmas world_defs = no_limiters_def OlarmApi_init_def on_limiter_def fresh_world_def
  limiter_at_def key_last_def

section \<open>The store invariant\<close>

lemma get_all_devices_identity:
  "api_key (fst (get_all_devices api out rl c)) = api_key api \<and>
   limiter_ref (fst (get_all_devices api out rl c)) = limiter_ref api"
proof (cases rl c rule: wait_for_slot_cases)
  case denied
  then show ?thesis
    by (simp add: get_all_devices_def)
next
  case (granted rl1 c1)
  then show ?thesis
    by (cases "record_rate_limit rl1 c1")
       (simp add: get_all_devices_def Let_def
          split: http_outcome.splits json_result.splits sum.splits)
qed

lemma client_step_identity [simp]:
  "api_key (fst (client_step s call)) = api_key (fst s)"
  "limiter_ref (fst (client_step s call)) = limiter_ref (fst s)"
  by (cases s; cases call; simp add: get_all_devices_identity)+

lemma world_inv_fresh: "wf_clock c \<Longrightarrow> world_inv (fresh_world c)"
  by (simp add: world_inv_def world_defs)

lemma OlarmApi_init_store:
  "snd (OlarmApi_init dev key nm ent st) =
     (if rate_limiters st key = None
      then st\<lparr>rate_limiters := (rate_limiters st)(key \<mapsto> length (objects st)),
              objects := objects st @ [new_limiter]\<rparr>
      else st)"
  by (simp add: OlarmApi_init_def Let_def)

lemma OlarmApi_init_identity [simp]:
  "api_key (fst (OlarmApi_init dev key nm ent st)) = key"
  "limiter_ref (fst (OlarmApi_init dev key nm ent st)) =
     the (rate_limiters (snd (OlarmApi_init dev key nm ent st)) key)"
  by (simp_all add: OlarmApi_init_def Let_def)

lemma create_inv:
  assumes "world_inv w"
  shows "world_inv (world_step w (Create dev key nm ent))"
proof (cases "rate_limiters (store w) key")
  case None
  with assms show ?thesis
    by (auto simp: world_inv_def OlarmApi_init_store case_prod_beta new_limiter_def
          init_limiter_def less_Suc_eq dest: less_irrefl_nat)
next
  case (Some a)
  with assms show ?thesis
    by (auto simp: world_inv_def OlarmApi_init_store case_prod_beta)
qed

lemma world_step_invoke:
  assumes "i < length (instances w)"
  shows "world_step w (Invoke i call) =
     (let api = instances w ! i;
          s = client_step (api, limiter_at w api, wall w) call
      in \<lparr>store = (store w)\<lparr>objects := (objects (store w))[limiter_ref api := fst (snd s)]\<rparr>,
          instances = (instances w)[i := fst s], wall = snd (snd s)\<rparr>)"
  using assms by (simp add: on_limiter_def limiter_at_def Let_def case_prod_beta)

lemma world_inv_instance:
  assumes "world_inv w" and "i < length (instances w)"
  shows "rate_limiters (store w) (api_key (instances w ! i)) = Some (limiter_ref (instances w ! i))"
    and "limiter_ref (instances w ! i) < length (objects (store w))"
    and "min_gap (limiter_at w (instances w ! i)) = API_MIN_REQUEST_GAP"
proof -
  from assms show reg:
    "rate_limiters (store w) (api_key (instances w ! i)) = Some (limiter_ref (instances w ! i))"
    by (simp add: world_inv_def)
  with assms(1) show ref: "limiter_ref (instances w ! i) < length (objects (store w))"
    unfolding world_inv_def by blast
  with assms(1) show "min_gap (limiter_at w (instances w ! i)) = API_MIN_REQUEST_GAP"
    by (simp add: world_inv_def limiter_at_def)
qed

lemma invoke_inv:
  assumes "world_inv w"
  shows "world_inv (world_step w (Invoke i call))"
proof (cases "i < length (instances w)")
  case True
  let ?api = "instances w ! i"
  let ?s = "client_step (?api, limiter_at w ?api, wall w) call"
  from True have api: "?api \<in> set (instances w)"
    by simp
  from world_inv_instance(3) [OF assms True]
  have gap: "min_gap (fst (snd ?s)) = API_MIN_REQUEST_GAP"
    by simp
  from assms have "wf_clock (snd (snd ?s))"
    by (intro client_step_wf) (simp add: world_inv_def)
  moreover have "rate_limiters (store w) (api_key api) = Some (limiter_ref api)"
    if "api \<in> set ((instances w)[i := fst ?s])" for api
    using that assms api True by (auto simp: world_inv_def set_conv_nth nth_list_update)
  moreover have "min_gap rl = API_MIN_REQUEST_GAP"
    if "rl \<in> set ((objects (store w))[limiter_ref ?api := fst (snd ?s)])" for rl
    using that assms gap by (auto simp: world_inv_def dest!: set_update_subset_insert [THEN subsetD])
  ultimately show ?thesis
    using assms True unfolding world_step_invoke [OF True]
    by (simp add: world_inv_def Let_def)
next
  case False
  with assms show ?thesis by simp
qed

lemma world_step_inv: "world_inv w \<Longrightarrow> world_inv (world_step w ev)"
  by (cases ev) (simp_all only: create_inv invoke_inv)

lemma world_run_inv: "world_inv w \<Longrightarrow> world_inv (foldl world_step w evs)"
  by (induction evs arbitrary: w) (simp_all add: world_step_inv del: world_step.simps)

section \<open>Requests under one key\<close>

lemma create_key_last:
  assumes "world_inv w"
  shows "key_last k (world_step w (Create dev key nm ent)) = key_last k w"
  using assms
  by (auto simp: key_last_def world_inv_def OlarmApi_init_store case_prod_beta nth_append
        new_limiter_def init_limiter_def split: option.splits)

lemma invoke_key_last:
  assumes "world_inv w" and "i < length (instances w)"
  shows "key_last k (world_step w (Invoke i call)) =
     (if api_key (instances w ! i) = k
      then last_request_time (limiter_at (world_step w (Invoke i call)) (instances w ! i))
      else key_last k w)"
proof -
  let ?api = "instances w ! i"
  note reg = world_inv_instance(1) [OF assms] and ref = world_inv_instance(2) [OF assms]
  show ?thesis
  proof (cases "api_key ?api = k")
    case True
    with reg ref show ?thesis
      unfolding world_step_invoke [OF assms(2)]
      by (simp add: key_last_def limiter_at_def Let_def)
  next
    case False
    with reg assms(1) have "rate_limiters (store w) k \<noteq> Some (limiter_ref ?api)"
      by (auto simp: world_inv_def)
    with False show ?thesis
      unfolding world_step_invoke [OF assms(2)]
      by (auto simp: key_last_def Let_def split: option.splits)
  qed
qed

lemma invoke_stamp:
  assumes "world_inv w" and "i < length (instances w)"
  shows "if sends_request (limiter_at w (instances w ! i)) call
         then last_request_time (limiter_at w (instances w ! i)) + API_MIN_REQUEST_GAP
                \<le> last_request_time (limiter_at (world_step w (Invoke i call)) (instances w ! i))
         else last_request_time (limiter_at (world_step w (Invoke i call)) (instances w ! i))
                = last_request_time (limiter_at w (instances w ! i))"
proof -
  let ?api = "instances w ! i"
  let ?s = "(?api, limiter_at w ?api, wall w)"
  note ref = world_inv_instance(2) [OF assms] and gap = world_inv_instance(3) [OF assms]
  from ref have after: "limiter_at (world_step w (Invoke i call)) ?api = fst (snd (client_step ?s call))"
    unfolding world_step_invoke [OF assms(2)] by (simp add: limiter_at_def Let_def)
  from assms(1) have wf: "wf_clock (snd (snd ?s))"
    by (simp add: world_inv_def)
  show ?thesis
  proof (cases "sends_request (limiter_at w ?api) call")
    case True
    with client_step_sends [of ?s call] wf gap after show ?thesis
      by simp
  next
    case False
    with client_step_idle [of ?s call] after show ?thesis
      by simp
  qed
qed

lemma key_times_spaced:
  assumes "world_inv w"
  shows "successively (\<lambda>t t'. t + API_MIN_REQUEST_GAP \<le> t') (key_last k w # key_times k w evs)"
  using assms
proof (induction evs arbitrary: w)
  case Nil
  show ?case by simp
next
  case (Cons ev evs)
  note IH = Cons.IH [OF world_step_inv [OF Cons.prems], of ev]
  show ?case
  proof (cases ev)
    case (Create dev key nm ent)
    with IH create_key_last [OF Cons.prems, of k] show ?thesis
      by (simp del: world_step.simps)
  next
    case (Invoke i call)
    show ?thesis
    proof (cases "i < length (instances w)")
      case True
      from world_inv_instance(1) [OF Cons.prems True] have "api_key (instances w ! i) = k \<Longrightarrow>
          key_last k w = last_request_time (limiter_at w (instances w ! i))"
        by (auto simp: key_last_def limiter_at_def)
      with IH Invoke True invoke_key_last [OF Cons.prems True, of k call]
        invoke_stamp [OF Cons.prems True, of call]
      show ?thesis
        by (auto simp del: world_step.simps split: if_splits)
    next
      case False
      with IH Invoke show ?thesis by simp
    qed
  qed
qed

text \<open>
  Claim C18. Devices that are created with the same API key share one limiter, so
  that the requests under one key are spaced whichever device sends them: in any
  sequence of constructor calls and method calls that starts with no limiter and in
  which every call ends before the next begins, under any clock drift, the times at
  which the devices of one key send their requests are successively at least
  \<^verbatim>\<open>API_MIN_REQUEST_GAP\<close> apart.
\<close>

theorem shared_key_spaced:
  assumes "wf_clock c"
  shows "successively (\<lambda>t t'. t + API_MIN_REQUEST_GAP \<le> t') (key_times k (fresh_world c) evs)"
proof -
  from assms have "world_inv (fresh_world c)"
    by (rule world_inv_fresh)
  then have "successively (\<lambda>t t'. t + API_MIN_REQUEST_GAP \<le> t')
      (key_last k (fresh_world c) # key_times k (fresh_world c) evs)"
    by (rule key_times_spaced)
  then show ?thesis
    by (auto simp: successively_Cons)
qed

definition two_devices :: "world_event list" where
  "two_devices =
     [Create ''device-1'' ''key-1'' default_device_name PNone,
      Create ''device-2'' ''key-1'' default_device_name PNone,
      Invoke 0 (GetDeviceJson ConnectorError), Invoke 1 (GetDeviceJson ConnectorError)]"

lemma two_devices_times:
  "key_times ''key-1'' (fresh_world \<lparr>now = 100, drift = []\<rparr>) two_devices = [100, 102]"
  by (simp add: two_devices_def world_defs sends_request_def client_defs limiter_defs
        clock_defs rate_limit_consts Let_def)

theorem shared_key_spaced_witness:
  "wf_clock \<lparr>now = 100, drift = []\<rparr> \<and>
   key_times ''key-1'' (fresh_world \<lparr>now = 100, drift = []\<rparr>) two_devices = [100, 102] \<and>
   successively (\<lambda>t t'. t + API_MIN_REQUEST_GAP \<le> t')
     (key_times ''key-1'' (fresh_world \<lparr>now = 100, drift = []\<rparr>) two_devices)"
proof -
  have wf: "wf_clock \<lparr>now = 100, drift = []\<rparr>"
    by (simp add: wf_clock_def)
  from shared_key_spaced [OF wf] wf two_devices_times show ?thesis
    by blast
qed

text \<open>
  Claim C35. There is one limiter object for each API key: after any sequence of
  constructor calls and method calls that starts with no limiter, two devices hold the
  same limiter exactly when they have the same API key, every device holds the limiter
  that \<^verbatim>\<open>_rate_limiters\<close> has for its key, and that limiter exists.
\<close>

theorem one_limiter_per_key:
  assumes "wf_clock c" and "w = foldl world_step (fresh_world c) evs"
    and "i < length (instances w)" and "j < length (instances w)"
  shows "(limiter_ref (instances w ! i) = limiter_ref (instances w ! j)
            \<longleftrightarrow> api_key (instances w ! i) = api_key (instances w ! j)) \<and>
         rate_limiters (store w) (api_key (instances w ! i)) = Some (limiter_ref (instances w ! i)) \<and>
         limiter_ref (instances w ! i) < length (objects (store w))"
proof -
  from assms(1,2) have inv: "world_inv w"
    by (simp add: world_inv_fresh world_run_inv)
  note i = world_inv_instance(1,2) [OF inv assms(3)]
    and j = world_inv_instance(1) [OF inv assms(4)]
  from inv i(1) j have "limiter_ref (instances w ! i) = limiter_ref (instances w ! j)
      \<Longrightarrow> api_key (instances w ! i) = api_key (instances w ! j)"
    unfolding world_inv_def by metis
  with i j show ?thesis
    by auto
qed

definition sample_world :: world where
  "sample_world = foldl world_step (fresh_world \<lparr>now = 100, drift = []\<rparr>)
     (Create ''device-3'' ''key-2'' default_device_name PNone # two_devices)"

lemma sample_world_instances:
  "map api_key (instances sample_world) = [''key-2'', ''key-1'', ''key-1'']"
  "map limiter_ref (instances sample_world) = [0, 1, 1]"
  "length (objects (store sample_world)) = 2"
  by (simp_all add: sample_world_def two_devices_def world_defs client_defs limiter_defs
        clock_defs rate_limit_consts Let_def)

theorem one_limiter_per_key_witness:
  "limiter_ref (instances sample_world ! 1) = limiter_ref (instances sample_world ! 2) \<and>
   api_key (instances sample_world ! 1) = api_key (instances sample_world ! 2) \<and>
   rate_limiters (store sample_world) (api_key (instances sample_world ! 1)) = Some 1"
proof -
  have wf: "wf_clock \<lparr>now = 100, drift = []\<rparr>"
    by (simp add: wf_clock_def)
  have "length (instances sample_world) = 3"
    using sample_world_instances(1) [THEN arg_cong, of length] by simp
  then have len: "1 < length (instances sample_world)" "2 < length (instances sample_world)"
    by simp_all
  then have "limiter_ref (instances sample_world ! 1) = 1"
      "limiter_ref (instances sample_world ! 2) = 1"
    using sample_world_instances(2) [THEN arg_cong, of "\<lambda>xs. xs ! 1"]
      sample_world_instances(2) [THEN arg_cong, of "\<lambda>xs. xs ! 2"] by simp_all
  with one_limiter_per_key [OF wf sample_world_def len] show ?thesis
    by simp
qed

lemma demo_api_created:
  "fst (OlarmApi_init ''device-1'' ''key-1'' default_device_name PNone no_limiters) = demo_api"
  by (simp add: world_defs demo_api_def Let_def)

end
