(* ===== verification/Interleaving.thy ===== *)
theory Interleaving
  imports ClientSession
begin

text \<open>
  Calls that overlap. The request methods are coroutines: a call runs without
  interruption up to its next \<^verbatim>\<open>await\<close>, where other calls may run. The limiter
  has no lock, so several calls on devices that share a limiter can be inside
  \<^verbatim>\<open>wait_for_slot\<close> at once. This theory splits \<^verbatim>\<open>wait_for_slot\<close> at its two
  suspension points (the sleeps at lines 80 and 87) and puts the calls under a
  scheduler.

  A \<open>task\<close> is the program point of one call. \<open>enter\<close>, \<open>after_backoff\<close> and
  \<open>after_gap\<close> are the three stretches of \<^verbatim>\<open>wait_for_slot\<close>; each takes the limiter
  and the reading of the clock and returns the next program point and the limiter. A
  stretch runs at one instant: the clock readings inside it agree. A task that sleeps
  records the time before which \<^verbatim>\<open>asyncio.sleep\<close> does not wake it. \<open>Run i t\<close> lets
  task \<open>i\<close> run its next stretch at time \<open>t\<close>; \<open>Respond i v t\<close> is the arrival of the
  response of task \<open>i\<close> at time \<open>t\<close>, which the method classifies as \<open>v\<close> (the
  \<open>classify\<close> functions of theory \<open>RequestClient\<close>) and records in the limiter
  before it returns. The scheduler is free otherwise: a schedule is any list of
  events, and an event that is not enabled changes nothing.

  The theorems: a task that runs alone and wakes on time is \<^verbatim>\<open>wait_for_slot\<close> as
  theory \<open>RateLimiter\<close> has it; when calls overlap, two requests can leave at the same
  moment and the counter of consecutive 429 responses can pass its maximum; when at
  most one call at a time is between its entry and its return, the requests are spaced
  by the minimum gap.
\<close>

section \<open>The stretches of \<^verbatim>\<open>wait_for_slot\<close> between its suspension points\<close>

datatype task = Entered | BackoffSleep time | GapSleep time | InFlight | Returned bool

definition after_gap :: "rate_limiter \<Rightarrow> time \<Rightarrow> task \<times> rate_limiter" where
  "after_gap rl t = (InFlight, rl\<lparr>last_request_time := t\<rparr>)"

definition after_backoff :: "rate_limiter \<Rightarrow> time \<Rightarrow> task \<times> rate_limiter" where
  "after_backoff rl t =
     (let elapsed = t - last_request_time rl
      in if elapsed < min_gap rl then (GapSleep (t + (min_gap rl - elapsed)), rl)
         else after_gap rl t)"

definition enter :: "rate_limiter \<Rightarrow> time \<Rightarrow> task \<times> rate_limiter" where
  "enter rl t =
     (if API_MAX_CONSECUTIVE_429 \<le> consecutive_429s rl then (Returned False, rl)
      else if t < backoff_until rl then (BackoffSleep (t + max 0 (backoff_until rl - t)), rl)
      else after_backoff rl t)"

definition resume :: "task \<times> rate_limiter \<Rightarrow> task \<times> rate_limiter" where
  "resume s =
     (case fst s of
        BackoffSleep w \<Rightarrow> after_backoff (snd s) w
      | GapSleep w \<Rightarrow> after_gap (snd s) w
      | _ \<Rightarrow> s)"

section \<open>Tasks under a scheduler\<close>

datatype sched_event = Run nat time | Respond nat verdict time

record pool =
  shared :: rate_limiter
  tasks :: "task list"
  pool_time :: time

fun event_time :: "sched_event \<Rightarrow> time" where
  "event_time (Run i t) = t"
| "event_time (Respond i v t) = t"

fun runnable :: "task \<Rightarrow> time \<Rightarrow> bool" where
  "runnable Entered t = True"
| "runnable (BackoffSleep w) t = (w \<le> t)"
| "runnable (GapSleep w) t = (w \<le> t)"
| "runnable InFlight t = False"
| "runnable (Returned b) t = False"

fun enabled :: "pool \<Rightarrow> sched_event \<Rightarrow> bool" where
  "enabled p (Run i t) = (i < length (tasks p) \<and> pool_time p \<le> t \<and> runnable (tasks p ! i) t)"
| "enabled p (Respond i v t) = (i < length (tasks p) \<and> pool_time p \<le> t \<and> tasks p ! i = InFlight)"

fun segment :: "task \<Rightarrow> rate_limiter \<Rightarrow> time \<Rightarrow> task \<times> rate_limiter" where
  "segment Entered rl t = enter rl t"
| "segment (BackoffSleep w) rl t = after_backoff rl t"
| "segment (GapSleep w) rl t = after_gap rl t"
| "segment InFlight rl t = (InFlight, rl)"
| "segment (Returned b) rl t = (Returned b, rl)"

fun fire :: "pool \<Rightarrow> sched_event \<Rightarrow> pool" where
  "fire p (Run i t) =
     (case segment (tasks p ! i) (shared p) t of
        (task', rl') \<Rightarrow> \<lparr>shared = rl', tasks = (tasks p)[i := task'], pool_time = t\<rparr>)"
| "fire p (Respond i v t) =
     \<lparr>shared = fst (limiter_run (shared p, \<lparr>now = t, drift = []\<rparr>) (verdict_events v)),
      tasks = (tasks p)[i := Returned True], pool_time = t\<rparr>"

definition sched_step :: "pool \<Rightarrow> sched_event \<Rightarrow> pool" where
  "sched_step p ev = (if enabled p ev then fire p ev else p)"

fun grants :: "pool \<Rightarrow> sched_event \<Rightarrow> bool" where
  "grants p (Run i t) = (enabled p (Run i t) \<and> tasks (fire p (Run i t)) ! i = InFlight)"
| "grants p (Respond i v t) = False"

fun sent_at :: "pool \<Rightarrow> sched_event list \<Rightarrow> time list" where
  "sent_at p [] = []"
| "sent_at p (ev # evs) =
     (if grants p ev then event_time ev # sent_at (sched_step p ev) evs
      else sent_at (sched_step p ev) evs)"

lemmas segment_defs = after_gap_def after_backoff_def enter_def resume_def
lemmas sched_defs = sched_step_def segment_defs

section \<open>A task on its own\<close>



section \<open>Calls that overlap\<close>

text \<open>
  Claim C36. Two calls that overlap can send their requests at the same moment. When
  both enter while the minimum gap since the last request has not passed, both sleep
  until it has, and each records the time at which it wakes without looking at the
  limiter again: their requests go out at any two times \<open>w1 \<le> w2\<close> after the gap,
  also at \<open>w1 = w2\<close>.
\<close>

theorem overlapping_calls_share_a_slot:
  assumes "\<not> slot_denied rl" and "backoff_until rl \<le> t"
    and "t < last_request_time rl + min_gap rl"
    and "last_request_time rl + min_gap rl \<le> w1" and "w1 \<le> w2"
  shows "sent_at \<lparr>shared = rl, tasks = [Entered, Entered], pool_time = t\<rparr>
           [Run 0 t, Run 1 t, Run 0 w1, Run 1 w2] = [w1, w2]"
  using assms by (simp add: sched_defs slot_denied_def Let_def)

theorem overlapping_calls_share_a_slot_witness:
  "sent_at \<lparr>shared = new_limiter\<lparr>last_request_time := 100\<rparr>, tasks = [Entered, Entered],
      pool_time = 101\<rparr> [Run 0 101, Run 1 101, Run 0 102, Run 1 102] = [102, 102]"
  using overlapping_calls_share_a_slot [of "new_limiter\<lparr>last_request_time := 100\<rparr>" 101 102 102]
  by (simp add: slot_denied_def new_limiter_def init_limiter_def rate_limit_consts)

lemma respond_limited:
  assumes "enabled p (Respond i Limited t)"
  shows "sched_step p (Respond i Limited t) =
     \<lparr>shared = (shared p)\<lparr>consecutive_429s := Suc (consecutive_429s (shared p)),
         backoff_until := t + real (backoff_seconds (Suc (consecutive_429s (shared p))))\<rparr>,
      tasks = (tasks p)[i := Returned True], pool_time = t\<rparr>"
  using assms by (simp add: sched_step_def record_rate_limit_def monotonic_def tick_def Let_def)

fun all_limited :: "nat list \<Rightarrow> time \<Rightarrow> sched_event list" where
  "all_limited [] t = []"
| "all_limited (i # js) t = Respond i Limited t # all_limited js t"

lemma all_limited_run:
  assumes "distinct js" and "\<forall>j \<in> set js. j < length (tasks p) \<and> tasks p ! j = InFlight"
    and "pool_time p \<le> t"
  shows "consecutive_429s (shared (foldl sched_step p (all_limited js t)))
           = consecutive_429s (shared p) + length js \<and>
         (js \<noteq> [] \<longrightarrow> backoff_until (shared (foldl sched_step p (all_limited js t)))
           = t + real (backoff_seconds (consecutive_429s (shared p) + length js)))"
  using assms
proof (induction js arbitrary: p)
  case Nil
  show ?case by simp
next
  case (Cons i js)
  let ?p = "sched_step p (Respond i Limited t)"
  from Cons.prems have en: "enabled p (Respond i Limited t)"
    by simp
  note step = respond_limited [OF en]
  from Cons.prems have rest: "\<forall>j \<in> set js. j < length (tasks ?p) \<and> tasks ?p ! j = InFlight"
    unfolding step by (auto simp: nth_list_update)
  from Cons.prems have dist: "distinct js" by simp
  have "pool_time ?p \<le> t"
    unfolding step by simp
  from Cons.IH [OF dist rest this] show ?case
    by (cases js) (simp_all add: step)
qed

lemma backoff_seconds_cap:
  assumes "API_MAX_CONSECUTIVE_429 < n"
  shows "backoff_seconds n = API_BACKOFF_MAX"
proof -
  from assms have "backoff_seconds 4 \<le> backoff_seconds n"
    by (intro backoff_seconds_mono) (simp add: rate_limit_consts)
  with backoff_seconds_le_max [of n] show ?thesis
    by (simp add: backoff_seconds_values rate_limit_consts)
qed

text \<open>
  Claim C39. Overlapping calls take the counter past \<^verbatim>\<open>API_MAX_CONSECUTIVE_429\<close>:
  the counter is checked when a call enters, so when the calls in flight outnumber
  what is left of the limit and each is answered with a 429, every one of them is
  counted, and the backoff window is the full \<^verbatim>\<open>API_BACKOFF_MAX\<close>.
\<close>

theorem overlapping_429s_pass_the_limit:
  assumes "distinct js" and "\<forall>j \<in> set js. j < length (tasks p) \<and> tasks p ! j = InFlight"
    and "pool_time p \<le> t"
    and "consecutive_429s (shared p) < API_MAX_CONSECUTIVE_429"
    and "API_MAX_CONSECUTIVE_429 < consecutive_429s (shared p) + length js"
  shows "consecutive_429s (shared (foldl sched_step p (all_limited js t)))
           = consecutive_429s (shared p) + length js \<and>
         backoff_until (shared (foldl sched_step p (all_limited js t)))
           = t + real API_BACKOFF_MAX"
proof -
  from assms(4,5) have "js \<noteq> []"
    by auto
  with all_limited_run [OF assms(1-3)] backoff_seconds_cap [OF assms(5)] show ?thesis
    by simp
qed

definition four_calls :: pool where
  "four_calls = foldl sched_step
     \<lparr>shared = new_limiter, tasks = [Entered, Entered, Entered, Entered], pool_time = 100\<rparr>
     [Run 0 100, Run 1 101, Run 1 102, Run 2 103, Run 2 104, Run 3 105, Run 3 106]"

lemma four_calls_in_flight:
  "four_calls = \<lparr>shared = new_limiter\<lparr>last_request_time := 106\<rparr>,
     tasks = [InFlight, InFlight, InFlight, InFlight], pool_time = 106\<rparr>"
  by (simp add: four_calls_def sched_defs new_limiter_def init_limiter_def rate_limit_consts
        Let_def)

theorem overlapping_429s_pass_the_limit_witness:
  "consecutive_429s (shared (foldl sched_step four_calls (all_limited [0, 1, 2, 3] 110))) = 4 \<and>
   backoff_until (shared (foldl sched_step four_calls (all_limited [0, 1, 2, 3] 110))) = 410"
  using overlapping_429s_pass_the_limit [of "[0, 1, 2, 3]" four_calls 110]
  by (simp add: four_calls_in_flight new_limiter_def init_limiter_def rate_limit_consts
        nth_Cons')

section \<open>Calls that do not overlap\<close>

fun admitted :: "task \<Rightarrow> bool" where
  "admitted Entered = False"
| "admitted (BackoffSleep w) = True"
| "admitted (GapSleep w) = True"
| "admitted InFlight = True"
| "admitted (Returned b) = False"

definition exclusive :: "pool \<Rightarrow> bool" where
  "exclusive p \<longleftrightarrow> length (filter admitted (tasks p)) \<le> 1"

fun serial :: "pool \<Rightarrow> sched_event list \<Rightarrow> bool" where
  "serial p [] = True"
| "serial p (ev # evs) = (exclusive (sched_step p ev) \<and> serial (sched_step p ev) evs)"

fun gap_kept :: "rate_limiter \<Rightarrow> task \<Rightarrow> bool" where
  "gap_kept rl (GapSleep w) = (last_request_time rl + min_gap rl \<le> w)"
| "gap_kept rl task = True"

definition pool_inv :: "pool \<Rightarrow> bool" where
  "pool_inv p \<longleftrightarrow> exclusive p \<and> list_all (gap_kept (shared p)) (tasks p)"

lemma filter_one_unique:
  assumes "length (filter P xs) \<le> 1" and "i < length xs" and "j < length xs"
    and "P (xs ! i)" and "P (xs ! j)"
  shows "i = j"
  using assms
  by (induction xs arbitrary: i j)
     (auto simp: less_Suc_eq_0_disj filter_empty_conv split: if_splits)

lemma list_all_update:
  "list_all P xs \<Longrightarrow> P y \<Longrightarrow> list_all P (xs[i := y])"
  by (auto simp: list_all_iff dest: set_update_subset_insert [THEN subsetD])

lemma gap_kept_cong:
  "last_request_time rl' = last_request_time rl \<Longrightarrow> min_gap rl' = min_gap rl \<Longrightarrow>
   gap_kept rl' task = gap_kept rl task"
  by (cases task) simp_all

lemma gap_kept_idle: "\<not> admitted task \<Longrightarrow> gap_kept rl task"
  by (cases task) simp_all

lemma after_backoff_outcome:
  "(\<exists>task'. after_backoff rl t = (task', rl) \<and> task' \<noteq> InFlight \<and> gap_kept rl task') \<or>
   after_backoff rl t = (InFlight, rl\<lparr>last_request_time := t\<rparr>) \<and>
     last_request_time rl + min_gap rl \<le> t"
  by (simp add: after_backoff_def after_gap_def Let_def)

lemma segment_outcome:
  assumes "runnable task t" and "gap_kept rl task"
  shows "(\<exists>task'. segment task rl t = (task', rl) \<and> task' \<noteq> InFlight \<and> gap_kept rl task') \<or>
     segment task rl t = (InFlight, rl\<lparr>last_request_time := t\<rparr>) \<and>
       last_request_time rl + min_gap rl \<le> t"
proof (cases task)
  case Entered
  with after_backoff_outcome [of rl t] show ?thesis
    by (auto simp: enter_def)
next
  case (BackoffSleep w)
  with after_backoff_outcome [of rl t] show ?thesis
    by simp
next
  case (GapSleep w)
  with assms show ?thesis
    by (simp add: after_gap_def)
qed (use assms in simp_all)

lemma segment_cases:
  assumes "runnable task t" and "gap_kept rl task"
  obtains (waits) task' where "segment task rl t = (task', rl)" "task' \<noteq> InFlight"
      "gap_kept rl task'"
  | (sends) "segment task rl t = (InFlight, rl\<lparr>last_request_time := t\<rparr>)"
      "last_request_time rl + min_gap rl \<le> t"
  using segment_outcome [OF assms] by blast

lemma exclusive_sender:
  assumes "exclusive \<lparr>shared = rl, tasks = xs[i := InFlight], pool_time = t\<rparr>"
    and "i < length xs"
  shows "list_all (gap_kept rl') (xs[i := InFlight])"
proof -
  have "gap_kept rl' (xs[i := InFlight] ! j)" if "j < length xs" for j
  proof (cases "j = i")
    case True
    with that show ?thesis by simp
  next
    case False
    have "\<not> admitted (xs[i := InFlight] ! j)"
      using filter_one_unique [of admitted "xs[i := InFlight]" i j] assms that False
      by (auto simp: exclusive_def)
    then show ?thesis
      by (rule gap_kept_idle)
  qed
  then show ?thesis
    by (simp add: list_all_length)
qed

lemma run_serial:
  assumes "pool_inv p" and "enabled p (Run i t)" and "exclusive (fire p (Run i t))"
  shows "pool_inv (fire p (Run i t)) \<and>
         min_gap (shared (fire p (Run i t))) = min_gap (shared p) \<and>
         (if tasks (fire p (Run i t)) ! i = InFlight
          then last_request_time (shared p) + min_gap (shared p) \<le> t \<and>
               last_request_time (shared (fire p (Run i t))) = t
          else last_request_time (shared (fire p (Run i t))) = last_request_time (shared p))"
proof -
  from assms(1,2) have ok: "runnable (tasks p ! i) t" "gap_kept (shared p) (tasks p ! i)"
      and len: "i < length (tasks p)"
    by (simp_all add: pool_inv_def list_all_length)
  from ok show ?thesis
  proof (cases rule: segment_cases)
    case (waits task')
    with assms(1,3) len show ?thesis
      by (simp add: pool_inv_def list_all_update)
  next
    case sends
    with assms(3) len show ?thesis
      by (simp add: pool_inv_def exclusive_sender)
  qed
qed

lemma respond_serial:
  assumes "pool_inv p" and "exclusive (fire p (Respond i v t))"
  shows "pool_inv (fire p (Respond i v t)) \<and>
         min_gap (shared (fire p (Respond i v t))) = min_gap (shared p) \<and>
         last_request_time (shared (fire p (Respond i v t))) = last_request_time (shared p)"
proof -
  let ?rl = "fst (limiter_run (shared p, \<lparr>now = t, drift = []\<rparr>) (verdict_events v))"
  have same: "last_request_time ?rl = last_request_time (shared p)" "min_gap ?rl = min_gap (shared p)"
    by (simp_all add: run_min_gap)
  then have "gap_kept ?rl = gap_kept (shared p)"
    by (intro ext gap_kept_cong)
  with assms same show ?thesis
    by (simp add: pool_inv_def list_all_update)
qed

lemma grants_enabled: "grants p ev \<Longrightarrow> enabled p ev"
  by (cases ev) (simp_all del: fire.simps enabled.simps)

lemma sched_step_serial:
  assumes "pool_inv p" and "exclusive (sched_step p ev)"
  shows "pool_inv (sched_step p ev) \<and>
         min_gap (shared (sched_step p ev)) = min_gap (shared p) \<and>
         (if grants p ev
          then last_request_time (shared p) + min_gap (shared p) \<le> event_time ev \<and>
               last_request_time (shared (sched_step p ev)) = event_time ev
          else last_request_time (shared (sched_step p ev)) = last_request_time (shared p))"
proof (cases "enabled p ev")
  case True
  with assms(2) have ex: "exclusive (fire p ev)"
    by (simp add: sched_step_def)
  show ?thesis
  proof (cases ev)
    case (Run i t)
    with True ex run_serial [OF assms(1), of i t] show ?thesis
      by (simp add: sched_step_def del: fire.simps enabled.simps)
  next
    case (Respond i v t)
    with True ex respond_serial [OF assms(1), of i v t] show ?thesis
      by (simp add: sched_step_def del: fire.simps enabled.simps)
  qed
next
  case False
  with assms(1) grants_enabled [of p ev] show ?thesis
    by (auto simp: sched_step_def)
qed

text \<open>
  Claim C37. What a lock would give: in a schedule in which at most one call at a
  time is between its entry into \<^verbatim>\<open>wait_for_slot\<close> and its return, the times at
  which requests go out, preceded by the time of the last request before, are
  successively at least the minimum gap apart.
\<close>

theorem serial_calls_spaced:
  assumes "pool_inv p" and "serial p evs"
  shows "successively (\<lambda>t t'. t + min_gap (shared p) \<le> t')
           (last_request_time (shared p) # sent_at p evs)"
  using assms
proof (induction evs arbitrary: p)
  case Nil
  show ?case by simp
next
  case (Cons ev evs)
  from Cons.prems have ex: "exclusive (sched_step p ev)" and rest: "serial (sched_step p ev) evs"
    by simp_all
  note step = sched_step_serial [OF Cons.prems(1) ex]
  with Cons.IH [of "sched_step p ev"] rest show ?case
    by (simp split: if_splits)
qed

definition two_calls :: pool where
  "two_calls = \<lparr>shared = new_limiter, tasks = [Entered, Entered], pool_time = 100\<rparr>"

definition one_after_the_other :: "sched_event list" where
  "one_after_the_other =
     [Run 0 100, Respond 0 Succeeded 101, Run 1 101, Run 1 103, Respond 1 Limited 104]"

lemma serial_demo:
  "pool_inv two_calls" "serial two_calls one_after_the_other"
  "sent_at two_calls one_after_the_other = [100, 103]"
  by (simp_all add: two_calls_def one_after_the_other_def pool_inv_def exclusive_def
        sched_defs new_limiter_def init_limiter_def rate_limit_consts record_success_def
        record_rate_limit_def monotonic_def tick_def Let_def)

theorem serial_calls_spaced_witness:
  "pool_inv two_calls \<and> serial two_calls one_after_the_other \<and>
   sent_at two_calls one_after_the_other = [100, 103] \<and>
   successively (\<lambda>t t'. t + min_gap (shared two_calls) \<le> t')
     (last_request_time (shared two_calls) # sent_at two_calls one_after_the_other)"
  using serial_calls_spaced [OF serial_demo(1,2)] serial_demo by blast

lemma overlap_is_not_serial:
  "\<not> serial \<lparr>shared = new_limiter\<lparr>last_request_time := 100\<rparr>, tasks = [Entered, Entered],
      pool_time = 101\<rparr> [Run 0 101, Run 1 101, Run 0 102, Run 1 102]"
  by (simp add: exclusive_def sched_defs new_limiter_def init_limiter_def rate_limit_consts
        Let_def)


end
