(* ===== verification/StateDecoders.thy ===== *)
theory StateDecoders
  imports RequestClient
begin

text \<open>
  The decoders of \<^verbatim>\<open>OlarmApi\<close>: \<^verbatim>\<open>get_sensor_states\<close>,
  \<^verbatim>\<open>get_sensor_bypass_states\<close>, \<^verbatim>\<open>get_panel_states\<close>, \<^verbatim>\<open>get_pgm_zones\<close>,
  \<^verbatim>\<open>get_ukey_zones\<close> and \<^verbatim>\<open>get_alarm_trigger\<close>. They make no request: their input
  is the document that \<^verbatim>\<open>get_device_json\<close> returned. A decoder that stores its rows
  in the device object returns the object with the rows it had appended when it ended,
  whether it returned or raised. The body of a \<^verbatim>\<open>for\<close> loop is a function from the
  loop variable to a row or an exception; \<open>collect\<close> is the loop.
\<close>

section \<open>Shared pieces of the zone loops\<close>

fun collect :: "('a \<Rightarrow> pyval py) \<Rightarrow> 'a list \<Rightarrow> pyval list \<Rightarrow> pyval list \<times> py_error option" where
  "collect f [] acc = (acc, None)"
| "collect f (x # xs) acc =
     (case f x of Inl e \<Rightarrow> (acc, Some e) | Inr v \<Rightarrow> collect f xs (acc @ [v]))"

definition caught :: "py_error set \<Rightarrow> pyval list \<times> py_error option \<Rightarrow> pyval list py" where
  "caught handled r =
     (case snd r of
        None \<Rightarrow> Inr (fst r)
      | Some e \<Rightarrow> if e \<in> handled then Inr (fst r) else Inl e)"

definition zone_state :: "string \<Rightarrow> pyval \<Rightarrow> nat \<Rightarrow> string py" where
  "zone_state letter olarm_state zone =
     py_bind (py_bind (py_get olarm_state ''zones'' (PList [])) py_len) (\<lambda>n.
       if zone < n then
         py_bind (py_key olarm_state ''zones'') (\<lambda>zones.
         py_bind (py_index zones zone) (\<lambda>z.
           Inr (if lower (py_str z) = letter then ''on'' else ''off'')))
       else Inr ''off'')"

definition zone_stamp :: "int \<Rightarrow> pyval \<Rightarrow> nat \<Rightarrow> pyval py" where
  "zone_stamp offset olarm_state zone =
     py_bind (py_bind (py_get olarm_state ''zonesStamp'' (PList [])) py_len) (\<lambda>n.
       if zone < n then
         py_bind (py_key olarm_state ''zonesStamp'') (\<lambda>stamps.
         py_bind (py_index stamps zone) (\<lambda>stamp.
         py_bind (py_int stamp) (\<lambda>ms. display_time offset (ms div 1000))))
       else Inr PNone)"

definition zone_last_changed :: "int \<Rightarrow> pyval \<Rightarrow> nat \<Rightarrow> pyval py" where
  "zone_last_changed offset olarm_state zone =
     (case zone_stamp offset olarm_state zone of
        Inl e \<Rightarrow>
          if e \<in> {TypeError, ValueError, KeyError, IndexError} then Inr PNone else Inl e
      | Inr v \<Rightarrow> Inr v)"

definition zone_name :: "pyval \<Rightarrow> nat \<Rightarrow> pyval py" where
  "zone_name labels zone =
     py_bind (py_len labels) (\<lambda>n.
       if zone < n then
         py_bind (py_index labels zone) (\<lambda>label.
           Inr (if py_truthy label \<or> label = PStr []
                then label else PStr (''Zone '' @ string_of_int (int zone + 1))))
       else Inr (PStr (''Zone '' @ string_of_int (int zone + 1))))"

definition zone_type :: "pyval \<Rightarrow> nat \<Rightarrow> pyval py" where
  "zone_type types zone =
     py_bind (py_len types) (\<lambda>n. if zone < n then py_index types zone else Inr (PInt 0))"

section \<open>\<^verbatim>\<open>get_sensor_states\<close>\<close>

definition sensor_zone :: "pyval \<Rightarrow> pyval \<Rightarrow> nat \<Rightarrow> pyval py" where
  "sensor_zone olarm_state olarm_zones zone =
     py_bind (zone_state ''a'' olarm_state zone) (\<lambda>state.
     py_bind (zone_last_changed 0 olarm_state zone) (\<lambda>last_changed.
     py_bind (py_get olarm_zones ''zonesLabels'' (PList [])) (\<lambda>labels.
     py_bind (py_get olarm_zones ''zonesTypes'' (PList [])) (\<lambda>types.
     py_bind (zone_name labels zone) (\<lambda>name.
     py_bind (zone_type types zone) (\<lambda>type.
       Inr (PDict [(''name'', name), (''state'', PStr state),
                   (''last_changed'', last_changed), (''type'', type),
                   (''zone_number'', PInt (int zone))])))))))"

definition power_source :: "pyval \<Rightarrow> pyval py" where
  "power_source olarm_state =
     py_bind (py_get olarm_state ''power'' (PDict [])) (\<lambda>power.
     py_bind (if py_truthy power then Inr False else py_in ''powerAC'' olarm_state) (\<lambda>legacy.
       if legacy then
         py_bind (py_get olarm_state ''powerAC'' PNone) (\<lambda>ac.
         py_bind (py_get olarm_state ''powerBattery'' PNone) (\<lambda>batt.
           Inr (PDict [(''AC'', PInt (if py_eq_str ac ''ok'' then 1 else 0)),
                       (''Batt'', PInt (if py_eq_str batt ''ok'' then 1 else 0))])))
       else Inr power))"

definition power_sensor :: "(string \<times> pyval) \<times> nat \<Rightarrow> pyval py" where
  "power_sensor item =
     (case item of ((key, value), zone) \<Rightarrow>
        py_bind (py_int value) (\<lambda>v.
          Inr (PDict [(''name'',
                         PStr (''Powered by '' @ (if key = ''Batt'' then ''Battery'' else key))),
                      (''state'', PStr (if v = 1 then ''on'' else ''off'')),
                      (''last_changed'', PNone),
                      (''type'', PInt (if key = ''Batt'' then 1001 else 1000)),
                      (''zone_number'', PInt (int zone))])))"

definition sensor_pass :: "pyval \<Rightarrow> pyval \<Rightarrow> pyval list \<times> py_error option" where
  "sensor_pass olarm_state olarm_zones =
     (case py_bind (py_key olarm_zones ''zonesLimit'') py_range of
        Inl e \<Rightarrow> ([], Some e)
      | Inr zones \<Rightarrow>
          (case collect (sensor_zone olarm_state olarm_zones) zones [] of
             (rows, Some e) \<Rightarrow> (rows, Some e)
           | (rows, None) \<Rightarrow>
               if zones = [] then (rows, Some UnboundLocalError)
               else
                 (case py_bind (power_source olarm_state) py_items of
                    Inl e \<Rightarrow> (rows, Some e)
                  | Inr items \<Rightarrow>
                      collect power_sensor
                        (zip items [length zones ..< length zones + length items]) rows)))"

definition get_sensor_states :: "olarm_api \<Rightarrow> pyval \<Rightarrow> olarm_api \<times> pyval list py" where
  "get_sensor_states api devices_json =
     (case py_key devices_json ''deviceState'' of
        Inl e \<Rightarrow> (api, Inl e)
      | Inr olarm_state \<Rightarrow>
          (case py_key devices_json ''deviceProfile'' of
             Inl e \<Rightarrow> (api, Inl e)
           | Inr olarm_zones \<Rightarrow>
               let pass = sensor_pass olarm_state olarm_zones
               in (api\<lparr>data := fst pass\<rparr>, caught {KeyError, IndexError} pass)))"

section \<open>\<^verbatim>\<open>get_sensor_bypass_states\<close>\<close>

definition bypass_entry :: "pyval \<Rightarrow> pyval \<Rightarrow> nat \<Rightarrow> pyval py" where
  "bypass_entry olarm_state olarm_zones zone =
     py_bind (zone_state ''b'' olarm_state zone) (\<lambda>state.
     py_bind (zone_last_changed 7200 olarm_state zone) (\<lambda>last_changed.
     py_bind (py_get olarm_zones ''zonesLabels'' (PList [])) (\<lambda>labels.
     py_bind (zone_name labels zone) (\<lambda>name.
       Inr (PDict [(''name'', name), (''state'', PStr state),
                   (''last_changed'', last_changed), (''zone_number'', PInt (int zone))])))))"

definition bypass_pass :: "pyval \<Rightarrow> pyval \<Rightarrow> pyval list \<times> py_error option" where
  "bypass_pass olarm_state olarm_zones =
     (case py_bind (py_key olarm_zones ''zonesLimit'') py_range of
        Inl e \<Rightarrow> ([], Some e)
      | Inr zones \<Rightarrow> collect (bypass_entry olarm_state olarm_zones) zones [])"

definition get_sensor_bypass_states :: "olarm_api \<Rightarrow> pyval \<Rightarrow> olarm_api \<times> pyval list py" where
  "get_sensor_bypass_states api devices_json =
     (case py_key devices_json ''deviceState'' of
        Inl e \<Rightarrow> (api, Inl e)
      | Inr olarm_state \<Rightarrow>
          (case py_key devices_json ''deviceProfile'' of
             Inl e \<Rightarrow> (api, Inl e)
           | Inr olarm_zones \<Rightarrow>
               let pass = bypass_pass olarm_state olarm_zones
               in (api\<lparr>bypass_data := fst pass\<rparr>, caught {KeyError, IndexError} pass)))"

section \<open>\<^verbatim>\<open>get_panel_states\<close>\<close>

definition area_name :: "pyval \<Rightarrow> nat \<Rightarrow> pyval" where
  "area_name olarm_zones area_num =
     (case olarm_zones of
        PList labels \<Rightarrow>
          if area_num < length labels \<and> labels ! area_num \<noteq> PStr []
          then labels ! area_num
          else PStr (''Area '' @ string_of_int (int area_num + 1))
      | _ \<Rightarrow> PStr (''Area '' @ string_of_int (int area_num + 1)))"

definition panel_area :: "pyval \<Rightarrow> pyval \<Rightarrow> nat \<Rightarrow> pyval option py" where
  "panel_area olarm_state olarm_zones area_num =
     (let name = area_name olarm_zones area_num in
      py_bind (py_bind (py_get olarm_state ''areas'' (PList [])) py_len) (\<lambda>n.
        if area_num < n then
          py_bind (py_key olarm_state ''areas'') (\<lambda>areas.
          py_bind (py_index areas area_num) (\<lambda>state.
            Inr (Some (PDict [(''name'', PStr (py_str name)), (''state'', state),
                              (''area_number'', PInt (int area_num + 1))]))))
        else Inr None))"

fun panel_loop ::
  "pyval \<Rightarrow> pyval \<Rightarrow> nat list \<Rightarrow> pyval list \<Rightarrow> pyval list \<times> py_error option" where
  "panel_loop olarm_state olarm_zones [] acc = (acc, None)"
| "panel_loop olarm_state olarm_zones (area_num # rest) acc =
     (case panel_area olarm_state olarm_zones area_num of
        Inl e \<Rightarrow>
          if e = KeyError then panel_loop olarm_state olarm_zones rest acc else (acc, Some e)
      | Inr None \<Rightarrow> panel_loop olarm_state olarm_zones rest acc
      | Inr (Some area) \<Rightarrow> panel_loop olarm_state olarm_zones rest (acc @ [area]))"

definition get_panel_states :: "olarm_api \<Rightarrow> pyval \<Rightarrow> olarm_api \<times> pyval list py" where
  "get_panel_states api devices_json =
     (case py_key devices_json ''deviceState'' of
        Inl e \<Rightarrow> (api, Inl e)
      | Inr olarm_state \<Rightarrow>
     (case py_key devices_json ''deviceProfile'' of
        Inl e \<Rightarrow> (api, Inl e)
      | Inr zones \<Rightarrow>
     (case py_get zones ''areasLabels'' (PList []) of
        Inl e \<Rightarrow> (api, Inl e)
      | Inr olarm_zones \<Rightarrow>
     (case py_bind (py_bind (py_len olarm_zones) (\<lambda>n. py_get zones ''areasLimit'' (PInt (int n))))
             py_range of
        Inl e \<Rightarrow> (api\<lparr>panel_data := []\<rparr>, Inl e)
      | Inr areas \<Rightarrow>
          let pass = panel_loop olarm_state olarm_zones areas []
          in (api\<lparr>panel_data := fst pass\<rparr>, caught {} pass)))))"

section \<open>\<^verbatim>\<open>get_pgm_zones\<close>\<close>

definition list_at :: "pyval \<Rightarrow> nat \<Rightarrow> pyval option" where
  "list_at v i =
     (case v of PList xs \<Rightarrow> if i < length xs then Some (xs ! i) else None | _ \<Rightarrow> None)"

definition pgm_entry :: "pyval \<Rightarrow> pyval \<Rightarrow> pyval \<Rightarrow> nat \<Rightarrow> pyval option" where
  "pgm_entry pgm_state pgm_labels pgm_setup i =
     (let state = (case list_at pgm_state i of
                     Some s \<Rightarrow> lower (py_str s) = ''a'' | None \<Rightarrow> False);
          name = (case list_at pgm_labels i of
                    Some l \<Rightarrow> l | None \<Rightarrow> PStr (''PGM '' @ string_of_int (int i + 1)));
          setup_val = (case list_at pgm_setup i of Some v \<Rightarrow> v | None \<Rightarrow> PStr [])
      in if setup_val = PStr [] then None
         else
           let setup_str = (if setup_val \<noteq> PNone then py_str setup_val else []);
               enabled = (0 < length setup_str \<and> setup_str ! 0 = CHR ''1'');
               pulse = (2 < length setup_str \<and> setup_str ! 2 = CHR ''1'');
               number = int i + 1
           in Some (PDict [(''name'', if name = PStr [] then PStr (''PGM '' @ string_of_int number)
                                      else name),
                           (''enabled'', PBool enabled), (''pulse'', PBool pulse),
                           (''state'', PBool state), (''pgm_number'', PInt number)]))"

definition pgm_limit_of :: "pyval \<Rightarrow> pyval \<Rightarrow> pyval" where
  "pgm_limit_of pgm_limit pgm_labels =
     (case pgm_labels of
        PList labels \<Rightarrow> if py_eq_int pgm_limit 0 then PInt (int (length labels)) else pgm_limit
      | _ \<Rightarrow> pgm_limit)"

definition get_pgm_zones :: "pyval \<Rightarrow> pyval list py" where
  "get_pgm_zones devices_json =
     py_bind (py_get devices_json ''deviceProfile'' PNone) (\<lambda>profile.
       if \<not> is_dict profile then Inr []
       else
         py_bind (py_get devices_json ''deviceState'' (PDict [])) (\<lambda>state_obj.
         py_bind (py_get state_obj ''pgm'' PNone) (\<lambda>pgm_state.
         py_bind (py_get profile ''pgmLabels'' PNone) (\<lambda>labels.
         py_bind (py_get profile ''pgmLimit'' PNone) (\<lambda>limit.
         py_bind (py_get profile ''pgmControl'' PNone) (\<lambda>control.
           let pgm_labels = py_or labels (PList []);
               pgm_setup = py_or control (PList []);
               pgm_limit = pgm_limit_of (py_or limit (PInt 0)) pgm_labels
           in py_bind (py_int pgm_limit) (\<lambda>n.
                Inr (List.map_filter (pgm_entry pgm_state pgm_labels pgm_setup)
                       [0..<nat n]))))))))"

section \<open>\<^verbatim>\<open>get_ukey_zones\<close>\<close>

definition ukey_entry :: "pyval \<Rightarrow> pyval \<Rightarrow> nat \<Rightarrow> pyval py" where
  "ukey_entry ukey_labels ukey_state i =
     py_bind (py_index ukey_state i) (\<lambda>s.
     py_bind (py_int s) (\<lambda>v.
     py_bind (py_index ukey_labels i) (\<lambda>name.
       Inr (PDict [(''name'', if name = PStr [] then PStr (''Ukey '' @ string_of_int (int i + 1))
                              else name),
                   (''state'', PBool (v = 1)), (''ukey_number'', PInt (int i + 1))]))))"

definition ukey_setup :: "pyval \<Rightarrow> (pyval \<times> pyval \<times> pyval) option py" where
  "ukey_setup devices_json =
     py_bind (py_key devices_json ''deviceProfile'') (\<lambda>profile.
     py_bind (py_in ''ukeysLabels'' profile) (\<lambda>has_labels.
     py_bind (if has_labels then py_in ''ukeysLimit'' profile else Inr False) (\<lambda>has_limit.
     py_bind (if has_limit then py_in ''ukeysControl'' profile else Inr False) (\<lambda>has_control.
       if has_control then
         py_bind (py_key profile ''ukeysLabels'') (\<lambda>ukey_labels.
         py_bind (py_key profile ''ukeysLimit'') (\<lambda>ukey_limit.
         py_bind (py_key profile ''ukeysControl'') (\<lambda>ukey_state.
           Inr (Some (ukey_labels, ukey_limit, ukey_state)))))
       else Inr None))))"

definition get_ukey_zones :: "pyval \<Rightarrow> pyval list py" where
  "get_ukey_zones devices_json =
     (case ukey_setup devices_json of
        Inl e \<Rightarrow> if e = KeyError then Inr [] else Inl e
      | Inr None \<Rightarrow> Inr []
      | Inr (Some (ukey_labels, ukey_limit, ukey_state)) \<Rightarrow>
          (case py_range ukey_limit of
             Inl e \<Rightarrow> Inl e
           | Inr keys \<Rightarrow>
               (case collect (ukey_entry ukey_labels ukey_state) keys [] of
                  (ukeys, None) \<Rightarrow> Inr ukeys
                | (ukeys, Some e) \<Rightarrow> if e \<in> {KeyError, IndexError} then Inr [] else Inl e)))"

section \<open>\<^verbatim>\<open>get_alarm_trigger\<close>\<close>

definition get_alarm_trigger :: "pyval \<Rightarrow> pyval py" where
  "get_alarm_trigger devices_json =
     py_bind (py_get devices_json ''deviceState'' (PDict [])) (\<lambda>state.
       py_get state ''areasDetail'' (PList []))"

lemmas zone_defs =
  zone_state_def zone_stamp_def zone_last_changed_def zone_name_def zone_type_def

lemmas decoder_defs [olarm_defs] =
  sensor_zone_def power_source_def power_sensor_def sensor_pass_def get_sensor_states_def
  bypass_entry_def bypass_pass_def get_sensor_bypass_states_def
  area_name_def panel_area_def get_panel_states_def
  list_at_def pgm_entry_def pgm_limit_of_def get_pgm_zones_def
  ukey_entry_def ukey_setup_def get_ukey_zones_def get_alarm_trigger_def caught_def

section \<open>The loop \<open>collect\<close>\<close>

lemma collect_acc:
  "collect f xs acc = (acc @ fst (collect f xs []), snd (collect f xs []))"
proof (induction xs arbitrary: acc)
  case Nil
  show ?case by simp
next
  case (Cons x xs)
  show ?case
  proof (cases "f x")
    case (Inl e)
    then show ?thesis by simp
  next
    case (Inr v)
    with Cons.IH [of "acc @ [v]"] Cons.IH [of "[v]"] show ?thesis
      by simp
  qed
qed

lemma collect_spec:
  "collect f xs [] =
     (map (\<lambda>x. projr (f x)) (takeWhile (\<lambda>x. \<not> isl (f x)) xs),
      case dropWhile (\<lambda>x. \<not> isl (f x)) xs of [] \<Rightarrow> None | x # rest \<Rightarrow> Some (projl (f x)))"
proof (induction xs)
  case Nil
  show ?case by simp
next
  case (Cons x xs)
  show ?case
  proof (cases "f x")
    case (Inl e)
    then show ?thesis by simp
  next
    case (Inr v)
    with Cons.IH collect_acc [of f xs "[v]"] show ?thesis
      by simp
  qed
qed

lemma collect_all:
  assumes "\<forall>x \<in> set xs. \<not> isl (f x)"
  shows "collect f xs acc = (acc @ map (\<lambda>x. projr (f x)) xs, None)"
  using assms collect_acc [of f xs acc]
  by (simp add: collect_spec takeWhile_eq_all_conv [THEN iffD2] dropWhile_eq_Nil_conv [THEN iffD2])

lemma collect_None:
  "snd (collect f xs acc) = None \<longleftrightarrow> (\<forall>x \<in> set xs. \<not> isl (f x))"
  by (induction xs arbitrary: acc) (auto split: sum.splits)

lemma collect_length: "length (fst (collect f xs acc)) \<le> length acc + length xs"
  using collect_acc [of f xs acc] length_takeWhile_le [of "\<lambda>x. \<not> isl (f x)" xs]
  by (simp add: collect_spec)

lemma collect_nth:
  assumes "i < length (fst (collect f xs []))"
  shows "i < length xs \<and> f (xs ! i) = Inr (fst (collect f xs []) ! i)"
proof -
  let ?P = "\<lambda>x. \<not> isl (f x)"
  from assms have i: "i < length (takeWhile ?P xs)"
    by (simp add: collect_spec)
  then have "takeWhile ?P xs ! i = xs ! i" "?P (xs ! i)"
    by (simp_all add: takeWhile_nth nth_length_takeWhile
        nth_mem [THEN set_takeWhileD, of i ?P xs, simplified takeWhile_nth [OF i]])
  with i length_takeWhile_le [of ?P xs] show ?thesis
    by (cases "f (xs ! i)") (simp_all add: collect_spec)
qed

section \<open>Zone numbers\<close>

definition numbered :: "nat \<Rightarrow> pyval list \<Rightarrow> bool" where
  "numbered start rows \<longleftrightarrow>
     map (\<lambda>row. py_key row ''zone_number'') rows
       = map (\<lambda>i. Inr (PInt (int i))) [start ..< start + length rows]"

lemma numbered_Nil [simp]: "numbered start []"
  by (simp add: numbered_def)

lemma numbered_append:
  "numbered start (rows @ rest) \<longleftrightarrow>
     numbered start rows \<and> numbered (start + length rows) rest"
proof -
  have "[start ..< start + (length rows + length rest)]
      = [start ..< start + length rows] @ [start + length rows ..< start + length rows + length rest]"
    using upt_add_eq_append [of start "start + length rows" "length rest"]
    by (simp add: add.assoc)
  then show ?thesis
    by (simp add: numbered_def)
qed

lemma numbered_collect:
  assumes "\<And>i row. i < length xs \<Longrightarrow> f (xs ! i) = Inr row
             \<Longrightarrow> py_key row ''zone_number'' = Inr (PInt (int (start + i)))"
  shows "numbered start (fst (collect f xs []))"
proof -
  let ?rows = "fst (collect f xs [])"
  have row: "py_key (?rows ! i) ''zone_number'' = Inr (PInt (int (start + i)))"
    if "i < length ?rows" for i
    using collect_nth [OF that] assms [of i "?rows ! i"] by simp
  show ?thesis
    unfolding numbered_def by (rule nth_equalityI) (simp_all add: row)
qed

lemma sensor_zone_number:
  "sensor_zone olarm_state olarm_zones zone = Inr row
     \<Longrightarrow> py_key row ''zone_number'' = Inr (PInt (int zone))"
  by (auto simp: sensor_zone_def py_bind_eq_Inr)

lemma bypass_entry_number:
  "bypass_entry olarm_state olarm_zones zone = Inr row
     \<Longrightarrow> py_key row ''zone_number'' = Inr (PInt (int zone))"
  by (auto simp: bypass_entry_def py_bind_eq_Inr)

lemma power_sensor_number:
  "power_sensor (kv, zone) = Inr row \<Longrightarrow> py_key row ''zone_number'' = Inr (PInt (int zone))"
  by (cases kv) (auto simp: power_sensor_def py_bind_eq_Inr)

lemma py_range_upt: "py_range v = Inr zones \<Longrightarrow> zones = [0 ..< length zones]"
  by (cases v) auto

lemma zone_loop_numbered:
  assumes "py_bind (py_key olarm_zones ''zonesLimit'') py_range = Inr zones"
    and "\<And>zone row. f zone = Inr row \<Longrightarrow> py_key row ''zone_number'' = Inr (PInt (int zone))"
  shows "numbered 0 (fst (collect f zones []))"
proof -
  from assms(1) have "zones = [0 ..< length zones]"
    by (auto simp: py_bind_eq_Inr dest: py_range_upt)
  then show ?thesis
    by (intro numbered_collect) (metis add_0 assms(2) nth_upt)
qed

lemma power_rows_numbered:
  assumes "numbered 0 rows"
  shows "numbered 0 (fst (collect power_sensor
           (zip items [length rows ..< length rows + length items]) rows))"
proof -
  let ?ps = "zip items [length rows ..< length rows + length items]"
  have "numbered (length rows) (fst (collect power_sensor ?ps []))"
    by (intro numbered_collect) (auto dest: power_sensor_number)
  with assms collect_acc [of power_sensor ?ps rows] show ?thesis
    by (simp add: numbered_append)
qed

lemma zone_loop_complete:
  assumes "collect f zones [] = (rows, None)"
  shows "length rows = length zones"
  using assms collect_None [of f zones "[]"] collect_all [of zones f "[]"] by simp

text \<open>
  Claim C19. The rows that \<^verbatim>\<open>get_sensor_states\<close> and
  \<^verbatim>\<open>get_sensor_bypass_states\<close> have stored when they end, normally or by an
  exception, are numbered by their position: the \<^verbatim>\<open>zone_number\<close> of the row at
  index \<open>i\<close> is \<open>i\<close>, for the zones and for the power rows that continue their sequence.
\<close>

theorem zone_numbers_are_positions:
  "numbered 0 (fst (sensor_pass olarm_state olarm_zones)) \<and>
   numbered 0 (fst (bypass_pass olarm_state olarm_zones))"
proof (cases "py_bind (py_key olarm_zones ''zonesLimit'') py_range")
  case (Inl e)
  then show ?thesis
    by (simp add: sensor_pass_def bypass_pass_def)
next
  case (Inr zones)
  let ?f = "sensor_zone olarm_state olarm_zones"
  obtain rows err where loop: "collect ?f zones [] = (rows, err)"
    by (cases "collect ?f zones []")
  from zone_loop_numbered [OF Inr, of ?f] loop have rows: "numbered 0 rows"
    by (simp add: sensor_zone_number)
  have "numbered 0 (fst (sensor_pass olarm_state olarm_zones))"
  proof (cases err)
    case None
    with loop have "length rows = length zones"
      by (simp add: zone_loop_complete)
    with Inr loop rows None power_rows_numbered [OF rows] show ?thesis
      by (simp add: sensor_pass_def split: sum.splits)
  next
    case (Some e)
    with Inr loop rows show ?thesis
      by (simp add: sensor_pass_def)
  qed
  moreover from zone_loop_numbered [OF Inr, of "bypass_entry olarm_state olarm_zones"]
  have "numbered 0 (fst (bypass_pass olarm_state olarm_zones))"
    using Inr by (simp add: bypass_pass_def bypass_entry_number)
  ultimately show ?thesis ..
qed

section \<open>Payloads that decode without an exception\<close>

definition sized :: "pyval \<Rightarrow> bool" where
  "sized v = (case v of PList xs \<Rightarrow> True | PStr s \<Rightarrow> True | _ \<Rightarrow> False)"

definition field :: "pyval \<Rightarrow> string \<Rightarrow> pyval \<Rightarrow> pyval" where
  "field d k dflt = (case py_get d k dflt of Inr v \<Rightarrow> v | Inl e \<Rightarrow> dflt)"

definition power_ok :: "pyval \<Rightarrow> bool" where
  "power_ok olarm_state =
     (let power = field olarm_state ''power'' (PDict [])
      in if py_truthy power
         then (case power of
                 PDict items \<Rightarrow> list_all (\<lambda>kv. \<not> isl (py_int (snd kv))) items
               | _ \<Rightarrow> False)
         else py_in ''powerAC'' olarm_state = Inr True \<or> power = PDict [])"

definition zones_ok :: "pyval \<Rightarrow> pyval \<Rightarrow> bool" where
  "zones_ok olarm_state olarm_zones \<longleftrightarrow>
     is_dict olarm_state \<and> is_dict olarm_zones \<and>
     sized (field olarm_state ''zones'' (PList [])) \<and>
     sized (field olarm_zones ''zonesLabels'' (PList [])) \<and>
     sized (field olarm_zones ''zonesTypes'' (PList []))"

definition stamps_ok :: "int \<Rightarrow> pyval \<Rightarrow> bool" where
  "stamps_ok offset olarm_state =
     (case py_bind (py_get olarm_state ''zonesStamp'' (PList [])) py_len of
        Inl e \<Rightarrow> True
      | Inr n \<Rightarrow>
          list_all (\<lambda>zone.
              case py_bind (py_key olarm_state ''zonesStamp'') (\<lambda>stamps.
                     py_bind (py_index stamps zone) py_int) of
                Inl e \<Rightarrow> True
              | Inr ms \<Rightarrow> convertible offset (ms div 1000))
            [0..<n])"

lemma sized_len:
  assumes "sized v"
  obtains n where "py_len v = Inr n" and "\<And>i. i < n \<Longrightarrow> \<not> isl (py_index v i)"
  using assms by (cases v) (auto simp: sized_def)

lemma py_get_field: "is_dict d \<Longrightarrow> py_get d k dflt = Inr (field d k dflt)"
  by (cases d) (simp_all add: field_def)

lemma py_key_field:
  assumes "is_dict d" and "field d k dflt \<noteq> dflt"
  shows "py_key d k = Inr (field d k dflt)"
  using assms by (cases d) (auto simp: field_def split: option.splits)

lemma zone_state_total:
  assumes "is_dict olarm_state" and "sized (field olarm_state ''zones'' (PList []))"
  shows "raises (zone_state letter olarm_state zone) {}"
proof (cases olarm_state)
  case (PDict kvs)
  with assms(2) show ?thesis
    by (cases "map_of kvs ''zones''"; cases "the (map_of kvs ''zones'')")
       (simp_all add: zone_state_def field_def sized_def)
qed (use assms(1) in simp_all)

lemma zone_stamp_assoc:
  "zone_stamp offset olarm_state zone =
     py_bind (py_bind (py_get olarm_state ''zonesStamp'' (PList [])) py_len) (\<lambda>n.
       if zone < n then
         py_bind (py_bind (py_key olarm_state ''zonesStamp'') (\<lambda>stamps.
                    py_bind (py_index stamps zone) py_int))
           (\<lambda>ms. display_time offset (ms div 1000))
       else Inr PNone)"
  by (simp add: zone_stamp_def py_bind_assoc cong: if_cong)

lemma stamps_okD:
  assumes "stamps_ok offset olarm_state"
    and "py_bind (py_get olarm_state ''zonesStamp'' (PList [])) py_len = Inr n" and "zone < n"
    and "py_bind (py_key olarm_state ''zonesStamp'') (\<lambda>stamps.
           py_bind (py_index stamps zone) py_int) = Inr ms"
  shows "convertible offset (ms div 1000)"
proof -
  let ?ok = "\<lambda>zone. case py_bind (py_key olarm_state ''zonesStamp'') (\<lambda>stamps.
                py_bind (py_index stamps zone) py_int) of
              Inl e \<Rightarrow> True | Inr ms \<Rightarrow> convertible offset (ms div 1000)"
  from assms(1,2) have "list_all ?ok [0..<n]"
    by (simp add: stamps_ok_def)
  with assms(3) have "?ok zone"
    by (simp add: list_all_iff)
  with assms(4) show ?thesis
    by simp
qed

lemma zone_stamp_raises:
  assumes "is_dict olarm_state" and "stamps_ok offset olarm_state"
  shows "raises (zone_stamp offset olarm_state zone) {TypeError, ValueError, KeyError, IndexError}"
proof (cases "py_bind (py_get olarm_state ''zonesStamp'' (PList [])) py_len")
  case (Inl e)
  with assms(1) have "e = TypeError"
    by (auto simp: py_bind_eq_Inl dest: py_errors)
  with Inl show ?thesis
    by (simp add: zone_stamp_assoc)
next
  case (Inr n)
  let ?ms = "py_bind (py_key olarm_state ''zonesStamp'') (\<lambda>stamps.
               py_bind (py_index stamps zone) py_int)"
  have "raises (py_bind ?ms (\<lambda>ms. display_time offset (ms div 1000)))
          {TypeError, ValueError, KeyError, IndexError}" if "zone < n"
  proof (rule raises_bind)
    show "raises ?ms {TypeError, ValueError, KeyError, IndexError}"
      by (intro raises_intros) simp_all
    fix ms assume "?ms = Inr ms"
    with assms(2) Inr that have "convertible offset (ms div 1000)"
      by (intro stamps_okD)
    then show "raises (display_time offset (ms div 1000))
        {TypeError, ValueError, KeyError, IndexError}"
      by (rule raises_display_time) simp
  qed
  with Inr show ?thesis
    by (simp add: zone_stamp_assoc)
qed

lemma zone_last_changed_total:
  assumes "is_dict olarm_state" and "stamps_ok offset olarm_state"
  shows "raises (zone_last_changed offset olarm_state zone) {}"
  using zone_stamp_raises [OF assms, of zone]
  by (cases "zone_stamp offset olarm_state zone") (simp_all add: zone_last_changed_def)

lemma zone_name_total: "sized labels \<Longrightarrow> raises (zone_name labels zone) {}"
  by (cases labels) (simp_all add: zone_name_def sized_def)

lemma zone_type_total: "sized types \<Longrightarrow> raises (zone_type types zone) {}"
  by (cases types) (simp_all add: zone_type_def sized_def)

lemma sensor_zone_total:
  assumes "zones_ok olarm_state olarm_zones" and "stamps_ok 0 olarm_state"
  shows "raises (sensor_zone olarm_state olarm_zones zone) {}"
proof -
  from assms(1) have st: "is_dict olarm_state" and zs: "is_dict olarm_zones"
    and sized: "sized (field olarm_state ''zones'' (PList []))"
      "sized (field olarm_zones ''zonesLabels'' (PList []))"
      "sized (field olarm_zones ''zonesTypes'' (PList []))"
    by (simp_all add: zones_ok_def)
  show ?thesis
    unfolding sensor_zone_def py_get_field [OF zs] py_bind_simps
    by (intro raises_bind zone_state_total zone_last_changed_total zone_name_total
          zone_type_total raises_Inr st sized assms(2))
qed

definition power_items :: "pyval \<Rightarrow> (string \<times> pyval) list" where
  "power_items olarm_state =
     (case py_bind (power_source olarm_state) py_items of Inr items \<Rightarrow> items | Inl e \<Rightarrow> [])"

lemma power_source_total:
  assumes "is_dict olarm_state" and "power_ok olarm_state"
  shows "py_bind (power_source olarm_state) py_items = Inr (power_items olarm_state) \<and>
         list_all (\<lambda>kv. \<not> isl (py_int (snd kv))) (power_items olarm_state)"
proof (cases "py_truthy (field olarm_state ''power'' (PDict []))")
  case True
  with assms show ?thesis
    by (cases "field olarm_state ''power'' (PDict [])")
       (simp_all add: power_items_def power_source_def power_ok_def py_get_field)
next
  case False
  with assms(2) have "py_in ''powerAC'' olarm_state = Inr True
      \<or> py_in ''powerAC'' olarm_state = Inr False \<and> field olarm_state ''power'' (PDict []) = PDict []"
    using assms(1) by (cases olarm_state) (auto simp: power_ok_def)
  with False assms(1) show ?thesis
    by (auto simp: power_items_def power_source_def py_get_field)
qed

lemma power_loop_total:
  assumes "list_all (\<lambda>kv. \<not> isl (py_int (snd kv))) items"
  shows "collect power_sensor (zip items idx) rows
           = (rows @ map (\<lambda>x. projr (power_sensor x)) (zip items idx), None)"
proof (rule collect_all)
  show "\<forall>x \<in> set (zip items idx). \<not> isl (power_sensor x)"
  proof
    fix x assume "x \<in> set (zip items idx)"
    then have "fst x \<in> set items"
      by (metis prod.collapse set_zip_leftD)
    with assms have "\<not> isl (py_int (snd (fst x)))"
      by (simp add: list_all_iff)
    then show "\<not> isl (power_sensor x)"
      by (cases x; cases "fst x"; cases "py_int (snd (fst x))") (simp_all add: power_sensor_def)
  qed
qed

text \<open>
  Claim C20. \<^verbatim>\<open>get_sensor_states\<close> does not raise on a payload of the vendor's shape:
  when the device state and the profile are objects, the zone limit is a positive
  integer, the zone status, the labels and the types are arrays or strings (or absent),
  the power map holds integers (or is absent), and every time stamp that is a number
  lies in the range of seconds that the platform's \<^verbatim>\<open>localtime\<close> accepts, it returns
  one row per zone followed by one row per power source, and stores exactly the rows it
  returns. A time stamp that is no number, or whose year has not four digits, does no
  harm: its row has no \<^verbatim>\<open>last_changed\<close>.
\<close>

theorem sensor_states_total:
  assumes dj: "py_key devices_json ''deviceState'' = Inr olarm_state"
      "py_key devices_json ''deviceProfile'' = Inr olarm_zones"
    and ok: "zones_ok olarm_state olarm_zones" "power_ok olarm_state"
      "stamps_ok 0 olarm_state"
    and limit: "py_key olarm_zones ''zonesLimit'' = Inr (PInt n)" "0 < n"
  shows "\<exists>rows. get_sensor_states api devices_json = (api\<lparr>data := rows\<rparr>, Inr rows) \<and>
           length rows = nat n + length (power_items olarm_state)"
proof -
  let ?f = "sensor_zone olarm_state olarm_zones"
  let ?items = "power_items olarm_state"
  from ok(1) have st: "is_dict olarm_state"
    by (simp add: zones_ok_def)
  have "collect ?f [0 ..< nat n] [] = (map (\<lambda>x. projr (?f x)) [0 ..< nat n], None)"
    using sensor_zone_total [OF ok(1,3)] collect_all [of "[0 ..< nat n]" ?f "[]"]
    by (simp add: raises_total)
  moreover note power_source_total [OF st ok(2)]
  moreover have "nat n \<noteq> 0"
    using limit(2) by simp
  ultimately have "sensor_pass olarm_state olarm_zones =
      (map (\<lambda>x. projr (?f x)) [0 ..< nat n]
         @ map (\<lambda>x. projr (power_sensor x)) (zip ?items [nat n ..< nat n + length ?items]), None)"
    using limit(1) by (simp add: sensor_pass_def power_loop_total)
  with dj show ?thesis
    by (simp add: get_sensor_states_def caught_def)
qed

definition sample_device :: pyval where
  "sample_device =
     PDict [(''deviceState'',
              PDict [(''zones'', PStr ''Aab''),
                     (''zonesStamp'', PList [PInt 1700000000123, PStr ''x'']),
                     (''powerAC'', PStr ''ok''), (''powerBattery'', PStr ''low''),
                     (''areas'', PList [PStr ''disarm'', PStr ''arm'']),
                     (''pgm'', PList [PStr ''a'', PStr ''c'', PStr ''a''])]),
            (''deviceProfile'',
              PDict [(''zonesLimit'', PInt 3),
                     (''zonesLabels'', PList [PStr ''Door'', PStr []]),
                     (''zonesTypes'', PList [PInt 10]),
                     (''areasLimit'', PInt 3),
                     (''areasLabels'', PList [PStr ''House'', PStr []]),
                     (''pgmLimit'', PInt 0),
                     (''pgmLabels'', PList [PStr ''Gate'', PStr [], PStr ''Light'']),
                     (''pgmControl'', PList [PStr ''101'', PStr ''1'', PStr []]),
                     (''ukeysLabels'', PList [PStr ''Panic'', PStr []]),
                     (''ukeysLimit'', PInt 2),
                     (''ukeysControl'', PList [PInt 1, PInt 0])])]"

definition sample_state :: pyval where
  "sample_state = projr (py_key sample_device ''deviceState'')"

definition sample_profile :: pyval where
  "sample_profile = projr (py_key sample_device ''deviceProfile'')"

lemmas sample_defs = sample_device_def sample_state_def sample_profile_def

lemma sample_power: "power_items sample_state = [(''AC'', PInt 1), (''Batt'', PInt 0)]"
  by (simp add: sample_defs power_items_def power_source_def)

lemma sample_stamps: "stamps_ok 0 sample_state"
  by (simp add: sample_defs stamps_ok_def upt_rec convertible_def time_consts
        parse_int_def strip_def is_space_def parse_digits_def digit_val_def)

theorem sensor_states_total_witness:
  "\<exists>rows. get_sensor_states demo_api sample_device = (demo_api\<lparr>data := rows\<rparr>, Inr rows) \<and>
     length rows = 5"
  using sensor_states_total [of sample_device sample_state sample_profile 3 demo_api]
  by (simp add: sample_power sample_stamps)
     (simp add: sample_defs zones_ok_def power_ok_def field_def sized_def)

section \<open>Payloads on which the zone decoders raise\<close>

text \<open>
  Claim C21. A profile with a zone limit of zero (or less) makes
  \<^verbatim>\<open>get_sensor_states\<close> raise \<^verbatim>\<open>UnboundLocalError\<close>: the statement after the zone
  loop reads the loop variable, which no iteration has bound, and no handler catches the
  exception. \<^verbatim>\<open>get_sensor_bypass_states\<close>, which has no such statement, returns the
  empty list on the same payload.
\<close>

theorem no_zones_raises:
  assumes "py_key devices_json ''deviceState'' = Inr olarm_state"
    and "py_key devices_json ''deviceProfile'' = Inr olarm_zones"
    and "py_key olarm_zones ''zonesLimit'' = Inr (PInt n)" and "n \<le> 0"
  shows "get_sensor_states api devices_json = (api\<lparr>data := []\<rparr>, Inl UnboundLocalError) \<and>
         get_sensor_bypass_states api devices_json = (api\<lparr>bypass_data := []\<rparr>, Inr [])"
  using assms
  by (simp add: get_sensor_states_def get_sensor_bypass_states_def sensor_pass_def
        bypass_pass_def caught_def)

definition empty_panel :: pyval where
  "empty_panel =
     PDict [(''deviceState'', PDict []), (''deviceProfile'', PDict [(''zonesLimit'', PInt 0)])]"

theorem no_zones_raises_witness:
  "get_sensor_states demo_api empty_panel = (demo_api\<lparr>data := []\<rparr>, Inl UnboundLocalError) \<and>
   get_sensor_bypass_states demo_api empty_panel = (demo_api\<lparr>bypass_data := []\<rparr>, Inr [])"
  using no_zones_raises [of empty_panel "PDict []" "PDict [(''zonesLimit'', PInt 0)]" 0 demo_api]
  by (simp add: empty_panel_def)

text \<open>
  Claim C22. The zone decoders propagate \<^verbatim>\<open>TypeError\<close>: when the zone limit of the
  profile is not an integer (a string, \<^verbatim>\<open>null\<close>, an array), \<^verbatim>\<open>range\<close> raises inside
  the \<^verbatim>\<open>try\<close> block, whose handlers catch key and index errors only, and both
  decoders raise after they have cleared the stored rows.
\<close>

theorem malformed_limit_raises:
  assumes "py_key devices_json ''deviceState'' = Inr olarm_state"
    and "py_key devices_json ''deviceProfile'' = Inr olarm_zones"
    and "py_key olarm_zones ''zonesLimit'' = Inr limit" and "isl (py_range limit)"
  shows "get_sensor_states api devices_json = (api\<lparr>data := []\<rparr>, Inl TypeError) \<and>
         get_sensor_bypass_states api devices_json = (api\<lparr>bypass_data := []\<rparr>, Inl TypeError)"
proof -
  from assms(4) have "py_range limit = Inl TypeError"
    by (cases "py_range limit") (auto dest: py_range_error)
  with assms(1-3) show ?thesis
    by (simp add: get_sensor_states_def get_sensor_bypass_states_def sensor_pass_def
          bypass_pass_def caught_def)
qed

definition string_limit :: pyval where
  "string_limit =
     PDict [(''deviceState'', PDict []),
            (''deviceProfile'', PDict [(''zonesLimit'', PStr ''8'')])]"

theorem malformed_limit_raises_witness:
  "get_sensor_states demo_api string_limit = (demo_api\<lparr>data := []\<rparr>, Inl TypeError) \<and>
   get_sensor_bypass_states demo_api string_limit
     = (demo_api\<lparr>bypass_data := []\<rparr>, Inl TypeError)"
  using malformed_limit_raises [of string_limit "PDict []" "PDict [(''zonesLimit'', PStr ''8'')]"
      "PStr ''8''" demo_api]
  by (simp add: string_limit_def)

section \<open>The state of a zone\<close>

text \<open>
  Claim C23. \<open>zone_state\<close> is the test that both zone decoders make, with the letter
  they test for as its parameter. It reports \<^verbatim>\<open>on\<close> exactly when the zone status of
  the device state has an entry at the zone's index whose string form is that letter in
  either case. Which letter each decoder passes is the last claim of this theory.
\<close>

theorem zone_on_iff:
  "zone_state letter olarm_state zone = Inr ''on'' \<longleftrightarrow>
     (\<exists>zones z. py_get olarm_state ''zones'' (PList []) = Inr zones \<and>
        py_index zones zone = Inr z \<and> lower (py_str z) = letter)"
proof (cases olarm_state)
  case (PDict kvs)
  then show ?thesis
    by (cases "map_of kvs ''zones''"; cases "the (map_of kvs ''zones'')")
       (auto simp: zone_state_def)
qed (simp_all add: zone_state_def)

theorem zone_on_iff_witness:
  "map (zone_state ''a'' (PDict [(''zones'', PStr ''Aab'')])) [0, 1, 2]
     = [Inr ''on'', Inr ''on'', Inr ''off''] \<and>
   map (zone_state ''b'' (PDict [(''zones'', PStr ''Aab'')])) [0, 1, 2]
     = [Inr ''off'', Inr ''off'', Inr ''on'']"
  using zone_on_iff [of "''a''" "PDict [(''zones'', PStr ''Aab'')]" 1]
  by (simp add: zone_state_def lower_def ascii_lower_def)

section \<open>Power rows\<close>

definition power_row :: "string \<Rightarrow> bool \<Rightarrow> int \<Rightarrow> nat \<Rightarrow> pyval" where
  "power_row source powered sensortype zone =
     PDict [(''name'', PStr (''Powered by '' @ source)),
            (''state'', PStr (if powered then ''on'' else ''off'')),
            (''last_changed'', PNone), (''type'', PInt sensortype),
            (''zone_number'', PInt (int zone))]"

lemma power_sensor_row:
  "power_sensor ((key, value), zone) =
     py_bind (py_int value) (\<lambda>v.
       Inr (power_row (if key = ''Batt'' then ''Battery'' else key) (v = 1)
              (if key = ''Batt'' then 1001 else 1000) zone))"
  by (simp add: power_sensor_def power_row_def)

text \<open>
  Claim C24. A device state without a (non-empty) \<^verbatim>\<open>power\<close> map that has the legacy
  field \<^verbatim>\<open>powerAC\<close> yields exactly two power rows after the zones: \<^verbatim>\<open>Powered by AC\<close>
  of type 1000 and \<^verbatim>\<open>Powered by Battery\<close> of type 1001, each \<^verbatim>\<open>on\<close> exactly when
  its legacy field is the string \<^verbatim>\<open>ok\<close>, numbered after the last zone.
\<close>

theorem legacy_power_rows:
  assumes "is_dict olarm_state" and "\<not> py_truthy (field olarm_state ''power'' (PDict []))"
    and "py_in ''powerAC'' olarm_state = Inr True"
  shows "collect power_sensor
           (zip (power_items olarm_state) [n ..< n + length (power_items olarm_state)]) rows
         = (rows @
             [power_row ''AC'' (field olarm_state ''powerAC'' PNone = PStr ''ok'') 1000 n,
              power_row ''Battery'' (field olarm_state ''powerBattery'' PNone = PStr ''ok'')
                1001 (Suc n)],
            None)"
proof -
  from assms have "power_items olarm_state =
      [(''AC'', PInt (if field olarm_state ''powerAC'' PNone = PStr ''ok'' then 1 else 0)),
       (''Batt'', PInt (if field olarm_state ''powerBattery'' PNone = PStr ''ok'' then 1 else 0))]"
    by (simp add: power_items_def power_source_def py_get_field)
  then show ?thesis
    by (simp add: upt_rec power_sensor_row)
qed

theorem legacy_power_rows_witness:
  "collect power_sensor (zip (power_items sample_state) [3 ..< 3 + length (power_items sample_state)]) []
     = ([power_row ''AC'' True 1000 3, power_row ''Battery'' False 1001 4], None)"
  using legacy_power_rows [of sample_state 3 "[]"]
  by (simp add: sample_defs field_def)

section \<open>Panel areas\<close>

definition panel_row :: "pyval \<Rightarrow> pyval \<Rightarrow> nat \<Rightarrow> pyval" where
  "panel_row olarm_state olarm_zones area_num =
     PDict [(''name'', PStr (py_str (area_name olarm_zones area_num))),
            (''state'', projr (py_index (field olarm_state ''areas'' (PList [])) area_num)),
            (''area_number'', PInt (int area_num + 1))]"

definition has_area :: "pyval \<Rightarrow> nat \<Rightarrow> bool" where
  "has_area olarm_state area_num \<longleftrightarrow>
     \<not> isl (py_index (field olarm_state ''areas'' (PList [])) area_num)"

lemma panel_area_cases:
  assumes "is_dict olarm_state" and "\<not> isl (py_len (field olarm_state ''areas'' (PList [])))"
  shows "panel_area olarm_state olarm_zones a =
     (if has_area olarm_state a then Inr (Some (panel_row olarm_state olarm_zones a))
      else if is_dict (field olarm_state ''areas'' (PList []))
              \<and> a < length (projr (py_items (field olarm_state ''areas'' (PList []))))
           then Inl KeyError else Inr None)"
proof (cases olarm_state)
  case (PDict kvs)
  with assms(2) show ?thesis
    by (cases "map_of kvs ''areas''"; cases "the (map_of kvs ''areas'')")
       (auto simp: panel_area_def panel_row_def has_area_def field_def)
qed (use assms(1) in simp_all)

lemma panel_loop_spec:
  assumes "is_dict olarm_state" and "\<not> isl (py_len (field olarm_state ''areas'' (PList [])))"
  shows "panel_loop olarm_state olarm_zones areas acc =
     (acc @ map (panel_row olarm_state olarm_zones) (filter (has_area olarm_state) areas), None)"
  by (induction areas arbitrary: acc) (simp_all add: panel_area_cases [OF assms])

text \<open>
  Claim C25. \<^verbatim>\<open>get_panel_states\<close> on a payload whose device state is an object with
  an area status that has a length: it returns, and stores, one row for each area number
  below the area limit at which the area status has an entry, in increasing order, with
  the entry itself as the state; an area beyond the status is skipped, and so is every
  area when the status is an object. The limit is \<^verbatim>\<open>areasLimit\<close>, or the number of
  labels when the profile has none.
\<close>

theorem panel_rows:
  assumes "py_key devices_json ''deviceState'' = Inr olarm_state"
    and "py_key devices_json ''deviceProfile'' = Inr zones"
    and "is_dict olarm_state" and "\<not> isl (py_len (field olarm_state ''areas'' (PList [])))"
    and "py_get zones ''areasLabels'' (PList []) = Inr olarm_zones"
    and "py_len olarm_zones = Inr count"
    and "py_bind (py_get zones ''areasLimit'' (PInt (int count))) py_range = Inr areas"
  shows "get_panel_states api devices_json =
     (api\<lparr>panel_data := map (panel_row olarm_state olarm_zones)
                             (filter (has_area olarm_state) areas)\<rparr>,
      Inr (map (panel_row olarm_state olarm_zones) (filter (has_area olarm_state) areas)))"
  using assms(1,2,5-7)
  by (simp add: get_panel_states_def panel_loop_spec [OF assms(3,4)] caught_def)

theorem panel_rows_witness:
  "snd (get_panel_states demo_api sample_device) =
     Inr [PDict [(''name'', PStr ''House''), (''state'', PStr ''disarm''), (''area_number'', PInt 1)],
          PDict [(''name'', PStr ''Area 2''), (''state'', PStr ''arm''), (''area_number'', PInt 2)]]"
  using panel_rows [of sample_device sample_state sample_profile
      "PList [PStr ''House'', PStr []]" 2 "[0, 1, 2]" demo_api]
  by (simp add: sample_defs field_def upt_rec has_area_def panel_row_def area_name_def
        string_of_int_digit)

text \<open>
  Claim C26. \<^verbatim>\<open>get_panel_states\<close> raises \<^verbatim>\<open>TypeError\<close> when the labels of the
  areas have no length (\<^verbatim>\<open>null\<close>, a number), also when the profile gives
  \<^verbatim>\<open>areasLimit\<close>: the length of the labels is the default argument of the lookup of
  the limit and is evaluated before the lookup. The stored rows are cleared.
\<close>

theorem panel_labels_raise:
  assumes "py_key devices_json ''deviceState'' = Inr olarm_state"
    and "py_key devices_json ''deviceProfile'' = Inr zones"
    and "py_get zones ''areasLabels'' (PList []) = Inr olarm_zones"
    and "isl (py_len olarm_zones)"
  shows "get_panel_states api devices_json = (api\<lparr>panel_data := []\<rparr>, Inl TypeError)"
proof -
  from assms(4) have "py_len olarm_zones = Inl TypeError"
    by (cases "py_len olarm_zones") (auto dest: py_len_error)
  with assms(1-3) show ?thesis
    by (simp add: get_panel_states_def)
qed

definition null_labels :: pyval where
  "null_labels =
     PDict [(''deviceState'', PDict [(''areas'', PList [PStr ''arm''])]),
            (''deviceProfile'', PDict [(''areasLimit'', PInt 1), (''areasLabels'', PNone)])]"

theorem panel_labels_raise_witness:
  "get_panel_states demo_api null_labels = (demo_api\<lparr>panel_data := []\<rparr>, Inl TypeError)"
  using panel_labels_raise [of null_labels "PDict [(''areas'', PList [PStr ''arm''])]"
      "PDict [(''areasLimit'', PInt 1), (''areasLabels'', PNone)]" PNone demo_api]
  by (simp add: null_labels_def)

section \<open>PGMs\<close>

lemma map_map_filter:
  assumes "\<And>x row. x \<in> set xs \<Longrightarrow> f x = Some row \<Longrightarrow> g row = h x"
  shows "map g (List.map_filter f xs) = map h (filter (\<lambda>x. f x \<noteq> None) xs)"
  using assms by (induction xs) (auto simp: map_filter_simps split: option.splits)

lemma pgm_entry_Some:
  assumes "pgm_entry pgm_state pgm_labels pgm_setup i = Some row"
  shows "py_key row ''pgm_number'' = Inr (PInt (int i + 1))"
    and "py_key row ''name'' \<noteq> Inr (PStr [])"
    and "list_at pgm_setup i \<noteq> None" and "list_at pgm_setup i \<noteq> Some (PStr [])"
  using assms by (auto simp: pgm_entry_def Let_def split: if_splits option.splits)

lemma pgm_entry_None:
  "pgm_entry pgm_state pgm_labels pgm_setup i = None \<longleftrightarrow>
     list_at pgm_setup i \<in> {None, Some (PStr [])}"
  by (auto simp: pgm_entry_def Let_def split: option.splits)

definition configured :: "pyval \<Rightarrow> nat \<Rightarrow> bool" where
  "configured pgm_setup i \<longleftrightarrow> list_at pgm_setup i \<notin> {None, Some (PStr [])}"

definition pgm_inputs :: "pyval \<Rightarrow> (pyval \<times> pyval \<times> pyval \<times> pyval) py" where
  "pgm_inputs devices_json =
     py_bind (py_get devices_json ''deviceProfile'' PNone) (\<lambda>profile.
     py_bind (py_get devices_json ''deviceState'' (PDict [])) (\<lambda>state_obj.
     py_bind (py_get state_obj ''pgm'' PNone) (\<lambda>pgm_state.
       let pgm_labels = py_or (field profile ''pgmLabels'' PNone) (PList [])
       in Inr (pgm_state, pgm_labels,
               py_or (field profile ''pgmControl'' PNone) (PList []),
               pgm_limit_of (py_or (field profile ''pgmLimit'' PNone) (PInt 0)) pgm_labels))))"

lemma get_pgm_zones_inputs:
  assumes "py_get devices_json ''deviceProfile'' PNone = Inr profile" and "is_dict profile"
  shows "get_pgm_zones devices_json =
     py_bind (pgm_inputs devices_json) (\<lambda>(pgm_state, pgm_labels, pgm_setup, pgm_limit).
       py_bind (py_int pgm_limit) (\<lambda>n.
         Inr (List.map_filter (pgm_entry pgm_state pgm_labels pgm_setup) [0..<nat n])))"
  using assms
  by (cases "py_get devices_json ''deviceState'' (PDict [])";
      cases "py_get (projr (py_get devices_json ''deviceState'' (PDict []))) ''pgm'' PNone")
     (simp_all add: get_pgm_zones_def pgm_inputs_def py_get_field Let_def)

text \<open>
  Claim C27. \<^verbatim>\<open>get_pgm_zones\<close> emits a row for exactly the PGMs below the limit whose
  entry of \<^verbatim>\<open>pgmControl\<close> exists and is not the empty string, in increasing order;
  the row of PGM \<open>i\<close> has \<^verbatim>\<open>pgm_number\<close> \<open>i + 1\<close>, and no row has an empty name.
\<close>

theorem pgm_rows_configured:
  assumes "py_get devices_json ''deviceProfile'' PNone = Inr profile" and "is_dict profile"
    and "pgm_inputs devices_json = Inr (pgm_state, pgm_labels, pgm_setup, pgm_limit)"
    and "py_int pgm_limit = Inr n"
  shows "\<exists>rows. get_pgm_zones devices_json = Inr rows \<and>
           map (\<lambda>row. py_key row ''pgm_number'') rows
             = map (\<lambda>i. Inr (PInt (int i + 1))) (filter (configured pgm_setup) [0..<nat n]) \<and>
           list_all (\<lambda>row. py_key row ''name'' \<noteq> Inr (PStr [])) rows"
proof -
  let ?f = "pgm_entry pgm_state pgm_labels pgm_setup"
  have "map (\<lambda>row. py_key row ''pgm_number'') (List.map_filter ?f [0..<nat n])
      = map (\<lambda>i. Inr (PInt (int i + 1))) (filter (\<lambda>i. ?f i \<noteq> None) [0..<nat n])"
    by (rule map_map_filter) (rule pgm_entry_Some)
  moreover have "(\<lambda>i. ?f i \<noteq> None) = configured pgm_setup"
    by (simp add: fun_eq_iff pgm_entry_None configured_def)
  moreover have "list_all (\<lambda>row. py_key row ''name'' \<noteq> Inr (PStr []))
      (List.map_filter ?f [0..<nat n])"
    by (auto simp: list_all_iff List.map_filter_def dest: pgm_entry_Some(2))
  ultimately show ?thesis
    using assms by (simp add: get_pgm_zones_inputs)
qed

lemma sample_pgm_inputs:
  "pgm_inputs sample_device =
     Inr (PList [PStr ''a'', PStr ''c'', PStr ''a''],
          PList [PStr ''Gate'', PStr [], PStr ''Light''],
          PList [PStr ''101'', PStr ''1'', PStr []], PInt 3)"
  by (simp add: sample_defs pgm_inputs_def field_def py_or_def pgm_limit_of_def Let_def)

theorem pgm_rows_configured_witness:
  "map (\<lambda>row. py_key row ''pgm_number'') (projr (get_pgm_zones sample_device))
     = [Inr (PInt 1), Inr (PInt 2)]"
proof -
  have profile: "py_get sample_device ''deviceProfile'' PNone = Inr sample_profile"
    "is_dict sample_profile"
    by (simp_all add: sample_defs)
  have limit: "py_int (PInt 3) = Inr 3"
    by simp
  from pgm_rows_configured [OF profile sample_pgm_inputs limit]
  obtain rows where "get_pgm_zones sample_device = Inr rows"
    and "map (\<lambda>row. py_key row ''pgm_number'') rows
      = map (\<lambda>i. Inr (PInt (int i + 1)))
          (filter (configured (PList [PStr ''101'', PStr ''1'', PStr []])) [0..<nat 3])"
    by blast
  then show ?thesis
    by (simp add: configured_def list_at_def upt_rec)
qed

text \<open>
  Claim C28. \<^verbatim>\<open>get_pgm_zones\<close> propagates the exception of \<^verbatim>\<open>int\<close>: when the PGM
  limit of the profile cannot be converted (a string that is no numeral, an array), the
  conversion raises \<^verbatim>\<open>ValueError\<close> or \<^verbatim>\<open>TypeError\<close> inside a \<^verbatim>\<open>try\<close> block
  that catches key and index errors only.
\<close>

theorem pgm_limit_raises:
  assumes "py_get devices_json ''deviceProfile'' PNone = Inr profile" and "is_dict profile"
    and "pgm_inputs devices_json = Inr (pgm_state, pgm_labels, pgm_setup, pgm_limit)"
    and "py_int pgm_limit = Inl e"
  shows "get_pgm_zones devices_json = Inl e \<and> e \<in> {TypeError, ValueError}"
  using assms by (auto simp: get_pgm_zones_inputs dest: py_int_error)

definition word_limit :: pyval where
  "word_limit =
     PDict [(''deviceState'', PDict []), (''deviceProfile'', PDict [(''pgmLimit'', PStr ''four'')])]"

theorem pgm_limit_raises_witness:
  "get_pgm_zones word_limit = Inl ValueError"
  using pgm_limit_raises [of word_limit "PDict [(''pgmLimit'', PStr ''four'')]" PNone "PList []"
      "PList []" "PStr ''four''" ValueError]
  by (simp add: word_limit_def pgm_inputs_def field_def py_or_def pgm_limit_of_def Let_def
        parse_int_def strip_def is_space_def parse_digits_def digit_val_def)

section \<open>Utility keys\<close>

lemma ukey_entry_number:
  "ukey_entry ukey_labels ukey_state i = Inr row
     \<Longrightarrow> py_key row ''ukey_number'' = Inr (PInt (int i + 1))"
  by (auto simp: ukey_entry_def py_bind_eq_Inr)

text \<open>
  Claim C29. \<^verbatim>\<open>get_ukey_zones\<close> decodes all keys or none: when it returns a list
  that is not empty, the profile has the labels, the limit and the control array, the
  list has one row for every key below the limit, and the row of key \<open>i\<close> is the one the
  loop body computes for \<open>i\<close>. A key or index error at any key discards the rows of the
  keys before it.
\<close>

theorem ukeys_all_or_nothing:
  assumes "get_ukey_zones devices_json = Inr rows" and "rows \<noteq> []"
  shows "\<exists>ukey_labels ukey_limit ukey_state keys.
           ukey_setup devices_json = Inr (Some (ukey_labels, ukey_limit, ukey_state)) \<and>
           py_range ukey_limit = Inr keys \<and>
           map Inr rows = map (ukey_entry ukey_labels ukey_state) keys"
proof -
  from assms obtain ukey_labels ukey_limit ukey_state keys
    where found: "ukey_setup devices_json = Inr (Some (ukey_labels, ukey_limit, ukey_state))"
      and keys: "py_range ukey_limit = Inr keys"
      and loop: "collect (ukey_entry ukey_labels ukey_state) keys [] = (rows, None)"
    by (auto simp: get_ukey_zones_def split: sum.splits option.splits if_splits prod.splits)
  let ?f = "ukey_entry ukey_labels ukey_state"
  from loop have ok: "\<forall>i \<in> set keys. \<not> isl (?f i)"
    using collect_None [of ?f keys "[]"] by simp
  with loop have "rows = map (\<lambda>i. projr (?f i)) keys"
    by (simp add: collect_all)
  with ok have "map Inr rows = map ?f keys"
    by simp
  with found keys show ?thesis
    by blast
qed

lemma sample_ukeys:
  "get_ukey_zones sample_device =
     Inr [PDict [(''name'', PStr ''Panic''), (''state'', PBool True), (''ukey_number'', PInt 1)],
          PDict [(''name'', PStr ''Ukey 2''), (''state'', PBool False), (''ukey_number'', PInt 2)]]"
  by (simp add: sample_defs get_ukey_zones_def ukey_setup_def ukey_entry_def upt_rec
        string_of_int_digit)

theorem ukeys_all_or_nothing_witness:
  "\<exists>ukey_labels ukey_limit ukey_state keys.
     ukey_setup sample_device = Inr (Some (ukey_labels, ukey_limit, ukey_state)) \<and>
     py_range ukey_limit = Inr keys \<and> length keys = 2"
proof -
  from ukeys_all_or_nothing [OF sample_ukeys]
  obtain ukey_labels ukey_limit ukey_state keys
    where "ukey_setup sample_device = Inr (Some (ukey_labels, ukey_limit, ukey_state))"
      and "py_range ukey_limit = Inr keys"
      and "map Inr [PDict [(''name'', PStr ''Panic''), (''state'', PBool True),
                           (''ukey_number'', PInt 1)],
                    PDict [(''name'', PStr ''Ukey 2''), (''state'', PBool False),
                           (''ukey_number'', PInt 2)]]
             = map (ukey_entry ukey_labels ukey_state) keys"
    by auto
  moreover from this(3) have "length keys = 2"
    by (metis length_map length_Cons list.size(3) numeral_2_eq_2)
  ultimately show ?thesis
    by blast
qed

text \<open>
  Claim C30. \<^verbatim>\<open>get_ukey_zones\<close> returns the empty list when the profile is an object
  that lacks one of \<^verbatim>\<open>ukeysLabels\<close>, \<^verbatim>\<open>ukeysLimit\<close> and \<^verbatim>\<open>ukeysControl\<close>,
  whatever the other two hold.
\<close>

theorem ukeys_need_all_fields:
  assumes "py_key devices_json ''deviceProfile'' = Inr profile" and "is_dict profile"
    and "k \<in> {''ukeysLabels'', ''ukeysLimit'', ''ukeysControl''}"
    and "py_in k profile = Inr False"
  shows "get_ukey_zones devices_json = Inr []"
  using assms
  by (cases profile) (auto simp: get_ukey_zones_def ukey_setup_def)

definition no_control :: pyval where
  "no_control =
     PDict [(''deviceProfile'',
              PDict [(''ukeysLabels'', PList [PStr ''Panic'']), (''ukeysLimit'', PInt 1)])]"

theorem ukeys_need_all_fields_witness:
  "get_ukey_zones no_control = Inr []"
  using ukeys_need_all_fields [of no_control
      "PDict [(''ukeysLabels'', PList [PStr ''Panic'']), (''ukeysLimit'', PInt 1)]"
      "''ukeysControl''"]
  by (simp add: no_control_def)

section \<open>Time stamps beyond the platform's range\<close>

lemma zone_stamp_beyond:
  assumes "py_key olarm_state ''zonesStamp'' = Inr (PList (PInt ms # rest))"
    and "ms div 1000 < LOCALTIME_MIN \<or> LOCALTIME_MAX < ms div 1000"
  shows "zone_last_changed offset olarm_state 0 = Inl OSError
       \<or> zone_last_changed offset olarm_state 0 = Inl OverflowError"
proof -
  from assms(1) have "zone_stamp offset olarm_state 0 = display_time offset (ms div 1000)"
    by (cases olarm_state) (auto simp: zone_stamp_def split: option.splits)
  with display_time_beyond [OF assms(2), of offset] show ?thesis
    by (auto simp: zone_last_changed_def)
qed

lemma collect_first_raises: "f x = Inl e \<Longrightarrow> collect f (x # xs) acc = (acc, Some e)"
  by simp

text \<open>
  Claim C33. A time stamp beyond the seconds that the platform's \<^verbatim>\<open>localtime\<close>
  accepts makes both zone decoders raise: \<^verbatim>\<open>time.ctime\<close> raises \<^verbatim>\<open>OSError\<close>, or
  \<^verbatim>\<open>OverflowError\<close> when the second does not fit \<^verbatim>\<open>time_t\<close>, and neither the
  handler of the time stamp nor the handler of the loop catches it. For the stamp of the
  first zone no row is stored.
\<close>

theorem far_stamp_raises:
  assumes "py_key devices_json ''deviceState'' = Inr olarm_state"
    and "py_key devices_json ''deviceProfile'' = Inr olarm_zones"
    and "zones_ok olarm_state olarm_zones"
    and "py_key olarm_zones ''zonesLimit'' = Inr (PInt n)" and "0 < n"
    and "py_key olarm_state ''zonesStamp'' = Inr (PList (PInt ms # rest))"
    and "ms div 1000 < LOCALTIME_MIN \<or> LOCALTIME_MAX < ms div 1000"
  shows "(get_sensor_states api devices_json = (api\<lparr>data := []\<rparr>, Inl OSError) \<or>
          get_sensor_states api devices_json = (api\<lparr>data := []\<rparr>, Inl OverflowError)) \<and>
         (get_sensor_bypass_states api devices_json = (api\<lparr>bypass_data := []\<rparr>, Inl OSError) \<or>
          get_sensor_bypass_states api devices_json
            = (api\<lparr>bypass_data := []\<rparr>, Inl OverflowError))"
proof -
  from assms(3) have st: "is_dict olarm_state" "sized (field olarm_state ''zones'' (PList []))"
    by (simp_all add: zones_ok_def)
  from zone_state_total [OF st] have state: "\<not> isl (zone_state letter olarm_state 0)" for letter
    by (simp add: raises_total)
  from assms(5) have zones: "[0 ..< nat n] = 0 # [1 ..< nat n]"
    by (simp add: upt_conv_Cons)
  from zone_stamp_beyond [OF assms(6,7), of 0] state [of "''a''"]
  have "sensor_zone olarm_state olarm_zones 0 = Inl OSError
      \<or> sensor_zone olarm_state olarm_zones 0 = Inl OverflowError"
    by (cases "zone_state ''a'' olarm_state 0") (auto simp: sensor_zone_def)
  moreover from zone_stamp_beyond [OF assms(6,7), of 7200] state [of "''b''"]
  have "bypass_entry olarm_state olarm_zones 0 = Inl OSError
      \<or> bypass_entry olarm_state olarm_zones 0 = Inl OverflowError"
    by (cases "zone_state ''b'' olarm_state 0") (auto simp: bypass_entry_def)
  ultimately show ?thesis
    using assms(1,2,4) zones
    by (auto simp: get_sensor_states_def get_sensor_bypass_states_def sensor_pass_def
          bypass_pass_def caught_def)
qed

definition far_stamp :: pyval where
  "far_stamp =
     PDict [(''deviceState'', PDict [(''zonesStamp'', PList [PInt (10 ^ 20)])]),
            (''deviceProfile'', PDict [(''zonesLimit'', PInt 1)])]"

theorem far_stamp_raises_witness:
  "get_sensor_states demo_api far_stamp = (demo_api\<lparr>data := []\<rparr>, Inl OSError)"
proof -
  have "get_sensor_states demo_api far_stamp \<noteq> (demo_api\<lparr>data := []\<rparr>, Inl OverflowError)"
    by (simp add: far_stamp_def get_sensor_states_def sensor_pass_def caught_def sensor_zone_def
          zone_defs display_time_cases time_consts upt_rec)
  with far_stamp_raises [of far_stamp "PDict [(''zonesStamp'', PList [PInt (10 ^ 20)])]"
      "PDict [(''zonesLimit'', PInt 1)]" 1 "10 ^ 20" "[]" demo_api]
  show ?thesis
    by (simp add: far_stamp_def zones_ok_def field_def sized_def time_consts)
qed

section \<open>The letters of the two zone decoders\<close>

lemma zone_state_values:
  "zone_state letter olarm_state zone = Inr state \<Longrightarrow> state = ''on'' \<or> state = ''off''"
  by (auto simp: zone_state_def py_bind_eq_Inr split: if_splits)

text \<open>
  Claim C40. The row that \<^verbatim>\<open>get_sensor_states\<close> builds for a zone has the state
  \<^verbatim>\<open>on\<close> exactly when the zone's status is the letter \<^verbatim>\<open>a\<close> (active), and the
  row that \<^verbatim>\<open>get_sensor_bypass_states\<close> builds has it exactly when the status is
  \<^verbatim>\<open>b\<close> (bypassed); the state of a row is never anything but \<^verbatim>\<open>on\<close> or
  \<^verbatim>\<open>off\<close>.
\<close>

theorem row_state_letters:
  "(sensor_zone olarm_state olarm_zones zone = Inr row \<longrightarrow>
      py_key row ''state'' =
        Inr (PStr (if zone_state ''a'' olarm_state zone = Inr ''on'' then ''on'' else ''off''))) \<and>
   (bypass_entry olarm_state olarm_zones zone = Inr row \<longrightarrow>
      py_key row ''state'' =
        Inr (PStr (if zone_state ''b'' olarm_state zone = Inr ''on'' then ''on'' else ''off'')))"
  by (auto simp: sensor_zone_def bypass_entry_def py_bind_eq_Inr dest: zone_state_values)

definition two_zones :: pyval where
  "two_zones = PDict [(''zones'', PStr ''ba'')]"

lemma two_zones_rows:
  "sensor_zone two_zones (PDict []) 0 =
     Inr (PDict [(''name'', PStr ''Zone 1''), (''state'', PStr ''off''),
                 (''last_changed'', PNone), (''type'', PInt 0), (''zone_number'', PInt 0)])"
  "bypass_entry two_zones (PDict []) 0 =
     Inr (PDict [(''name'', PStr ''Zone 1''), (''state'', PStr ''on''),
                 (''last_changed'', PNone), (''zone_number'', PInt 0)])"
  by (simp_all add: two_zones_def sensor_zone_def bypass_entry_def zone_defs string_of_int_digit
        lower_def ascii_lower_def)

theorem row_state_letters_witness:
  "py_bind (sensor_zone two_zones (PDict []) 0) (\<lambda>row. py_key row ''state'')
     = Inr (PStr ''off'') \<and>
   py_bind (bypass_entry two_zones (PDict []) 0) (\<lambda>row. py_key row ''state'')
     = Inr (PStr ''on'')"
  using row_state_letters [of two_zones "PDict []" 0
      "PDict [(''name'', PStr ''Zone 1''), (''state'', PStr ''off''),
              (''last_changed'', PNone), (''type'', PInt 0), (''zone_number'', PInt 0)]"]
  by (simp add: two_zones_rows)

end
