(* ===== verification/Spec2Isabelle.thy ===== *)
theory Spec2Isabelle
  imports RateLimiter PyJson HaTables RequestClient ClientSession SharedLimiter Interleaving StateDecoders
begin

text \<open>
  \<^bold>\<open>A verification development for the Olarm API layer\<close>
  (\<^verbatim>\<open>src/custom_components/olarm_sensors/olarm_api.py\<close> and \<^verbatim>\<open>const.py\<close>).

  \<^bold>\<open>The program.\<close> The integration polls a vendor REST API for the state of alarm
  panels and posts control actions to it. Its parts:
  \<^item> \<^verbatim>\<open>OlarmRateLimiter\<close>: the time of the last request, the end of the current
    backoff window and the number of consecutive 429 responses, one object per API key;
  \<^item> the constructor of \<^verbatim>\<open>OlarmApi\<close> and the class attribute \<^verbatim>\<open>_rate_limiters\<close>,
    which give every device of one API key the same limiter object;
  \<^item> the request methods of \<^verbatim>\<open>OlarmApi\<close> (\<^verbatim>\<open>get_device_json\<close>,
    \<^verbatim>\<open>check_credentials\<close>, \<^verbatim>\<open>get_changed_by_json\<close>, \<^verbatim>\<open>send_action\<close> and the
    action builders on top of it, \<^verbatim>\<open>get_all_devices\<close>), which ask the limiter for a
    slot, make one HTTP call, classify the response and report it to the limiter;
  \<^item> the decoders of \<^verbatim>\<open>OlarmApi\<close> (\<^verbatim>\<open>get_sensor_states\<close>,
    \<^verbatim>\<open>get_sensor_bypass_states\<close>, \<^verbatim>\<open>get_panel_states\<close>, \<^verbatim>\<open>get_pgm_zones\<close>,
    \<^verbatim>\<open>get_ukey_zones\<close>, \<^verbatim>\<open>get_alarm_trigger\<close>), which turn the device JSON into
    lists of records;
  \<^item> \<^verbatim>\<open>OlarmSetupApi\<close>, which lists the devices at setup time without the limiter;
  \<^item> the constants, tables and helper classes of \<^verbatim>\<open>const.py\<close>.

  \<^bold>\<open>The theories\<close>, in the order of their imports.
  \<^item> \<open>Olarm_Prelude\<close>: fact collections, the type \<open>time\<close>, shared lemmas on
    \<open>min\<close>, \<open>max\<close>, powers of two and lists.
  \<^item> \<open>Const\<close>: the rate limit configuration of \<^verbatim>\<open>const.py\<close>.
  \<^item> \<open>Clock\<close>: the environment of the limiter, a monotonic clock whose readings may
    drift apart by any non-negative delays; \<open>monotonic\<close> is \<^verbatim>\<open>time.monotonic()\<close> and
    \<open>sleep\<close> is \<^verbatim>\<open>asyncio.sleep\<close>, which never returns early.
  \<^item> \<open>RateLimiter\<close>: the record \<open>rate_limiter\<close> and one definition per method of
    \<^verbatim>\<open>OlarmRateLimiter\<close>; \<^verbatim>\<open>wait_for_slot\<close> is composed of its three phases. The
    lemmas give the contract of \<^verbatim>\<open>wait_for_slot\<close> (\<open>earliest_slot\<close>), the backoff
    schedule, the limiter as a machine over its four methods with the counter's
    specification \<open>hits_after\<close>, and the invariant \<open>limiter_inv\<close>.
  \<^item> \<open>PyJson\<close>: Python values (\<open>pyval\<close>), exceptions as values (\<open>py_error + 'a\<close>
    with \<open>py_bind\<close>), the built-ins the source applies to JSON (subscript, \<^verbatim>\<open>get\<close>,
    \<^verbatim>\<open>len\<close>, \<^verbatim>\<open>int\<close>, \<^verbatim>\<open>str\<close>, \<^verbatim>\<open>range\<close>, \<^verbatim>\<open>in\<close>, \<^verbatim>\<open>lower\<close>), the time
    library (\<open>display_time\<close>) and the rules \<open>raises\<close> that bound the exceptions of an
    expression.
  \<^item> \<open>HaTables\<close>: the three dictionaries of \<^verbatim>\<open>const.py\<close> and the classes
    \<^verbatim>\<open>TempEntry\<close> and \<^verbatim>\<open>BypassZone\<close>.
  \<^item> \<open>RequestClient\<close>: the record \<open>olarm_api\<close> and one definition per request
    method. The outcome of the HTTP call is an argument (\<open>http_outcome\<close>), the request
    that went out is part of the result. The \<open>classify\<close> functions say what a
    response means for the limiter, and the lemmas \<open>*_limiter\<close> that every method
    does to the limiter exactly that.
  \<^item> \<open>ClientSession\<close>: sequences of calls of one device, each call ending before the
    next begins (\<open>client_step\<close>), as runs of the limiter machine.
  \<^item> \<open>SharedLimiter\<close>: the class attribute \<^verbatim>\<open>_rate_limiters\<close> and the constructor
    \<open>OlarmApi_init\<close> over an explicit store of limiter objects; a world of several
    devices whose methods reach the limiter through the reference they hold.
  \<^item> \<open>Interleaving\<close>: \<^verbatim>\<open>wait_for_slot\<close> split at its two \<^verbatim>\<open>await\<close>s, and calls
    that overlap under a scheduler.
  \<^item> \<open>StateDecoders\<close>: one definition per decoder and per loop body; \<open>collect\<close> is
    the loop that appends rows until an exception.
  \<^item> this theory: the properties that relate the action builders and the decoders to
    the tables of \<^verbatim>\<open>const.py\<close>.

  \<^bold>\<open>What is shown.\<close> For the limiter: a granted slot respects the gap and the backoff
  window under any clock drift, the denial after three 429 responses, the backoff
  schedule, the invariant and the bound on the wait. For the request methods: a denied
  call sends nothing, the result of each method on every branch, the exceptions that
  escape, and that a session is a run of the limiter. For the constructor: one limiter
  per key, and the spacing of requests across the devices of a key. For overlapping
  calls: what the missing lock allows, and that calls one at a time keep the gap. For
  the decoders: the rows on well-formed input, the payloads on which they raise, and
  the numbering of the rows.

  \<^bold>\<open>Bounds.\<close> Floats are real numbers: rounding is not modelled, also not that of
  \<^verbatim>\<open>int(stamp) / 1000\<close>, which is exact below \<open>2\<^sup>5\<^sup>3\<close> milliseconds. The counter
  of consecutive 429 responses is a natural number: the code sets it to 0 and adds 1
  to it, and the exponent \<^verbatim>\<open>consecutive_429s - 1\<close> is only evaluated after the
  increment. JSON numbers are integers. Strings are lists of characters below code
  point 256, and \<open>lower\<close> folds ASCII letters only. The thresholds at which the time
  library raises are those of CPython on Linux with a 64 bit \<^verbatim>\<open>time_t\<close> in UTC; a
  display time is the pair of its second and offset, not its text. In \<open>RateLimiter\<close>,
  \<open>RequestClient\<close>, \<open>ClientSession\<close> and \<open>SharedLimiter\<close> a call is one step; in
  \<open>Interleaving\<close> a stretch of code between two \<^verbatim>\<open>await\<close>s runs at one instant.
  All loops of the source run over finite lists, so every definition is total and no
  fuel is needed.

  \<^bold>\<open>Not modelled.\<close> \<^verbatim>\<open>OlarmUpdateAPI\<close> (one request to GitHub), logging except
  where evaluating the arguments of a log call can raise, the transport (aiohttp), the
  clause for \<^verbatim>\<open>APINotFoundError\<close> in \<^verbatim>\<open>get_changed_by_json\<close> (nothing in the sources
  raises it), and the string constants of the configuration flow.
\<close>

section \<open>Properties that span components\<close>

definition sent_command :: "bool call \<Rightarrow> pyval py" where
  "sent_command r =
     (case snd (fst r) of
        None \<Rightarrow> Inl KeyError
      | Some req \<Rightarrow>
          (case req_data req of None \<Rightarrow> Inl KeyError | Some d \<Rightarrow> py_key d ''actionCmd''))"

text \<open>
  Claim C31. The commands of the four area actions are the keys of
  \<^verbatim>\<open>OLARM_CHANGE_TO_HA\<close> that have a Home Assistant state, and none of them is among
  the commands that \<^verbatim>\<open>get_changed_by_json\<close> ignores; the command of
  \<^verbatim>\<open>bypass_zone\<close> is ignored and is no key of the table. So the change an area action
  causes is one that \<^verbatim>\<open>get_changed_by_json\<close> can select and that the panel entity
  can translate.
\<close>

theorem area_commands_mapped:
  assumes "\<not> slot_denied rl"
  shows "map (\<lambda>action. map_sum id (map_of OLARM_CHANGE_TO_HA)
               (sent_command (action api area out rl c)))
           [disarm_area, stay_area, sleep_area, arm_area]
         = [Inr (Some (Some DISARMED)), Inr (Some (Some ARMED_HOME)),
            Inr (Some (Some ARMED_NIGHT)), Inr (Some (Some ARMED_AWAY))] \<and>
         list_all (\<lambda>action. sent_command (action api area out rl c)
                     \<notin> Inr ` PStr ` set non_arm_commands)
           [disarm_area, stay_area, sleep_area, arm_area] \<and>
         sent_command (bypass_zone api (BypassZone_data (BypassZone z)) out rl c)
           = Inr (PStr ''zone-bypass'') \<and>
         PStr ''zone-bypass'' \<in> PStr ` set non_arm_commands \<and>
         map_of OLARM_CHANGE_TO_HA (PStr ''zone-bypass'') = None"
  using assms
  by (simp add: sent_command_def send_action_request post_request_def action_payload_def
        action_defs table_defs non_arm_commands_def)

theorem area_commands_mapped_witness:
  "map (\<lambda>action. map_sum id (map_of OLARM_CHANGE_TO_HA)
          (sent_command (action demo_api (PInt 1) ConnectorError new_limiter
             \<lparr>now = 100, drift = []\<rparr>)))
     [disarm_area, stay_area, sleep_area, arm_area]
   = [Inr (Some (Some DISARMED)), Inr (Some (Some ARMED_HOME)),
      Inr (Some (Some ARMED_NIGHT)), Inr (Some (Some ARMED_AWAY))]"
  using area_commands_mapped [of new_limiter demo_api "PInt 1" ConnectorError
      "\<lparr>now = 100, drift = []\<rparr>"]
  by (simp add: slot_denied_def new_limiter_def init_limiter_def rate_limit_consts)

definition row_class :: "pyval \<Rightarrow> device_class option py" where
  "row_class row = py_bind (py_key row ''type'') (\<lambda>t. Inr (map_of OLARM_ZONE_TYPE_TO_HA t))"

text \<open>
  Claim C32. The zone types that \<^verbatim>\<open>get_sensor_states\<close> makes up itself are keys of
  \<^verbatim>\<open>OLARM_ZONE_TYPE_TO_HA\<close>: a power row has the class \<^verbatim>\<open>POWER\<close> when its source is
  the battery and \<^verbatim>\<open>PLUG\<close> otherwise, and a zone without an entry in
  \<^verbatim>\<open>zonesTypes\<close> has the type 0 of class \<^verbatim>\<open>MOTION\<close>.
\<close>

theorem synthetic_types_mapped:
  "(power_sensor ((key, value), zone) = Inr row \<longrightarrow>
      row_class row = Inr (Some (if key = ''Batt'' then POWER else PLUG))) \<and>
   (py_len types = Inr n \<and> n \<le> zone \<longrightarrow>
      py_bind (zone_type types zone) (\<lambda>t. Inr (map_of OLARM_ZONE_TYPE_TO_HA t))
        = Inr (Some MOTION))"
proof (intro conjI impI)
  assume "power_sensor ((key, value), zone) = Inr row"
  then show "row_class row = Inr (Some (if key = ''Batt'' then POWER else PLUG))"
    by (cases "py_int value")
       (auto simp: power_sensor_row row_class_def power_row_def table_defs)
next
  assume "py_len types = Inr n \<and> n \<le> zone"
  then show "py_bind (zone_type types zone) (\<lambda>t. Inr (map_of OLARM_ZONE_TYPE_TO_HA t))
      = Inr (Some MOTION)"
    by (simp add: zone_type_def table_defs)
qed

theorem synthetic_types_mapped_witness:
  "row_class (projr (power_sensor ((''Batt'', PInt 1), 8))) = Inr (Some POWER)"
  using synthetic_types_mapped [of "''Batt''" "PInt 1" 8 "projr (power_sensor ((''Batt'', PInt 1), 8))"]
  by (simp add: power_sensor_def)

end
